(* ===== verification/VirtioPrelude.thy ===== *)
theory VirtioPrelude
  imports Main "HOL-Library.Word" "HOL-Library.While_Combinator"
begin

text \<open>
  Shared vocabulary of the development: names for the machine integers of the Rust sources,
  the outcome type and the state-passing programs every operation is written in, the rules
  that decompose a successful or a failed run, and the facts on lists and on 16-bit ring
  indices the components share.

  A Rust function that takes \<^verbatim>\<open>&mut self\<close> and returns \<^verbatim>\<open>VirtIoResult<T>\<close> is a program:
  it maps a state to an outcome and a new state. The state is kept on every outcome, because
  an early return through the \<^verbatim>\<open>?\<close> operator keeps the mutations made before it.
\<close>

section \<open>Machine integers\<close>

type_synonym u8 = "8 word"
type_synonym u16 = "16 word"
type_synonym u32 = "32 word"
type_synonym u64 = "64 word"

text \<open>The sources are built for \<^verbatim>\<open>riscv64\<close>, where \<^verbatim>\<open>usize\<close> has 64 bits.\<close>

type_synonym usize = "64 word"

section \<open>Outcomes and programs\<close>

text \<open>
  \<open>Ok\<close> and \<open>Err\<close> are the two values of Rust's \<^verbatim>\<open>Result\<close>; \<open>Panic\<close> is an unwinding
  (failed assertion, \<^verbatim>\<open>unwrap\<close> of an error, index out of bounds); \<open>Hang\<close> is a loop that
  never stops.
\<close>

datatype ('e, 'a) outcome = Ok 'a | Err 'e | Panic | Hang

type_synonym ('s, 'e, 'a) prog = "'s \<Rightarrow> ('e, 'a) outcome \<times> 's"

definition ret :: "'a \<Rightarrow> ('s, 'e, 'a) prog" where
  "ret x s = (Ok x, s)"

definition throw :: "'e \<Rightarrow> ('s, 'e, 'a) prog" where
  "throw e s = (Err e, s)"

definition panic :: "('s, 'e, 'a) prog" where
  "panic s = (Panic, s)"

definition bind :: "('s, 'e, 'a) prog \<Rightarrow> ('a \<Rightarrow> ('s, 'e, 'b) prog) \<Rightarrow> ('s, 'e, 'b) prog" where
  "bind m f s =
     (case m s of
        (Ok x, s') \<Rightarrow> f x s'
      | (Err e, s') \<Rightarrow> (Err e, s')
      | (Panic, s') \<Rightarrow> (Panic, s')
      | (Hang, s') \<Rightarrow> (Hang, s'))"

definition andthen :: "('s, 'e, unit) prog \<Rightarrow> ('s, 'e, 'b) prog \<Rightarrow> ('s, 'e, 'b) prog" where
  "andthen m n = bind m (\<lambda>_. n)"

text \<open>Rust's \<^verbatim>\<open>assert!\<close>; \<^verbatim>\<open>debug_assert!\<close> is active in builds with debug assertions only.\<close>

definition assert_that :: "bool \<Rightarrow> ('s, 'e, unit) prog" where
  "assert_that b = (if b then ret () else panic)"

definition debug_assert :: "bool \<Rightarrow> bool \<Rightarrow> ('s, 'e, unit) prog" where
  "debug_assert dbg b = (if dbg then assert_that b else ret ())"

text \<open>\<^verbatim>\<open>expect\<close> and \<^verbatim>\<open>unwrap\<close> turn an error into a panic.\<close>

definition expect :: "('s, 'e, 'a) prog \<Rightarrow> ('s, 'e, 'a) prog" where
  "expect m s = (case m s of (Err e, s') \<Rightarrow> (Panic, s') | r \<Rightarrow> r)"

text \<open>
  The same where the function around it has errors of another type, and \<^verbatim>\<open>map_err\<close>, which is what
  the \<^verbatim>\<open>?\<close> operator does between error types.
\<close>

definition unwrap :: "('s, 'e, 'a) prog \<Rightarrow> ('s, 'f, 'a) prog" where
  "unwrap m s =
     (case m s of
        (Ok x, s') \<Rightarrow> (Ok x, s')
      | (Err e, s') \<Rightarrow> (Panic, s')
      | (Panic, s') \<Rightarrow> (Panic, s')
      | (Hang, s') \<Rightarrow> (Hang, s'))"

definition map_err :: "('e \<Rightarrow> 'f) \<Rightarrow> ('s, 'e, 'a) prog \<Rightarrow> ('s, 'f, 'a) prog" where
  "map_err h m s =
     (case m s of
        (Ok x, s') \<Rightarrow> (Ok x, s')
      | (Err e, s') \<Rightarrow> (Err (h e), s')
      | (Panic, s') \<Rightarrow> (Panic, s')
      | (Hang, s') \<Rightarrow> (Hang, s'))"

text \<open>
  Running a program on a part of the state: the part is read, the program runs on it, and the
  new part is put back on every outcome.
\<close>

definition zoom :: "('s \<Rightarrow> 't) \<Rightarrow> ('t \<Rightarrow> 's \<Rightarrow> 's) \<Rightarrow> ('t, 'e, 'a) prog \<Rightarrow> ('s, 'e, 'a) prog" where
  "zoom get put m s = (case m (get s) of (r, t) \<Rightarrow> (r, put t s))"

text \<open>Running a program on a local variable, whose final value is returned with the result.\<close>

definition with_local :: "('t, 'e, 'a) prog \<Rightarrow> 't \<Rightarrow> ('s, 'e, 'a \<times> 't) prog" where
  "with_local m t s =
     (case m t of
        (Ok x, t') \<Rightarrow> (Ok (x, t'), s)
      | (Err e, t') \<Rightarrow> (Err e, s)
      | (Panic, t') \<Rightarrow> (Panic, s)
      | (Hang, t') \<Rightarrow> (Hang, s))"

definition gets :: "('s \<Rightarrow> 'a) \<Rightarrow> ('s, 'e, 'a) prog" where
  "gets f s = (Ok (f s), s)"

definition modify :: "('s \<Rightarrow> 's) \<Rightarrow> ('s, 'e, unit) prog" where
  "modify f s = (Ok (), f s)"

text \<open>
  The \<^verbatim>\<open>while\<close> loop of a program: the condition is itself a program (it may read a device), the
  body a state change. The iteration stops when the condition answers \<open>False\<close> or fails;
  if it never does, the outcome is \<open>Hang\<close> and the state is the one the loop began in.
\<close>

definition while_prog ::
  "('s, 'e, bool) prog \<Rightarrow> ('s \<Rightarrow> 's) \<Rightarrow> ('s, 'e, unit) prog" where
  "while_prog c body s =
     (case while_option (\<lambda>(r, t). r = Ok True) (\<lambda>(r, t). c (body t)) (c s) of
        None \<Rightarrow> (Hang, s)
      | Some (Ok b, t) \<Rightarrow> (Ok (), t)
      | Some (Err e, t) \<Rightarrow> (Err e, t)
      | Some (Panic, t) \<Rightarrow> (Panic, t)
      | Some (Hang, t) \<Rightarrow> (Hang, t))"

text \<open>
  Arithmetic that overflows: builds with overflow checks (\<open>dbg\<close>) panic, the others wrap.
\<close>

definition add_ov :: "bool \<Rightarrow> 'n::len word \<Rightarrow> 'n word \<Rightarrow> ('s, 'e, 'n word) prog" where
  "add_ov dbg a b =
     (if dbg \<and> \<not> unat a + unat b < 2 ^ LENGTH('n) then panic else ret (a + b))"

definition sub_ov :: "bool \<Rightarrow> 'n::len word \<Rightarrow> 'n word \<Rightarrow> ('s, 'e, 'n word) prog" where
  "sub_ov dbg a b = (if dbg \<and> a < b then panic else ret (a - b))"

definition mul_ov :: "bool \<Rightarrow> 'n::len word \<Rightarrow> 'n word \<Rightarrow> ('s, 'e, 'n word) prog" where
  "mul_ov dbg a b =
     (if dbg \<and> \<not> unat a * unat b < 2 ^ LENGTH('n) then panic else ret (a * b))"

text \<open>
  \<open>keeps f m\<close>: the program leaves the part \<open>f\<close> of its state as it was, on every
  outcome.
\<close>

definition keeps :: "('s \<Rightarrow> 'x) \<Rightarrow> ('s, 'e, 'a) prog \<Rightarrow> bool" where
  "keeps f m \<longleftrightarrow> (\<forall>s. f (snd (m s)) = f s)"

section \<open>Rules for programs\<close>

named_theorems prog_simps \<open>evaluation of program combinators on a given state\<close>
named_theorems keeps_rules \<open>rules for invariants of programs\<close>

lemma ret_eq [prog_simps, simp]: "ret x s = (Ok x, s)"
  by (simp add: ret_def)

lemma throw_eq [prog_simps, simp]: "throw e s = (Err e, s)"
  by (simp add: throw_def)

lemma panic_eq [prog_simps, simp]: "panic s = (Panic, s)"
  by (simp add: panic_def)

lemma gets_eq [prog_simps, simp]: "gets f s = (Ok (f s), s)"
  by (simp add: gets_def)

lemma modify_eq [prog_simps, simp]: "modify f s = (Ok (), f s)"
  by (simp add: modify_def)

lemma assert_that_simps [prog_simps, simp]:
  "assert_that True = ret ()" "assert_that False = panic"
  by (simp_all add: assert_that_def)

lemma debug_assert_simps [prog_simps, simp]:
  "debug_assert False b = ret ()" "debug_assert True b = assert_that b"
  "debug_assert dbg True = ret ()"
  by (simp_all add: debug_assert_def)

lemma bind_modify: "bind (modify f) k s = k () (f s)"
  by (simp add: bind_def)

lemma bind_Ok: "m s = (Ok x, s') \<Longrightarrow> bind m f s = f x s'"
  by (simp add: bind_def)

lemma bind_Err: "m s = (Err e, s') \<Longrightarrow> bind m f s = (Err e, s')"
  by (simp add: bind_def)

lemma bind_ret [prog_simps, simp]: "bind (ret x) f = f x"
  by (rule ext) (simp add: bind_def)

lemma bind_throw [prog_simps, simp]: "bind (throw e) f = throw e"
  by (rule ext) (simp add: bind_def)

lemma bind_panic [prog_simps, simp]: "bind panic f = panic"
  by (rule ext) (simp add: bind_def)

lemma andthen_ret [prog_simps, simp]: "andthen (ret ()) n = n"
  by (simp add: andthen_def)

lemma andthen_panic [prog_simps, simp]: "andthen panic n = panic"
  by (simp add: andthen_def)

lemma bind_assoc: "bind (bind m f) g = bind m (\<lambda>x. bind (f x) g)"
  by (rule ext) (simp add: bind_def split: prod.splits outcome.splits)

lemma bind_Ok_iff:
  "bind m f s = (Ok y, t) \<longleftrightarrow> (\<exists>x s'. m s = (Ok x, s') \<and> f x s' = (Ok y, t))"
  by (auto simp: bind_def split: prod.splits outcome.splits)

lemma andthen_Ok_iff:
  "andthen m n s = (Ok y, t) \<longleftrightarrow> (\<exists>s'. m s = (Ok (), s') \<and> n s' = (Ok y, t))"
  by (simp add: andthen_def bind_Ok_iff)

lemma assert_that_Ok_iff [simp]: "assert_that b s = (Ok u, t) \<longleftrightarrow> b \<and> t = s"
  by (auto simp: assert_that_def)

lemma debug_assert_Ok_iff [simp]:
  "debug_assert dbg b s = (Ok u, t) \<longleftrightarrow> (dbg \<longrightarrow> b) \<and> t = s"
  by (auto simp: debug_assert_def)

lemma zoom_Ok_iff:
  "zoom get put m s = (Ok x, t) \<longleftrightarrow> (\<exists>p. m (get s) = (Ok x, p) \<and> t = put p s)"
  by (auto simp: zoom_def split: prod.splits)

lemma with_local_Ok_iff:
  "with_local m t s = (Ok (x, t'), s') \<longleftrightarrow> m t = (Ok x, t') \<and> s' = s"
  by (auto simp: with_local_def split: prod.splits outcome.splits)

lemma expect_Ok_iff [simp]: "expect m s = (Ok x, t) \<longleftrightarrow> m s = (Ok x, t)"
  by (auto simp: expect_def split: prod.splits outcome.splits)

lemma unwrap_Ok_iff [simp]: "unwrap m s = (Ok x, t) \<longleftrightarrow> m s = (Ok x, t)"
  by (auto simp: unwrap_def split: prod.splits outcome.splits)

lemma map_err_Ok_iff [simp]: "map_err h m s = (Ok x, t) \<longleftrightarrow> m s = (Ok x, t)"
  by (auto simp: map_err_def split: prod.splits outcome.splits)

lemma ov_Ok_iff:
  "add_ov d a b s = (Ok c, t) \<longleftrightarrow> (d \<longrightarrow> unat a + unat b < 2 ^ LENGTH('n)) \<and> c = a + b \<and> t = s"
  "mul_ov d a b s = (Ok c, t) \<longleftrightarrow> (d \<longrightarrow> unat a * unat b < 2 ^ LENGTH('n)) \<and> c = a * b \<and> t = s"
  for a b c :: "'n::len word"
  by (auto simp: add_ov_def mul_ov_def)

lemmas prog_Ok_iffs = bind_Ok_iff andthen_Ok_iff zoom_Ok_iff

section \<open>Parts of the state a program keeps\<close>

lemma keepsD: "keeps f m \<Longrightarrow> m s = (r, s') \<Longrightarrow> f s' = f s"
  unfolding keeps_def by (metis snd_conv)

lemma keepsI: "(\<And>s r s'. m s = (r, s') \<Longrightarrow> f s' = f s) \<Longrightarrow> keeps f m"
  unfolding keeps_def by (metis prod.collapse)

lemma keeps_pure [keeps_rules]:
  "keeps f (ret x)" "keeps f (throw e)" "keeps f panic" "keeps f (gets g)"
  by (simp_all add: keeps_def)

lemma keeps_assert [keeps_rules]: "keeps f (assert_that b)" "keeps f (debug_assert d b)"
  by (simp_all add: assert_that_def debug_assert_def keeps_rules)

lemma keeps_ov [keeps_rules]:
  "keeps f (add_ov d a b)" "keeps f (sub_ov d a b)" "keeps f (mul_ov d a b)"
  by (simp_all add: add_ov_def sub_ov_def mul_ov_def keeps_rules)

lemma keeps_with_local [keeps_rules]: "keeps f (with_local m t)"
  by (auto simp: keeps_def with_local_def split: prod.splits outcome.splits)

lemma keeps_if [keeps_rules]: "keeps f m \<Longrightarrow> keeps f n \<Longrightarrow> keeps f (if b then m else n)"
  by simp

lemma keeps_bind [keeps_rules]:
  assumes "keeps f m" and "\<And>x. keeps f (g x)"
  shows "keeps f (bind m g)"
  using assms by (auto simp: keeps_def bind_def split: prod.splits outcome.splits) (metis snd_conv)+

lemma keeps_andthen [keeps_rules]: "keeps f m \<Longrightarrow> keeps f n \<Longrightarrow> keeps f (andthen m n)"
  unfolding andthen_def by (rule keeps_bind)

lemma keeps_expect [keeps_rules]: "keeps f m \<Longrightarrow> keeps f (expect m)"
  unfolding keeps_def expect_def by (auto split: prod.splits outcome.splits) (metis snd_conv)+

section \<open>Loops whose condition only reads\<close>

lemma while_option_gets_step:
  fixes s :: 's
  shows "while_option (\<lambda>(r, t). r = Ok True) (\<lambda>(r, t). gets b (body t)) (gets b s) =
    (if b s
     then while_option (\<lambda>(r, t). r = Ok True) (\<lambda>(r, t). gets b (body t)) (gets b (body s))
     else Some (Ok False :: ('e, bool) outcome, s))"
  by (subst while_option_unfold) simp

lemma while_prog_gets_unfold:
  "b s \<Longrightarrow> while_prog (gets b) body (body s) = (Ok () :: ('e, unit) outcome, t) \<Longrightarrow>
   while_prog (gets b) body s = (Ok () :: ('e, unit) outcome, t)"
  unfolding while_prog_def
  by (subst while_option_gets_step) (auto split: option.splits prod.splits outcome.splits)

lemma while_prog_gets_Ok:
  assumes "\<forall>j < k. b ((body ^^ j) s)" and "\<not> b ((body ^^ k) s)"
  shows "while_prog (gets b) body s = (Ok () :: ('e, unit) outcome, (body ^^ k) s)"
  using assms
proof (induction k arbitrary: s)
  case 0
  then show ?case
    unfolding while_prog_def by (subst while_option_gets_step) simp
next
  case (Suc k)
  have later: "b ((body ^^ j) (body s))" if "j < k" for j
    using Suc.prems(1) that by (auto simp: funpow_swap1 dest: spec [of _ "Suc j"])
  have "while_prog (gets b) body (body s) =
      (Ok () :: ('e, unit) outcome, (body ^^ k) (body s))"
    using later Suc.prems(2) by (intro Suc.IH) (auto simp: funpow_swap1)
  moreover have "b s"
    using Suc.prems(1) by (auto dest: spec [of _ 0])
  ultimately show ?case
    by (simp only: funpow_Suc_right comp_apply while_prog_gets_unfold)
qed

lemma while_prog_stop: "c s = (Ok False, t) \<Longrightarrow> while_prog c body s = (Ok (), t)"
  unfolding while_prog_def by (subst while_option_unfold) simp

lemma while_prog_step:
  "c s = (Ok True, t) \<Longrightarrow> while_prog c body (body t) = (Ok (), u) \<Longrightarrow> while_prog c body s = (Ok (), u)"
  unfolding while_prog_def
  by (subst while_option_unfold) (auto split: option.splits prod.splits outcome.splits)

lemma while_prog_Hang:
  fixes s :: 's and c :: "('s, 'e, bool) prog"
  assumes start: "\<exists>t. c s = (Ok True, t) \<and> I t"
    and step: "\<And>t. I t \<Longrightarrow> \<exists>t'. c (body t) = (Ok True, t') \<and> I t'"
  shows "while_prog c body s = (Hang, s)"
proof -
  let ?w = "while_option (\<lambda>(r, t). r = Ok True) (\<lambda>(r, t). c (body t)) (c s)"
  have "?w = None"
  proof (rule ccontr)
    assume "?w \<noteq> None"
    then obtain x where x: "?w = Some x"
      by blast
    have "case x of (r, t) \<Rightarrow> r = Ok True \<and> I t"
      using x by (rule while_option_rule [rotated]) (use start step in \<open>force+\<close>)
    moreover have "\<not> (case x of (r, t) \<Rightarrow> r = Ok True)"
      by (rule while_option_stop [OF x])
    ultimately show False
      by (cases x) simp
  qed
  then show ?thesis
    by (simp add: while_prog_def)
qed

lemma while_prog_gets_Hang:
  fixes s :: 's
  assumes "\<forall>j. b ((body ^^ j) s)"
  shows "while_prog (gets b) body s = (Hang :: ('e, unit) outcome, s)"
proof (rule while_prog_Hang [where I = "\<lambda>t. \<forall>j. b ((body ^^ j) t)"])
  show "\<exists>t. gets b s = (Ok True, t) \<and> (\<forall>j. b ((body ^^ j) t))"
    using assms assms [rule_format, of 0] by simp
  show "\<exists>t'. gets b (body t) = (Ok True, t') \<and> (\<forall>j. b ((body ^^ j) t'))"
    if all: "\<forall>j. b ((body ^^ j) t)" for t
  proof -
    have "b ((body ^^ j) (body t))" for j
      using all [rule_format, of "Suc j"] by (simp add: funpow_swap1)
    from this [of 0] this show ?thesis
      by simp
  qed
qed

text \<open>A loop on a part of the state, embedded in the whole.\<close>

lemma while_prog_sim:
  assumes c: "\<And>t. c' (f t) = map_prod id f (c t)" and b: "\<And>t. body' (f t) = f (body t)"
  shows "while_prog c' body' (f t) = map_prod id f (while_prog c body t)"
proof -
  have "map_option (map_prod id f) (while_option (\<lambda>(r, t). r = Ok True) (\<lambda>(r, t). c (body t)) (c t)) =
      while_option (\<lambda>(r, t). r = Ok True) (\<lambda>(r, t). c' (body' t)) (map_prod id f (c t))"
    by (rule while_option_commute) (auto simp: c b split: prod.splits)
  from this [symmetric] show ?thesis
    unfolding while_prog_def c by (simp split: option.splits prod.splits outcome.splits)
qed

section \<open>Casts between widths\<close>

lemma unat_ucast_up:
  assumes "LENGTH('a::len) \<le> LENGTH('b::len)"
  shows "unat (ucast (x :: 'a word) :: 'b word) = unat x"
proof -
  have "unat x < 2 ^ LENGTH('b)"
    using assms unsigned_less [of x] by (meson one_le_numeral order_less_le_trans power_increasing)
  then show ?thesis
    by (simp add: unsigned_ucast_eq take_bit_nat_eq_self)
qed

lemma ucast_up_inject:
  assumes "LENGTH('a::len) \<le> LENGTH('b::len)"
  shows "(ucast (x :: 'a word) :: 'b word) = ucast y \<longleftrightarrow> x = y"
  using assms by (metis unat_ucast_up word_unat_eq_iff)

lemma ucast_u16_u32_inject [simp]: "(ucast (a::u16) :: u32) = ucast b \<longleftrightarrow> a = b"
  by (simp add: ucast_up_inject)

lemma ucast_u16_u32_u16 [simp]: "(ucast (ucast (a::u16) :: u32) :: u16) = a"
  by (rule bit_eqI) (simp add: bit_simps)

lemma unat_of_nat_small: "n < 2 ^ LENGTH('a::len) \<Longrightarrow> unat (of_nat n :: 'a word) = n"
  by (simp add: unat_of_nat)

lemma ceil_div_eq:
  assumes "0 < c" and "x mod c \<noteq> 0"
  shows "(x + (c - 1)) div c = (x + c) div (c::nat)"
proof -
  define q r where "q = x div c" and "r = x mod c"
  have x: "x = c * q + r" and r: "r < c" "0 < r"
    using assms by (simp_all add: q_def r_def)
  have "(x + (c - 1)) div c = Suc q"
    using x r by (intro div_nat_eqI) (simp_all add: algebra_simps)
  moreover have "(x + c) div c = Suc q"
    using assms(1) by (simp add: q_def div_add_self2)
  ultimately show ?thesis
    by simp
qed

end
