(* ===== verification/Hal.thy ===== *)
theory Hal
  imports VirtioPrelude
begin

text \<open>
  The vocabulary of the crate: page arithmetic (\<^verbatim>\<open>lib.rs\<close>), the error types (\<^verbatim>\<open>error.rs\<close>), the data
  a virtqueue shares with the device (the type declarations of \<^verbatim>\<open>queue.rs\<close>) and the traits the
  embedding system implements (\<^verbatim>\<open>hal.rs\<close>).

  The implementors of the traits \<^verbatim>\<open>VirtIoDeviceIo\<close> and \<^verbatim>\<open>Hal\<close>, and the device itself, are
  not part of the crate. They are the fields of the record \<open>platform\<close>, an argument of
  every definition that uses them, over an arbitrary type \<open>'d\<close> of device states. A
  \<open>world\<close> is what a program runs on: the device state, the memory the driver and the
  device share (indexed by physical address), and the log of the register accesses that
  succeeded, oldest first.
\<close>

section \<open>Pages (lib.rs)\<close>

definition PAGE_SIZE :: usize where
  "PAGE_SIZE = 4096"

definition pages :: "usize \<Rightarrow> usize" where
  "pages sz = (sz + PAGE_SIZE - 1) div PAGE_SIZE"

definition align_up :: "usize \<Rightarrow> usize" where
  "align_up sz = and (sz + PAGE_SIZE) (not (PAGE_SIZE - 1))"

section \<open>Errors (error.rs)\<close>

datatype mmio_error = BadMagic u32 | UnsupportedVersion u32 | ZeroDeviceId

datatype virtio_error =
    QueueFull
  | NotReady
  | WrongToken
  | AlreadyUsed
  | InvalidParam
  | DmaError
  | IoError
  | Unsupported
  | ConfigSpaceTooSmall
  | ConfigSpaceMissing
  | MmioError mmio_error

type_synonym 'a virtio_result = "virtio_error + 'a"

section \<open>Virtqueue memory (the data types of queue.rs)\<close>

record descriptor =
  d_addr :: u64
  d_len :: u32
  d_flags :: u16
  d_next :: u16

definition Descriptor_default :: descriptor where
  "Descriptor_default = \<lparr>d_addr = 0, d_len = 0, d_flags = 0, d_next = 0\<rparr>"

definition EMPTY :: u16 where "EMPTY = 0"
definition NEXT :: u16 where "NEXT = 1"
definition WRITE :: u16 where "WRITE = 2"
definition INDIRECT :: u16 where "INDIRECT = 4"

record avail_ring =
  a_flags :: u16
  a_idx :: u16
  a_ring :: "u16 list"
  used_event :: u16

record used_elem =
  ue_id :: u32
  ue_len :: u32

record used_ring =
  u_flags :: u16
  u_idx :: u16
  u_ring :: "used_elem list"
  avail_event :: u16

record queue_mut_ref =
  descriptor_table :: "descriptor list"
  the_avail_ring :: avail_ring
  the_used_ring :: used_ring

record queue_layout =
  descriptor_table_offset :: usize
  avail_ring_offset :: usize
  used_ring_offset :: usize

text \<open>
  The sizes \<^verbatim>\<open>repr(C)\<close> gives the three structures for a queue of \<open>n\<close> entries: a descriptor has
  8 + 4 + 2 + 2 bytes; the available ring two 16-bit fields, \<open>n\<close> 16-bit entries and a last
  16-bit field; the used ring two 16-bit fields, \<open>n\<close> entries of 8 bytes, a last 16-bit field
  and two bytes of padding to its alignment of 4.
\<close>

definition size_of_Descriptor :: usize where
  "size_of_Descriptor = 16"

definition size_of_AvailRing :: "nat \<Rightarrow> usize" where
  "size_of_AvailRing n = 2 + 2 + 2 * of_nat n + 2"

definition size_of_UsedRing :: "nat \<Rightarrow> usize" where
  "size_of_UsedRing n = 2 + 2 + 8 * of_nat n + 2 + 2"

definition QueueLayout_new :: "nat \<Rightarrow> queue_layout" where
  "QueueLayout_new SIZE =
     \<lparr>descriptor_table_offset = 0,
      avail_ring_offset = size_of_Descriptor * of_nat SIZE,
      used_ring_offset = align_up (size_of_Descriptor * of_nat SIZE + size_of_AvailRing SIZE)\<rparr>"

section \<open>The traits of the embedding system (hal.rs)\<close>

record 'd device_io =
  read_volatile_u32_at :: "usize \<Rightarrow> 'd \<Rightarrow> u32 virtio_result \<times> 'd"
  read_volatile_u8_at :: "usize \<Rightarrow> 'd \<Rightarrow> u8 virtio_result \<times> 'd"
  write_volatile_u32_at :: "usize \<Rightarrow> u32 \<Rightarrow> 'd \<Rightarrow> unit virtio_result \<times> 'd"
  write_volatile_u8_at :: "usize \<Rightarrow> u8 \<Rightarrow> 'd \<Rightarrow> unit virtio_result \<times> 'd"
  io_paddr :: usize
  io_vaddr :: usize

text \<open>
  A page is what \<^verbatim>\<open>DevicePage\<close> and \<^verbatim>\<open>QueuePage\<close> give access to: its addresses, the length of its
  byte slice, and the typed view of its contents at a given layout.
\<close>

record device_page =
  pg_paddr :: usize
  pg_vaddr :: usize
  pg_len :: usize

record queue_page = device_page +
  queue_ref_mut :: "queue_layout \<Rightarrow> queue_mut_ref"

record 'd hal =
  dma_alloc :: "usize \<Rightarrow> 'd \<Rightarrow> queue_page \<times> 'd"
  dma_alloc_buf :: "usize \<Rightarrow> 'd \<Rightarrow> device_page \<times> 'd"
  to_paddr :: "usize \<Rightarrow> usize"

type_synonym memory = "usize \<Rightarrow> u8"

text \<open>
  The field \<open>dma\<close> is the device's own activity on a queue between two looks the driver takes at
  it: from the queue's index, the shared queue memory and the shared memory, the new used
  ring and the new memory. The device never writes the descriptor table or the available
  ring. \<open>debug\<close> says whether the build has debug assertions and overflow checks.
\<close>

record 'd platform =
  io :: "'d device_io"
  hal :: "'d hal"
  dma :: "u16 \<Rightarrow> queue_mut_ref \<Rightarrow> memory \<Rightarrow> 'd \<Rightarrow> used_ring \<times> memory \<times> 'd"
  debug :: bool

datatype io_event = R32 usize u32 | R8 usize u8 | W32 usize u32 | W8 usize u8

record 'd world =
  dev :: 'd
  mem :: memory
  trace :: "io_event list"

type_synonym ('d, 'a) wprog = "('d world, virtio_error, 'a) prog"

definition io_read_u32 :: "'d platform \<Rightarrow> usize \<Rightarrow> ('d, u32) wprog" where
  "io_read_u32 P off w =
     (case read_volatile_u32_at (io P) off (dev w) of
        (Inl e, d) \<Rightarrow> (Err e, w\<lparr>dev := d\<rparr>)
      | (Inr v, d) \<Rightarrow> (Ok v, w\<lparr>dev := d, trace := trace w @ [R32 off v]\<rparr>))"

definition io_read_u8 :: "'d platform \<Rightarrow> usize \<Rightarrow> ('d, u8) wprog" where
  "io_read_u8 P off w =
     (case read_volatile_u8_at (io P) off (dev w) of
        (Inl e, d) \<Rightarrow> (Err e, w\<lparr>dev := d\<rparr>)
      | (Inr v, d) \<Rightarrow> (Ok v, w\<lparr>dev := d, trace := trace w @ [R8 off v]\<rparr>))"

definition io_write_u32 :: "'d platform \<Rightarrow> usize \<Rightarrow> u32 \<Rightarrow> ('d, unit) wprog" where
  "io_write_u32 P off v w =
     (case write_volatile_u32_at (io P) off v (dev w) of
        (Inl e, d) \<Rightarrow> (Err e, w\<lparr>dev := d\<rparr>)
      | (Inr _, d) \<Rightarrow> (Ok (), w\<lparr>dev := d, trace := trace w @ [W32 off v]\<rparr>))"

definition io_write_u8 :: "'d platform \<Rightarrow> usize \<Rightarrow> u8 \<Rightarrow> ('d, unit) wprog" where
  "io_write_u8 P off v w =
     (case write_volatile_u8_at (io P) off v (dev w) of
        (Inl e, d) \<Rightarrow> (Err e, w\<lparr>dev := d\<rparr>)
      | (Inr _, d) \<Rightarrow> (Ok (), w\<lparr>dev := d, trace := trace w @ [W8 off v]\<rparr>))"

definition hal_dma_alloc :: "'d platform \<Rightarrow> usize \<Rightarrow> ('d, queue_page) wprog" where
  "hal_dma_alloc P n w =
     (case dma_alloc (hal P) n (dev w) of (p, d) \<Rightarrow> (Ok p, w\<lparr>dev := d\<rparr>))"

definition hal_dma_alloc_buf :: "'d platform \<Rightarrow> usize \<Rightarrow> ('d, device_page) wprog" where
  "hal_dma_alloc_buf P n w =
     (case dma_alloc_buf (hal P) n (dev w) of (p, d) \<Rightarrow> (Ok p, w\<lparr>dev := d\<rparr>))"

text \<open>\<^verbatim>\<open>Descriptor::new\<close> translates the buffer's address; the link field is filled in by the queue.\<close>

definition Descriptor_new :: "'d platform \<Rightarrow> usize \<Rightarrow> u32 \<Rightarrow> u16 \<Rightarrow> descriptor" where
  "Descriptor_new P vaddr len flags =
     \<lparr>d_addr = to_paddr (hal P) vaddr, d_len = len, d_flags = flags, d_next = 0\<rparr>"

text \<open>Reads and writes of the driver's own objects, byte by byte at a virtual address.\<close>

definition load_bytes :: "'d platform \<Rightarrow> usize \<Rightarrow> nat \<Rightarrow> memory \<Rightarrow> u8 list" where
  "load_bytes P va n m = map (\<lambda>i. m (to_paddr (hal P) (va + of_nat i))) [0..<n]"

fun store_bytes :: "'d platform \<Rightarrow> usize \<Rightarrow> u8 list \<Rightarrow> memory \<Rightarrow> memory" where
  "store_bytes P va [] m = m"
| "store_bytes P va (b # bs) m = store_bytes P (va + 1) bs (m(to_paddr (hal P) va := b))"

section \<open>What a program does to the register log\<close>

text \<open>
  \<open>emits S m\<close>: whatever the outcome, \<open>m\<close> leaves the shared memory alone and appends
  to the log only accesses that satisfy \<open>S\<close>.
\<close>

definition emits :: "(io_event \<Rightarrow> bool) \<Rightarrow> ('d, 'a) wprog \<Rightarrow> bool" where
  "emits S m \<longleftrightarrow>
     (\<forall>w. \<exists>evs. trace (snd (m w)) = trace w @ evs \<and> list_all S evs \<and> mem (snd (m w)) = mem w)"

named_theorems emits_rules \<open>rules that bound the register accesses of a program\<close>

lemma emitsI:
  assumes "\<And>w. \<exists>evs. trace (snd (m w)) = trace w @ evs \<and> list_all S evs \<and> mem (snd (m w)) = mem w"
  shows "emits S m"
  using assms by (simp add: emits_def)

lemma emitsE:
  assumes "emits S m" and "m w = (r, w')"
  obtains evs where "trace w' = trace w @ evs" and "list_all S evs" and "mem w' = mem w"
  using assms unfolding emits_def by (metis snd_conv)

lemma emits_mono: "emits S m \<Longrightarrow> (\<And>e. S e \<Longrightarrow> S' e) \<Longrightarrow> emits S' m"
  unfolding emits_def by (meson list_all_iff)

lemma emits_pure [emits_rules]:
  "emits S (ret x)" "emits S (throw e)" "emits S panic" "emits S (gets f)"
  by (auto simp: emits_def intro: exI [of _ "[]"])

lemma emits_assert [emits_rules]: "emits S (assert_that b)" "emits S (debug_assert d b)"
  by (auto simp: assert_that_def debug_assert_def emits_rules)

lemma emits_if [emits_rules]: "emits S m \<Longrightarrow> emits S n \<Longrightarrow> emits S (if b then m else n)"
  by simp

lemma emits_bind [emits_rules]:
  assumes m: "emits S m" and f: "\<And>x. emits S (f x)"
  shows "emits S (bind m f)"
proof (rule emitsI)
  fix w
  obtain r w1 where r: "m w = (r, w1)"
    by (cases "m w")
  obtain evs where evs: "trace w1 = trace w @ evs" "list_all S evs" "mem w1 = mem w"
    using m r by (rule emitsE)
  show "\<exists>evs. trace (snd (bind m f w)) = trace w @ evs \<and> list_all S evs \<and>
      mem (snd (bind m f w)) = mem w"
  proof (cases r)
    case (Ok x)
    obtain r2 w2 where r2: "f x w1 = (r2, w2)"
      by (cases "f x w1")
    obtain evs2 where "trace w2 = trace w1 @ evs2" "list_all S evs2" "mem w2 = mem w1"
      using f r2 by (rule emitsE)
    with evs r Ok r2 show ?thesis
      by (intro exI [of _ "evs @ evs2"]) (simp add: bind_def)
  qed (use evs r in \<open>auto simp: bind_def\<close>)
qed

lemma emits_andthen [emits_rules]: "emits S m \<Longrightarrow> emits S n \<Longrightarrow> emits S (andthen m n)"
  unfolding andthen_def by (rule emits_bind)

lemma emits_expect [emits_rules]: "emits S m \<Longrightarrow> emits S (expect m)"
  unfolding emits_def expect_def
  by (auto split: prod.splits outcome.splits) (metis snd_conv)+

lemma emits_while [emits_rules]:
  fixes c :: "('d, bool) wprog"
  assumes "emits S c"
  shows "emits S (while_prog c (\<lambda>t. t))"
proof (rule emitsI)
  fix w :: "'d world"
  define I where
    "I = (\<lambda>(r :: (virtio_error, bool) outcome, t :: 'd world). \<exists>evs. trace t = trace w @ evs \<and>
        list_all S evs \<and> mem t = mem w)"
  have first: "I (c w)"
    using assms by (cases "c w") (auto simp: I_def elim: emitsE)
  have step: "I (c t)" if I: "I (r, t)" for r t
  proof -
    obtain evs where evs: "trace t = trace w @ evs" "list_all S evs" "mem t = mem w"
      using I by (auto simp: I_def)
    obtain r' t' where r': "c t = (r', t')"
      by (cases "c t")
    obtain evs' where "trace t' = trace t @ evs'" "list_all S evs'" "mem t' = mem t"
      using assms r' by (rule emitsE)
    with evs r' show ?thesis
      by (auto simp: I_def intro!: exI [of _ "evs @ evs'"])
  qed
  have inv: "I x" if "while_option (\<lambda>(r, t). r = Ok True) (\<lambda>(r, t). c t) (c w) = Some x" for x
    using that first by (rule while_option_rule [rotated]) (auto intro: step)
  show "\<exists>evs. trace (snd (while_prog c (\<lambda>t. t) w)) = trace w @ evs \<and> list_all S evs \<and>
      mem (snd (while_prog c (\<lambda>t. t) w)) = mem w"
    using inv
    by (auto simp: while_prog_def I_def split: option.splits prod.splits outcome.splits
        intro: exI [of _ "[]"])
qed

lemma emits_whileE:
  assumes "emits S c" and "while_prog c (\<lambda>t. t) w = (r, w')"
  obtains evs where "trace w' = trace w @ evs" and "list_all S evs"
  using emits_while [OF assms(1)] assms(2) by (rule emitsE) (rule that)

lemma emits_io [emits_rules]:
  "(\<And>v. S (R32 off v)) \<Longrightarrow> emits S (io_read_u32 P off)"
  "(\<And>v. S (R8 off v)) \<Longrightarrow> emits S (io_read_u8 P off)"
  "S (W32 off x) \<Longrightarrow> emits S (io_write_u32 P off x)"
  "S (W8 off y) \<Longrightarrow> emits S (io_write_u8 P off y)"
  by (auto simp: emits_def io_read_u32_def io_read_u8_def io_write_u32_def io_write_u8_def
      split: prod.splits sum.splits intro: exI [of _ "[]"])

lemma emits_hal [emits_rules]:
  "emits S (hal_dma_alloc P n)" "emits S (hal_dma_alloc_buf P n)"
  by (auto simp: emits_def hal_dma_alloc_def hal_dma_alloc_buf_def
      split: prod.splits intro: exI [of _ "[]"])

text \<open>A successful access is one entry of the log.\<close>

lemma io_write_u32_Ok:
  "io_write_u32 P off v w = (Ok u, w') \<Longrightarrow> trace w' = trace w @ [W32 off v]"
  by (auto simp: io_write_u32_def split: prod.splits sum.splits)

lemma io_read_u32_Ok:
  "io_read_u32 P off w = (Ok v, w') \<Longrightarrow> trace w' = trace w @ [R32 off v]"
  by (auto simp: io_read_u32_def split: prod.splits sum.splits)

lemma io_read_u8_Ok:
  "io_read_u8 P off w = (Ok v, w') \<Longrightarrow> trace w' = trace w @ [R8 off v]"
  by (auto simp: io_read_u8_def split: prod.splits sum.splits)

lemma io_write_u8_Ok:
  "io_write_u8 P off v w = (Ok u, w') \<Longrightarrow> trace w' = trace w @ [W8 off v]"
  by (auto simp: io_write_u8_def split: prod.splits sum.splits)

lemma hal_dma_alloc_Ok:
  "hal_dma_alloc P n w = (Ok p, w') \<Longrightarrow> trace w' = trace w \<and> mem w' = mem w"
  by (auto simp: hal_dma_alloc_def split: prod.splits)

lemmas io_Ok = io_write_u32_Ok io_read_u32_Ok io_read_u8_Ok io_write_u8_Ok

section \<open>Page arithmetic is right where the crate uses it\<close>

text \<open>Clearing the low twelve bits rounds down to a page.\<close>

lemma and_page_mask: "and (x::usize) (- 4096) = push_bit 12 (drop_bit 12 x)"
proof -
  have "(- 4096 :: usize) = not (mask 12)"
    by (simp add: mask_eq_exp_minus_1 not_eq_complement)
  moreover have "and x (not (mask 12)) = push_bit 12 (drop_bit 12 x)"
    by (rule bit_eqI) (auto simp: bit_simps)
  ultimately show ?thesis
    by simp
qed

lemma unat_align_up:
  assumes "unat sz + 4096 < 2 ^ 64"
  shows "unat (align_up sz) = (unat sz + 4096) div 4096 * 4096"
proof -
  have "align_up sz = (sz + 4096) div 4096 * 4096"
    by (simp add: align_up_def PAGE_SIZE_def and_page_mask drop_bit_eq_div push_bit_eq_mult)
  moreover have sum: "unat (sz + 4096) = unat sz + 4096"
    using assms by (subst unat_add_lem [THEN iffD1]) simp_all
  moreover have "(unat sz + 4096) div 4096 * 4096 < 2 ^ 64"
    using assms by (meson div_times_less_eq_dividend order_le_less_trans)
  ultimately show ?thesis
    by (subst (asm) (1) mult.commute) (simp add: unat_word_ariths(2) unat_div)
qed

lemma unat_pages:
  assumes "unat sz + 4095 < 2 ^ 64"
  shows "unat (pages sz) = (unat sz + 4095) div 4096"
proof -
  have "pages sz = (sz + 4095) div 4096"
    by (simp add: pages_def PAGE_SIZE_def add.commute)
  moreover have "unat (sz + 4095) = unat sz + 4095"
    using assms by (subst unat_add_lem [THEN iffD1]) simp_all
  ultimately show ?thesis
    by (simp add: unat_div)
qed

end
