(* ===== verification/Volatile.thy ===== *)
theory Volatile
  imports Hal
begin

text \<open>
  The typed registers of \<^verbatim>\<open>volatile.rs\<close>. A register is a constant offset into the I/O region
  and a value type; each implementation of \<^verbatim>\<open>ReadVolatile\<close> and \<^verbatim>\<open>WriteVolatile\<close> is a program of
  the region. A 16-bit register is read with a 32-bit access at its own offset whose upper
  half is dropped, and a 64-bit register is written as two 32-bit halves, low half first.
\<close>

section \<open>Definitions\<close>

fun read_array_loop :: "'d platform \<Rightarrow> usize \<Rightarrow> nat list \<Rightarrow> u8 list \<Rightarrow> ('d, u8 list) wprog" where
  "read_array_loop P off [] res = ret res"
| "read_array_loop P off (i # is) res =
     bind (io_read_u8 P (off + of_nat i)) (\<lambda>b. read_array_loop P off is (res[i := b]))"

definition ReadOnly_read_array :: "'d platform \<Rightarrow> usize \<Rightarrow> nat \<Rightarrow> ('d, u8 list) wprog" where
  "ReadOnly_read_array P off SIZE = read_array_loop P off [0..<SIZE] (replicate SIZE 0)"

definition ReadOnly_read_u32 :: "'d platform \<Rightarrow> usize \<Rightarrow> ('d, u32) wprog" where
  "ReadOnly_read_u32 P off = io_read_u32 P off"

definition ReadOnly_read_u16 :: "'d platform \<Rightarrow> usize \<Rightarrow> ('d, u16) wprog" where
  "ReadOnly_read_u16 P off = bind (io_read_u32 P off) (\<lambda>x. ret (ucast x))"

definition ReadOnly_read_u8 :: "'d platform \<Rightarrow> usize \<Rightarrow> ('d, u8) wprog" where
  "ReadOnly_read_u8 P off = io_read_u8 P off"

definition WriteOnly_write_u64 :: "'d platform \<Rightarrow> usize \<Rightarrow> u64 \<Rightarrow> ('d, unit) wprog" where
  "WriteOnly_write_u64 P off data =
     andthen (io_write_u32 P off (ucast data))
             (io_write_u32 P (off + 4) (ucast (drop_bit 32 data)))"

definition WriteOnly_write_u32 :: "'d platform \<Rightarrow> usize \<Rightarrow> u32 \<Rightarrow> ('d, unit) wprog" where
  "WriteOnly_write_u32 P off data = io_write_u32 P off data"

definition WriteOnly_write_u8 :: "'d platform \<Rightarrow> usize \<Rightarrow> u8 \<Rightarrow> ('d, unit) wprog" where
  "WriteOnly_write_u8 P off data = io_write_u8 P off data"

definition ReadWrite_read_u32 :: "'d platform \<Rightarrow> usize \<Rightarrow> ('d, u32) wprog" where
  "ReadWrite_read_u32 P off = io_read_u32 P off"

definition ReadWrite_read_u8 :: "'d platform \<Rightarrow> usize \<Rightarrow> ('d, u8) wprog" where
  "ReadWrite_read_u8 P off = io_read_u8 P off"

definition ReadWrite_write_u32 :: "'d platform \<Rightarrow> usize \<Rightarrow> u32 \<Rightarrow> ('d, unit) wprog" where
  "ReadWrite_write_u32 P off data = io_write_u32 P off data"

definition ReadWrite_write_u8 :: "'d platform \<Rightarrow> usize \<Rightarrow> u8 \<Rightarrow> ('d, unit) wprog" where
  "ReadWrite_write_u8 P off data = io_write_u8 P off data"

lemmas volatile_defs =
  ReadOnly_read_u32_def ReadOnly_read_u16_def ReadOnly_read_u8_def
  WriteOnly_write_u64_def WriteOnly_write_u32_def WriteOnly_write_u8_def
  ReadWrite_read_u32_def ReadWrite_read_u8_def ReadWrite_write_u32_def ReadWrite_write_u8_def

section \<open>Reading a byte array\<close>

lemma emits_read_array_loop:
  "(\<And>i v. i \<in> set is \<Longrightarrow> S (R8 (off + of_nat i) v)) \<Longrightarrow> emits S (read_array_loop P off is res)"
  by (induction "is" arbitrary: res) (auto intro!: emits_rules)

lemma emits_read_array [emits_rules]:
  "(\<And>i v. i < n \<Longrightarrow> S (R8 (off + of_nat i) v)) \<Longrightarrow> emits S (ReadOnly_read_array P off n)"
  by (auto simp: ReadOnly_read_array_def intro!: emits_read_array_loop)

text \<open>
  The loop fills the positions it has not yet visited, in order: the log grows by one byte
  access per element, and the values read are the elements of the result.
\<close>

lemma read_array_loop_Ok:
  assumes "read_array_loop P off [k..<k + m] res w = (Ok bs, w')" and "length res = k + m"
  shows "length bs = k + m \<and> take k bs = take k res \<and>
    trace w' = trace w @ map (\<lambda>i. R8 (off + of_nat i) (bs ! i)) [k..<k + m]"
  using assms
proof (induction m arbitrary: k res w)
  case 0
  then show ?case by simp
next
  case (Suc m)
  have upt: "[k..<k + Suc m] = k # [Suc k..<Suc k + m]"
    by (simp add: upt_conv_Cons)
  obtain b w1 where b: "io_read_u8 P (off + of_nat k) w = (Ok b, w1)"
    and rest: "read_array_loop P off [Suc k..<Suc k + m] (res[k := b]) w1 = (Ok bs, w')"
    using Suc.prems(1) unfolding upt by (auto simp: bind_Ok_iff)
  have IH: "length bs = Suc k + m \<and> take (Suc k) bs = take (Suc k) (res[k := b]) \<and>
      trace w' = trace w1 @ map (\<lambda>i. R8 (off + of_nat i) (bs ! i)) [Suc k..<Suc k + m]"
    using Suc.IH [OF rest] Suc.prems(2) by simp
  have "take (Suc k) bs ! k = take (Suc k) (res[k := b]) ! k"
    using IH by simp
  then have "bs ! k = b"
    using Suc.prems(2) by simp
  moreover have "take k (take (Suc k) bs) = take k (take (Suc k) (res[k := b]))"
    using IH by simp
  then have "take k bs = take k res"
    by (simp add: min_def)
  ultimately show ?case
    using IH io_read_u8_Ok [OF b] unfolding upt by simp
qed

lemma ReadOnly_read_array_Ok:
  assumes "ReadOnly_read_array P off n w = (Ok bs, w')"
  shows "length bs = n"
    and "trace w' = trace w @ map (\<lambda>i. R8 (off + of_nat i) (bs ! i)) [0..<n]"
  using read_array_loop_Ok [of P off 0 n "replicate n 0" w bs w'] assms
  by (simp_all add: ReadOnly_read_array_def)

end
