(* ===== verification/Transport.thy ===== *)
theory Transport
  imports Volatile
begin

text \<open>
  The trait \<^verbatim>\<open>Transport\<close> of \<^verbatim>\<open>transport/mod.rs\<close>. An implementation of the trait is a record of its
  required methods, each a program of the world, and the two provided methods
  (\<^verbatim>\<open>begin_init\<close>, \<^verbatim>\<open>finish_init\<close>) are functions of that record, as a generic Rust
  function is of its dictionary. The locale \<open>transport_contract\<close> states what the
  drivers rely on: the effect each method has on the configuration of the device as the
  device sees it. It is interpreted by the MMIO transport.
\<close>

section \<open>Status bits and device types\<close>

text \<open>A value of a \<^verbatim>\<open>bitflags!\<close> type is its bits; \<^verbatim>\<open>from_bits_truncate\<close> drops the unknown ones.\<close>

definition from_bits_truncate :: "'n::len word \<Rightarrow> 'n word \<Rightarrow> 'n word" where
  "from_bits_truncate all_bits bits = and bits all_bits"

definition contains :: "'n::len word \<Rightarrow> 'n word \<Rightarrow> bool" where
  "contains flags f \<longleftrightarrow> and flags f = f"

definition ACKNOWLEDGE :: u32 where "ACKNOWLEDGE = 1"
definition DRIVER :: u32 where "DRIVER = 2"
definition FAILED :: u32 where "FAILED = 128"
definition FEATURES_OK :: u32 where "FEATURES_OK = 8"
definition DRIVER_OK :: u32 where "DRIVER_OK = 4"
definition DEVICE_NEEDS_RESET :: u32 where "DEVICE_NEEDS_RESET = 64"

definition DeviceStatus_all :: u32 where
  "DeviceStatus_all =
     or ACKNOWLEDGE (or DRIVER (or FAILED (or FEATURES_OK (or DRIVER_OK DEVICE_NEEDS_RESET))))"

datatype device_type =
    Invalid | Network | Block | Console | EntropySource | MemoryBallooning | IoMemory | Rpmsg
  | ScsiHost | NineP | Mac80211 | RprocSerial | VirtioCAIF | MemoryBalloon | GPU | Timer | Input
  | Socket | Crypto | SignalDistributionModule | Pstore | IOMMU | Memory

fun DeviceType_discriminant :: "device_type \<Rightarrow> u8" where
  "DeviceType_discriminant Invalid = 0"
| "DeviceType_discriminant Network = 1"
| "DeviceType_discriminant Block = 2"
| "DeviceType_discriminant Console = 3"
| "DeviceType_discriminant EntropySource = 4"
| "DeviceType_discriminant MemoryBallooning = 5"
| "DeviceType_discriminant IoMemory = 6"
| "DeviceType_discriminant Rpmsg = 7"
| "DeviceType_discriminant ScsiHost = 8"
| "DeviceType_discriminant NineP = 9"
| "DeviceType_discriminant Mac80211 = 10"
| "DeviceType_discriminant RprocSerial = 11"
| "DeviceType_discriminant VirtioCAIF = 12"
| "DeviceType_discriminant MemoryBalloon = 13"
| "DeviceType_discriminant GPU = 16"
| "DeviceType_discriminant Timer = 17"
| "DeviceType_discriminant Input = 18"
| "DeviceType_discriminant Socket = 19"
| "DeviceType_discriminant Crypto = 20"
| "DeviceType_discriminant SignalDistributionModule = 21"
| "DeviceType_discriminant Pstore = 22"
| "DeviceType_discriminant IOMMU = 23"
| "DeviceType_discriminant Memory = 24"

definition DeviceType_from_u32 :: "u32 \<Rightarrow> device_type" where
  "DeviceType_from_u32 n =
     (if n = 1 then Network
      else if n = 2 then Block
      else if n = 3 then Console
      else if n = 4 then EntropySource
      else if n = 5 then MemoryBalloon
      else if n = 6 then IoMemory
      else if n = 7 then Rpmsg
      else if n = 8 then ScsiHost
      else if n = 9 then NineP
      else if n = 10 then Mac80211
      else if n = 11 then RprocSerial
      else if n = 12 then VirtioCAIF
      else if n = 13 then MemoryBalloon
      else if n = 16 then GPU
      else if n = 17 then Timer
      else if n = 18 then Input
      else if n = 19 then Socket
      else if n = 20 then Crypto
      else if n = 21 then SignalDistributionModule
      else if n = 22 then Pstore
      else if n = 23 then IOMMU
      else if n = 24 then Memory
      else Invalid)"

definition DeviceType_from_u16 :: "u16 \<Rightarrow> device_type" where
  "DeviceType_from_u16 n = DeviceType_from_u32 (ucast n)"

definition DeviceType_from_u8 :: "u8 \<Rightarrow> device_type" where
  "DeviceType_from_u8 n = DeviceType_from_u32 (ucast n)"

section \<open>The trait\<close>

record 'd transport =
  t_device_type :: "('d, device_type) wprog"
  t_read_device_features :: "('d, u64) wprog"
  t_write_driver_features :: "u64 \<Rightarrow> ('d, unit) wprog"
  t_max_queue_size :: "u16 \<Rightarrow> ('d, u32) wprog"
  t_notify :: "u16 \<Rightarrow> ('d, unit) wprog"
  t_get_status :: "('d, u32) wprog"
  t_set_status :: "u32 \<Rightarrow> ('d, unit) wprog"
  t_set_guest_page_size :: "u32 \<Rightarrow> ('d, unit) wprog"
  t_requires_legacy_layout :: bool
  t_queue_set :: "u16 \<Rightarrow> u32 \<Rightarrow> usize \<Rightarrow> usize \<Rightarrow> usize \<Rightarrow> ('d, unit) wprog"
  t_queue_unset :: "u16 \<Rightarrow> ('d, unit) wprog"
  t_queue_used :: "u16 \<Rightarrow> ('d, bool) wprog"
  t_ack_interrupt :: "('d, bool) wprog"
  t_drop :: "('d, unit) wprog"

text \<open>
  The field \<open>t_drop\<close> is the destructor of the implementing type. A constructor of a driver
  owns the transport it is given: when it returns an error, the transport is dropped.
\<close>

definition owning :: "'d transport \<Rightarrow> ('d, 'a) wprog \<Rightarrow> ('d, 'a) wprog" where
  "owning T m w =
     (case m w of (Err e, w') \<Rightarrow> andthen (t_drop T) (throw e) w' | r \<Rightarrow> r)"

text \<open>
  \<^verbatim>\<open>begin_init\<close> is generic in the flags type of the driver; \<open>all_bits\<close> is the union of that
  type's flags, which \<^verbatim>\<open>from_bits_truncate\<close> keeps.
\<close>

definition begin_init :: "'d transport \<Rightarrow> u64 \<Rightarrow> u64 \<Rightarrow> ('d, u64) wprog" where
  "begin_init T all_bits supported_features =
     andthen (t_set_status T 0)
     (andthen (t_set_status T (or ACKNOWLEDGE DRIVER))
     (bind (t_read_device_features T) (\<lambda>bits.
        let device_features = from_bits_truncate all_bits bits;
            negotiated_features = and device_features supported_features
        in andthen (t_write_driver_features T negotiated_features)
           (andthen (t_set_status T (or (or ACKNOWLEDGE DRIVER) FEATURES_OK))
           (andthen (t_set_guest_page_size T (ucast PAGE_SIZE))
           (ret negotiated_features))))))"

definition finish_init :: "'d transport \<Rightarrow> ('d, unit) wprog" where
  "finish_init T =
     t_set_status T (or (or (or ACKNOWLEDGE DRIVER) FEATURES_OK) DRIVER_OK)"

section \<open>The configuration the device sees\<close>

record queue_cfg =
  qc_size :: u32
  qc_desc :: usize
  qc_driver :: usize
  qc_device :: usize

record transport_view =
  v_status :: u32
  v_features :: u64
  v_queues :: "u16 \<Rightarrow> queue_cfg option"
  v_notified :: "u16 list"

text \<open>Writing status 0 resets the device: no feature is active and no queue is configured.\<close>

definition view_set_status :: "u32 \<Rightarrow> transport_view \<Rightarrow> transport_view" where
  "view_set_status s v =
     (if s = 0 then v\<lparr>v_status := 0, v_features := 0, v_queues := (\<lambda>_. None)\<rparr>
      else v\<lparr>v_status := s\<rparr>)"

fun is_power_of_two :: "nat \<Rightarrow> bool" where
  "is_power_of_two n =
     (if n \<le> 1 then n = 1 else even n \<and> is_power_of_two (n div 2))"

declare is_power_of_two.simps [simp del]

text \<open>
  Where a queue may be placed: at a page boundary whose page number is not zero and fits in
  32 bits, with a size the specification allows.
\<close>

definition queue_place_ok :: "u32 \<Rightarrow> usize \<Rightarrow> bool" where
  "queue_place_ok sz desc \<longleftrightarrow>
     is_power_of_two (unat sz) \<and> unat sz \<le> 32768 \<and>
     0 < unat desc \<and> unat desc < 2 ^ 44 \<and> unat desc mod 4096 = 0"

text \<open>
  An access that is no command to the transport: a read of any register, or a write to the
  configuration space of the device, which begins at offset 0x100.
\<close>

fun config_access :: "io_event \<Rightarrow> bool" where
  "config_access (R32 off v) = True"
| "config_access (R8 off v) = True"
| "config_access (W32 off v) = (0x100 \<le> off)"
| "config_access (W8 off v) = (0x100 \<le> off)"

text \<open>
  The laws of a transport. \<open>ready\<close> says that queues can be configured. The first group
  gives the effect of the methods that configure the device when they succeed, the second
  says that no other method, no failed write of the status and no access to the configuration
  space changes what the device sees; the last that no method touches the shared memory.
\<close>

locale transport_contract =
  fixes T :: "'d transport"
    and view :: "'d world \<Rightarrow> transport_view"
    and ready :: "'d world \<Rightarrow> bool"
  assumes set_status_Ok:
      "t_set_status T s w = (Ok u, w') \<Longrightarrow> view w' = view_set_status s (view w)"
    and set_status_ready:
      "t_set_status T s w = (Ok u, w') \<Longrightarrow> s \<noteq> 0 \<Longrightarrow> ready w \<Longrightarrow> ready w'"
    and set_status_fail:
      "t_set_status T s w = (r, w') \<Longrightarrow> (\<forall>u. r \<noteq> Ok u) \<Longrightarrow> view w' = view w"
    and write_features_Ok:
      "t_write_driver_features T f w = (Ok u, w') \<Longrightarrow> view w' = (view w)\<lparr>v_features := f\<rparr>"
    and page_size_Ok:
      "t_set_guest_page_size T 4096 w = (Ok u, w') \<Longrightarrow> \<forall>q. v_queues (view w) q = None \<Longrightarrow>
       view w' = view w \<and> ready w'"
    and queue_set_Ok:
      "t_queue_set T q sz desc drv dvc w = (Ok u, w') \<Longrightarrow> ready w \<Longrightarrow> queue_place_ok sz desc \<Longrightarrow>
       view w' = (view w)\<lparr>v_queues := (v_queues (view w))(q \<mapsto>
         \<lparr>qc_size = sz, qc_desc = desc, qc_driver = drv, qc_device = dvc\<rparr>)\<rparr> \<and> ready w'"
    and queue_unset_Ok:
      "t_queue_unset T q w = (Ok u, w') \<Longrightarrow>
       view w' = (view w)\<lparr>v_queues := (v_queues (view w))(q := None)\<rparr>"
    and drop_Ok:
      "t_drop T w = (Ok u, w') \<Longrightarrow> view w' = view_set_status 0 (view w)"
    and drop_no_Err: "t_drop T w \<noteq> (Err e, w')"
    and notify_Ok:
      "t_notify T q w = (Ok u, w') \<Longrightarrow>
       view w' = (view w)\<lparr>v_notified := v_notified (view w) @ [q]\<rparr> \<and> (ready w' \<longleftrightarrow> ready w)"
    and read_features_view:
      "t_read_device_features T w = (r1, w') \<Longrightarrow> view w' = view w \<and> (ready w' \<longleftrightarrow> ready w)"
    and max_size_view:
      "t_max_queue_size T q w = (r2, w') \<Longrightarrow> view w' = view w \<and> (ready w' \<longleftrightarrow> ready w)"
    and queue_used_view:
      "t_queue_used T q w = (r3, w') \<Longrightarrow> view w' = view w \<and> (ready w' \<longleftrightarrow> ready w)"
    and ack_view:
      "t_ack_interrupt T w = (r3, w') \<Longrightarrow> view w' = view w \<and> (ready w' \<longleftrightarrow> ready w)"
    and status_frame:
      "t_write_driver_features T f w = (r4, w') \<Longrightarrow> v_status (view w') = v_status (view w)"
      "t_set_guest_page_size T g w = (r4, w') \<Longrightarrow> v_status (view w') = v_status (view w)"
      "t_queue_set T q sz desc drv dvc w = (r4, w') \<Longrightarrow> v_status (view w') = v_status (view w)"
      "t_notify T q w = (r4, w') \<Longrightarrow> v_status (view w') = v_status (view w)"
    and config_frame:
      "trace w' = trace w @ evs \<Longrightarrow> list_all config_access evs \<Longrightarrow>
       view w' = view w \<and> (ready w' \<longleftrightarrow> ready w)"
    and memory_frame:
      "emits (\<lambda>_. True) (t_set_status T s)"
      "emits (\<lambda>_. True) (t_write_driver_features T f)"
      "emits (\<lambda>_. True) (t_read_device_features T)"
      "emits (\<lambda>_. True) (t_set_guest_page_size T g)"
      "emits (\<lambda>_. True) (t_queue_set T q sz desc drv dvc)"
      "emits (\<lambda>_. True) (t_queue_unset T q)"
      "emits (\<lambda>_. True) (t_queue_used T q)"
      "emits (\<lambda>_. True) (t_max_queue_size T q)"
      "emits (\<lambda>_. True) (t_notify T q)"
      "emits (\<lambda>_. True) (t_ack_interrupt T)"
begin

text \<open>
  After \<^verbatim>\<open>begin_init\<close> the device has been reset, has status ACKNOWLEDGE, DRIVER and
  FEATURES_OK, holds exactly the negotiated features, has no queue, and takes queues.
\<close>

lemma begin_init_Ok:
  assumes "begin_init T all_bits supp w = (Ok f, w')"
  shows "v_status (view w') = 11" and "v_features (view w') = f"
    and "v_queues (view w') = (\<lambda>_. None)" and "ready w'"
    and "and f (not (and all_bits supp)) = 0"
proof -
  have page: "ucast PAGE_SIZE = (4096 :: u32)"
    by (simp add: PAGE_SIZE_def)
  obtain w0 w1 bits w2 w3 w4 where
    s0: "t_set_status T 0 w = (Ok (), w0)" and
    s1: "t_set_status T 3 w0 = (Ok (), w1)" and
    rd: "t_read_device_features T w1 = (Ok bits, w2)" and
    f: "f = and (from_bits_truncate all_bits bits) supp" and
    wr: "t_write_driver_features T f w2 = (Ok (), w3)" and
    s4: "t_set_status T 11 w3 = (Ok (), w4)" and
    pg: "t_set_guest_page_size T 4096 w4 = (Ok (), w')"
    using assms
    by (auto simp: begin_init_def Let_def prog_Ok_iffs page ACKNOWLEDGE_def DRIVER_def
        FEATURES_OK_def)
  have v4: "view w4 = (view w)\<lparr>v_status := 11, v_features := f, v_queues := (\<lambda>_. None)\<rparr>"
    using set_status_Ok [OF s0] set_status_Ok [OF s1] read_features_view [OF rd]
      write_features_Ok [OF wr] set_status_Ok [OF s4]
    by (simp add: view_set_status_def)
  then have v': "view w' = view w4 \<and> ready w'"
    by (intro page_size_Ok [OF pg]) simp
  show "v_status (view w') = 11" "v_features (view w') = f"
    "v_queues (view w') = (\<lambda>_. None)" "ready w'"
    using v4 v' by simp_all
  show "and f (not (and all_bits supp)) = 0"
    unfolding f from_bits_truncate_def by (rule bit_eqI) (auto simp: bit_simps)
qed

lemma finish_init_Ok:
  assumes "finish_init T w = (Ok u, w')"
  shows "view w' = (view w)\<lparr>v_status := 15\<rparr>"
  using set_status_Ok [of 15 w u w'] assms
  by (simp add: finish_init_def ACKNOWLEDGE_def DRIVER_def FEATURES_OK_def DRIVER_OK_def
      view_set_status_def)

text \<open>
  Until \<^verbatim>\<open>finish_init\<close> succeeds the status is one an initialisation goes through, or the
  status the device had before.
\<close>

lemma begin_init_status:
  assumes "begin_init T all_bits supp w = (r, w')"
  shows "v_status (view w') \<in> {v_status (view w), 0, 3, 11}"
proof -
  have page: "ucast PAGE_SIZE = (4096 :: u32)"
    by (simp add: PAGE_SIZE_def)
  show ?thesis
    using assms
    by (auto simp: begin_init_def Let_def bind_def andthen_def page ACKNOWLEDGE_def DRIVER_def
        FEATURES_OK_def view_set_status_def
        split: prod.splits outcome.splits
        dest!: set_status_Ok read_features_view status_frame
          set_status_fail [where r = "Err _"] set_status_fail [where r = Panic]
          set_status_fail [where r = Hang])
qed

lemma owning_Ok_iff: "owning T m w = (Ok x, w') \<longleftrightarrow> m w = (Ok x, w')"
  by (auto simp: owning_def andthen_def bind_def split: prod.splits outcome.splits)

text \<open>A constructor that returns an error leaves the device reset.\<close>

lemma owning_Err:
  assumes "owning T m w = (Err e, w')"
  shows "v_status (view w') = 0" and "v_features (view w') = 0"
    and "v_queues (view w') = (\<lambda>_. None)"
proof -
  obtain w1 u where "t_drop T w1 = (Ok u, w')"
    using assms drop_no_Err
    by (auto simp: owning_def andthen_def bind_def split: prod.splits outcome.splits)
  then have "view w' = view_set_status 0 (view w1)"
    by (rule drop_Ok)
  then show "v_status (view w') = 0" "v_features (view w') = 0" "v_queues (view w') = (\<lambda>_. None)"
    by (simp_all add: view_set_status_def)
qed

lemma finish_init_status:
  assumes "finish_init T w = (r, w')" and "\<forall>u. r \<noteq> Ok u"
  shows "view w' = view w"
  using assms set_status_fail unfolding finish_init_def by blast

text \<open>The provided methods leave the shared memory alone.\<close>

lemma init_memory_frame:
  "emits (\<lambda>_. True) (begin_init T all_bits supp)" "emits (\<lambda>_. True) (finish_init T)"
  by (auto simp: begin_init_def finish_init_def Let_def intro!: emits_rules memory_frame)

end

section \<open>Device types\<close>

text \<open>
  Decoding a discriminant gives back the type for every type but one: 5, the discriminant
  of \<^verbatim>\<open>MemoryBallooning\<close>, is decoded as \<^verbatim>\<open>MemoryBalloon\<close>, whose discriminant is 13.
\<close>

lemma DeviceType_from_discriminant:
  "DeviceType_from_u8 (DeviceType_discriminant t) =
     (if t = MemoryBallooning then MemoryBalloon else t)"
  by (cases t) (simp_all add: DeviceType_from_u8_def DeviceType_from_u32_def)

lemma DeviceType_from_u32_not_ballooning: "DeviceType_from_u32 n \<noteq> MemoryBallooning"
  by (simp add: DeviceType_from_u32_def)

section \<open>Powers of two\<close>

lemma is_power_of_two_iff: "is_power_of_two n \<longleftrightarrow> (\<exists>k. n = 2 ^ k)"
proof (induction n rule: less_induct)
  case (less n)
  consider "n = 0" | "n = 1" | "1 < n"
    by linarith
  then show ?case
  proof cases
    case 1
    then show ?thesis
      by (subst is_power_of_two.simps) simp
  next
    case 2
    then show ?thesis
      by (subst is_power_of_two.simps) (auto intro: exI [of _ 0])
  next
    case 3
    have IH: "is_power_of_two (n div 2) \<longleftrightarrow> (\<exists>k. n div 2 = 2 ^ k)"
      using 3 by (intro less) simp
    have "(even n \<and> (\<exists>k. n div 2 = 2 ^ k)) \<longleftrightarrow> (\<exists>k. n = 2 ^ k)"
    proof
      assume "\<exists>k. n = 2 ^ k"
      then obtain k where k: "n = 2 ^ k" ..
      with 3 obtain j where "k = Suc j"
        by (cases k) auto
      with k show "even n \<and> (\<exists>k. n div 2 = 2 ^ k)"
        by auto
    next
      assume "even n \<and> (\<exists>k. n div 2 = 2 ^ k)"
      then obtain k where "even n" "n div 2 = 2 ^ k"
        by blast
      then have "n = 2 ^ Suc k"
        by (simp add: dvd_div_eq_mult)
      then show "\<exists>k. n = 2 ^ k" ..
    qed
    with 3 IH show ?thesis
      by (simp add: is_power_of_two.simps [of n])
  qed
qed

end
