(* ===== verification/Queue.thy ===== *)
theory Queue
  imports Transport
begin

text \<open>
  The virtqueue of \<^verbatim>\<open>queue.rs\<close>: the structure \<^verbatim>\<open>VirtIoQueue\<close> and its operations. The const
  generic \<^verbatim>\<open>SIZE\<close> is the first argument \<open>N\<close> of the operations; the arrays of the two rings
  have \<open>N\<close> elements by their Rust type. Every operation is one step with respect to the
  device; the loop of \<open>add_notify_wait_pop\<close> lets the device act between two polls.
\<close>

section \<open>State\<close>

record virtio_queue =
  queue_page :: queue_page
  queue_ref :: queue_mut_ref
  avail_desc_index :: "u16 list"
  last_seen_used :: u16
  poped_used :: "u16 set"
  queue_idx :: u16

type_synonym 'a qprog = "(virtio_queue, virtio_error, 'a) prog"
type_synonym ('d, 'a) qwprog = "(virtio_queue \<times> 'd world, virtio_error, 'a) prog"

abbreviation table :: "virtio_queue \<Rightarrow> descriptor list" where
  "table q \<equiv> descriptor_table (queue_ref q)"

abbreviation avail :: "virtio_queue \<Rightarrow> avail_ring" where
  "avail q \<equiv> the_avail_ring (queue_ref q)"

abbreviation used :: "virtio_queue \<Rightarrow> used_ring" where
  "used q \<equiv> the_used_ring (queue_ref q)"

definition set_table :: "descriptor list \<Rightarrow> virtio_queue \<Rightarrow> virtio_queue" where
  "set_table t q = q\<lparr>queue_ref := (queue_ref q)\<lparr>descriptor_table := t\<rparr>\<rparr>"

definition set_avail :: "avail_ring \<Rightarrow> virtio_queue \<Rightarrow> virtio_queue" where
  "set_avail a q = q\<lparr>queue_ref := (queue_ref q)\<lparr>the_avail_ring := a\<rparr>\<rparr>"

definition set_used :: "used_ring \<Rightarrow> virtio_queue \<Rightarrow> virtio_queue" where
  "set_used u q = q\<lparr>queue_ref := (queue_ref q)\<lparr>the_used_ring := u\<rparr>\<rparr>"

section \<open>Construction\<close>

definition AVAIL_RING_OFFSET :: "nat \<Rightarrow> usize" where
  "AVAIL_RING_OFFSET SIZE = size_of_Descriptor * of_nat SIZE"

definition DESCRIPTOR_TABLE_OFFSET :: usize where
  "DESCRIPTOR_TABLE_OFFSET = 0"

definition USED_RING_OFFSET :: "nat \<Rightarrow> usize" where
  "USED_RING_OFFSET SIZE = align_up (size_of_Descriptor * of_nat SIZE + size_of_AvailRing SIZE)"

definition total_size :: "nat \<Rightarrow> usize" where
  "total_size SIZE =
     align_up (size_of_Descriptor * of_nat SIZE + size_of_AvailRing SIZE) +
     align_up (size_of_UsedRing SIZE)"

definition VirtIoQueue_new ::
  "'d platform \<Rightarrow> 'd transport \<Rightarrow> nat \<Rightarrow> u16 \<Rightarrow> ('d, virtio_queue) wprog" where
  "VirtIoQueue_new P T SIZE qidx =
     bind (t_queue_used T qidx) (\<lambda>in_use.
     if in_use then throw AlreadyUsed
     else if \<not> is_power_of_two SIZE \<or> SIZE > 65535 then throw InvalidParam
     else bind (t_max_queue_size T qidx) (\<lambda>max_size.
     if max_size < of_nat SIZE then throw InvalidParam
     else bind (hal_dma_alloc P (pages (total_size SIZE))) (\<lambda>page.
     let descriptors_paddr = pg_paddr page
     in bind (add_ov (debug P) descriptors_paddr (AVAIL_RING_OFFSET SIZE)) (\<lambda>driver_area_paddr.
        bind (add_ov (debug P) descriptors_paddr (USED_RING_OFFSET SIZE)) (\<lambda>device_area_paddr.
        andthen (t_queue_set T qidx (of_nat SIZE) descriptors_paddr driver_area_paddr
          device_area_paddr)
        (ret \<lparr>queue_page = page,
              queue_ref = queue_ref_mut page (QueueLayout_new SIZE),
              avail_desc_index = map of_nat [0..<SIZE],
              last_seen_used = 0,
              poped_used = {},
              queue_idx = qidx\<rparr>))))))"

section \<open>Submitting buffers\<close>

definition AvailRing_push :: "nat \<Rightarrow> u16 \<Rightarrow> avail_ring \<Rightarrow> u16 \<times> avail_ring" where
  "AvailRing_push N tok a =
     (let res = a_idx a
      in (res, a\<lparr>a_ring := (a_ring a)[unat res mod N := tok], a_idx := res + 1\<rparr>))"

text \<open>
  The loop of \<^verbatim>\<open>add\<close> runs over the buffers from the last to the first; each takes the next free
  descriptor and is linked to the one taken before.
\<close>

fun add_loop :: "nat \<Rightarrow> descriptor list \<Rightarrow> u16 option \<Rightarrow> u16 option qprog" where
  "add_loop N [] lst q = (Ok lst, q)"
| "add_loop N (d # ds) lst q =
     (case avail_desc_index q of
        [] \<Rightarrow> (Panic, q)
      | tok # rest \<Rightarrow>
          let q1 = q\<lparr>avail_desc_index := rest\<rparr>;
              d1 = (case lst of Some nex \<Rightarrow> d\<lparr>d_next := nex\<rparr> | None \<Rightarrow> d);
              i = unat tok mod N
          in if i < length (table q1)
             then add_loop N ds (Some tok) (set_table ((table q1)[i := d1]) q1)
             else (Panic, q1))"

definition VirtIoQueue_add :: "nat \<Rightarrow> descriptor list \<Rightarrow> u16 qprog" where
  "VirtIoQueue_add N data q =
     (if data = [] then (Panic, q)
      else if length (avail_desc_index q) < length data then (Err QueueFull, q)
      else bind (add_loop N (rev data) None) (\<lambda>lst q1.
        (case lst of
           None \<Rightarrow> (Panic, q1)
         | Some head \<Rightarrow>
             (Ok head, set_avail (snd (AvailRing_push N head (avail q1))) q1))) q)"

definition should_notify :: "virtio_queue \<Rightarrow> bool" where
  "should_notify q \<longleftrightarrow> and (u_flags (used q)) 1 = 0"

definition available_desc :: "virtio_queue \<Rightarrow> nat" where
  "available_desc q = length (avail_desc_index q)"

section \<open>Completed buffers\<close>

fun can_pop_loop :: "nat \<Rightarrow> used_elem list \<Rightarrow> u16 \<Rightarrow> nat \<Rightarrow> u16 \<Rightarrow> bool" where
  "can_pop_loop N ring tok 0 current_index = False"
| "can_pop_loop N ring tok (Suc k) current_index =
     (if ue_id (ring ! (unat current_index mod N)) = ucast tok then True
      else can_pop_loop N ring tok k (current_index + 1))"

definition VirtIoQueue_can_pop :: "nat \<Rightarrow> u16 \<Rightarrow> bool qprog" where
  "VirtIoQueue_can_pop N tok q =
     (let idx = u_idx (used q)
      in if last_seen_used q = idx then (Ok False, q)
         else let skip = idx - last_seen_used q
              in (Ok (can_pop_loop N (u_ring (used q)) tok (unat skip) (last_seen_used q)), q))"

definition VirtIoQueue_peek_used :: "nat \<Rightarrow> virtio_queue \<Rightarrow> u16 option" where
  "VirtIoQueue_peek_used N q =
     (if last_seen_used q = u_idx (used q) then None
      else Some (ucast (ue_id (u_ring (used q) ! (unat (last_seen_used q) mod N)))))"

definition VirtIoQueue_get_desc_len :: "u16 \<Rightarrow> usize qprog" where
  "VirtIoQueue_get_desc_len tok q =
     (if unat tok < length (table q) then (Ok (ucast (d_len (table q ! unat tok))), q)
      else (Panic, q))"

text \<open>The search for the completed entry: its ring position, or the initial value of \<open>header\<close>.\<close>

fun find_header :: "nat \<Rightarrow> used_elem list \<Rightarrow> u16 \<Rightarrow> nat \<Rightarrow> u16 \<Rightarrow> u16 \<Rightarrow> u16" where
  "find_header N ring tok 0 tmp_index header = header"
| "find_header N ring tok (Suc k) tmp_index header =
     (if ue_id (ring ! (unat tmp_index mod N)) = ucast tok then tmp_index
      else find_header N ring tok k (tmp_index + 1) header)"

text \<open>
  The walk along the links of a chain: the position reached and the descriptors pushed on
  the free list; \<open>None\<close> when the links form a cycle and the loop never ends.
\<close>

definition chain_walk :: "nat \<Rightarrow> descriptor list \<Rightarrow> nat \<Rightarrow> u16 list \<Rightarrow> (nat \<times> u16 list) option" where
  "chain_walk N desc now pushed =
     while_option
       (\<lambda>(now, pushed). now < length desc \<and> and (d_flags (desc ! now)) NEXT \<noteq> 0)
       (\<lambda>(now, pushed).
          let nxt = d_next (desc ! (now mod N)) in (unat nxt, pushed @ [nxt]))
       (now, pushed)"

function drain_poped :: "u16 set \<Rightarrow> u16 \<Rightarrow> u16 \<Rightarrow> u16 set \<times> u16 \<times> u16" where
  "drain_poped popped lst ev =
     (if lst \<in> popped then drain_poped (popped - {lst}) (lst + 1) (lst + 1)
      else (popped, lst, ev))"
  by pat_completeness auto
termination
  by (relation "measure (\<lambda>(popped, lst, ev). card popped)") (auto intro!: diff_less simp: card_gt_0_iff)

declare drain_poped.simps [simp del]

definition VirtIoQueue_pop_used :: "nat \<Rightarrow> u16 \<Rightarrow> u32 qprog" where
  "VirtIoQueue_pop_used N tok =
     bind (VirtIoQueue_can_pop N tok) (\<lambda>can q.
       if \<not> can then (Err NotReady, q)
       else
         let idx = u_idx (used q); ring = u_ring (used q)
         in if last_seen_used q = idx then (Panic, q)
            else
              let skip = idx - last_seen_used q;
                  header = find_header N ring tok (unat skip) (last_seen_used q)
                    (last_seen_used q - 1)
              in if header = last_seen_used q - 1 then (Panic, q)
                 else
                   let len = ue_len (ring ! (unat header mod N));
                       q1 = q\<lparr>poped_used := insert header (poped_used q),
                              avail_desc_index := avail_desc_index q @ [tok]\<rparr>
                   in (case chain_walk N (table q1) (unat tok) [] of
                         None \<Rightarrow> (Hang, q1)
                       | Some (now, pushed) \<Rightarrow>
                           let q2 = q1\<lparr>avail_desc_index := avail_desc_index q1 @ pushed\<rparr>
                           in if \<not> now < length (table q2) then (Panic, q2)
                              else
                                (case drain_poped (poped_used q2) (last_seen_used q2)
                                        (used_event (avail q2)) of
                                   (popped, lst, ev) \<Rightarrow>
                                     (Ok len,
                                      set_avail ((avail q2)\<lparr>used_event := ev\<rparr>)
                                        (q2\<lparr>poped_used := popped, last_seen_used := lst\<rparr>)))))"

section \<open>Submit, notify, wait, complete\<close>

definition on_q :: "'a qprog \<Rightarrow> ('d, 'a) qwprog" where
  "on_q = zoom fst (\<lambda>q (_, w). (q, w))"

definition on_w :: "('d, 'a) wprog \<Rightarrow> ('d, 'a) qwprog" where
  "on_w = zoom snd (\<lambda>w (q, _). (q, w))"

definition device_step ::
  "'d platform \<Rightarrow> virtio_queue \<times> 'd world \<Rightarrow> virtio_queue \<times> 'd world" where
  "device_step P qw =
     (case qw of (q, w) \<Rightarrow>
        (case dma P (queue_idx q) (queue_ref q) (mem w) (dev w) of (u, m, d) \<Rightarrow>
           (set_used u q, w\<lparr>mem := m, dev := d\<rparr>)))"

definition VirtIoQueue_add_notify_wait_pop ::
  "'d platform \<Rightarrow> 'd transport \<Rightarrow> nat \<Rightarrow> descriptor list \<Rightarrow> ('d, u32) qwprog" where
  "VirtIoQueue_add_notify_wait_pop P T N descriptors =
     bind (on_q (VirtIoQueue_add N descriptors)) (\<lambda>token.
     bind (gets (\<lambda>(q, w). (should_notify q, queue_idx q))) (\<lambda>(notify_wanted, idx).
     andthen (if notify_wanted then on_w (t_notify T idx) else ret ())
     (andthen
        (while_prog (bind (on_q (VirtIoQueue_can_pop N token)) (\<lambda>b. ret (\<not> b))) (device_step P))
     (on_q (VirtIoQueue_pop_used N token)))))"

end
