(* ===== verification/QueueInv.thy ===== *)
theory QueueInv
  imports Queue "HOL-Library.Multiset"
begin

text \<open>
  Correctness of the virtqueue operations. The invariant \<open>vq_inv\<close> relates a queue to the
  list of descriptor chains in flight: each descriptor has exactly one owner, the free list or
  one chain; the chains are linked in the table as the device will walk them; and the entries
  of the used ring between \<^verbatim>\<open>last_seen_used\<close> and the device's index name chains in flight. The
  lemmas give the result and the effect of \<^verbatim>\<open>add\<close>, \<^verbatim>\<open>can_pop\<close>, \<^verbatim>\<open>peek_used\<close> and
  \<^verbatim>\<open>pop_used\<close>, and show that they and the completions of the device keep the invariant.
\<close>

section \<open>Chains in the descriptor table\<close>

text \<open>
  A chain is a list of descriptor indices, head first: every one but the last carries the
  NEXT flag and links to its successor, the last does not carry the flag.
\<close>

fun chain_linked :: "descriptor list \<Rightarrow> u16 list \<Rightarrow> bool" where
  "chain_linked t [] = False"
| "chain_linked t [h] = (and (d_flags (t ! unat h)) NEXT = 0)"
| "chain_linked t (h # x # xs) =
     (and (d_flags (t ! unat h)) NEXT \<noteq> 0 \<and> d_next (t ! unat h) = x \<and> chain_linked t (x # xs))"

text \<open>What the device finds at a descriptor, the link apart.\<close>

definition payload :: "descriptor \<Rightarrow> u64 \<times> u32 \<times> u16" where
  "payload d = (d_addr d, d_len d, d_flags d)"

text \<open>The buffers of a request carry the NEXT flag on all but the last.\<close>

definition chain_flags :: "descriptor list \<Rightarrow> bool" where
  "chain_flags data \<longleftrightarrow>
     data \<noteq> [] \<and> (\<forall>d \<in> set (butlast data). and (d_flags d) NEXT \<noteq> 0) \<and>
     and (d_flags (last data)) NEXT = 0"

fun lay_chain :: "descriptor list \<Rightarrow> u16 list \<Rightarrow> u16 option \<Rightarrow> descriptor list \<Rightarrow> descriptor list" where
  "lay_chain (d # ds) (i # is) lst t =
     lay_chain ds is (Some i)
       (t[unat i := (case lst of Some nex \<Rightarrow> d\<lparr>d_next := nex\<rparr> | None \<Rightarrow> d)])"
| "lay_chain ds is lst t = t"

section \<open>The invariant\<close>

definition vq_wf :: "nat \<Rightarrow> virtio_queue \<Rightarrow> bool" where
  "vq_wf N q \<longleftrightarrow>
     is_power_of_two N \<and> N \<le> 32768 \<and> length (table q) = N \<and>
     length (a_ring (avail q)) = N \<and> length (u_ring (used q)) = N"

text \<open>
  The positions of the used ring between two free-running counters, the entry of the ring at
  a position, and the positions completed by the device that the driver has not taken.
\<close>

definition span :: "u16 \<Rightarrow> u16 \<Rightarrow> u16 list" where
  "span l u = map (\<lambda>i. l + of_nat i) [0..<unat (u - l)]"

abbreviation positions :: "virtio_queue \<Rightarrow> u16 list" where
  "positions q \<equiv> span (last_seen_used q) (u_idx (used q))"

definition entry_at :: "nat \<Rightarrow> virtio_queue \<Rightarrow> u16 \<Rightarrow> used_elem" where
  "entry_at N q p = u_ring (used q) ! (unat p mod N)"

definition pending :: "virtio_queue \<Rightarrow> u16 list" where
  "pending q = filter (\<lambda>p. p \<notin> poped_used q) (positions q)"

text \<open>
  The invariant of a queue with the chains \<open>cs\<close> in flight. Every descriptor is either
  free or in exactly one of the chains; the chains are linked in the table; the completed
  entries not yet taken name the heads of distinct chains in flight; the entries taken out of
  order lie in the used window, which fits in the ring; and the available index has moved past
  the used position by one for each entry taken out of order and each chain in flight.
\<close>

definition vq_inv :: "nat \<Rightarrow> virtio_queue \<Rightarrow> u16 list list \<Rightarrow> bool" where
  "vq_inv N q cs \<longleftrightarrow>
     vq_wf N q \<and>
     distinct (avail_desc_index q @ concat cs) \<and>
     set (avail_desc_index q @ concat cs) = {i. unat i < N} \<and>
     list_all (chain_linked (table q)) cs \<and>
     distinct (map (\<lambda>p. ue_id (entry_at N q p)) (pending q)) \<and>
     (\<lambda>p. ue_id (entry_at N q p)) ` set (pending q) \<subseteq> (\<lambda>c. ucast (hd c)) ` set cs \<and>
     poped_used q \<subseteq> set (positions q) \<and>
     length (positions q) \<le> N \<and>
     a_idx (avail q) = last_seen_used q + of_nat (card (poped_used q) + length cs)"

text \<open>The chain a request occupies: the first free descriptors, in reverse.\<close>

definition new_chain :: "descriptor list \<Rightarrow> virtio_queue \<Rightarrow> u16 list" where
  "new_chain data q = rev (take (length data) (avail_desc_index q))"

text \<open>The device reports the chain with head \<open>tok\<close> as used, having written \<open>len\<close> bytes.\<close>

definition device_complete :: "nat \<Rightarrow> u16 \<Rightarrow> u32 \<Rightarrow> virtio_queue \<Rightarrow> virtio_queue" where
  "device_complete N tok len q =
     set_used ((used q)\<lparr>u_ring := (u_ring (used q))[unat (u_idx (used q)) mod N :=
         \<lparr>ue_id = ucast tok, ue_len = len\<rparr>],
       u_idx := u_idx (used q) + 1\<rparr>) q"

text \<open>The first position of the used window whose entry carries the token.\<close>

definition used_position :: "nat \<Rightarrow> virtio_queue \<Rightarrow> u16 \<Rightarrow> u16 option" where
  "used_position N q tok = find (\<lambda>p. ue_id (entry_at N q p) = ucast tok) (positions q)"

section \<open>Ring indices\<close>

text \<open>
  Ring positions are free-running 16-bit counters reduced modulo the queue size. Because
  the size divides 65536, the wrap-around of the counter does not disturb the position.
\<close>

locale ring_size =
  fixes N :: nat
  assumes pow2: "is_power_of_two N" and small: "N \<le> 32768"
begin

lemma N_pos [simp]: "0 < N"
  using pow2 by (auto simp: is_power_of_two_iff)

lemma N_dvd: "N dvd 2 ^ 16"
proof -
  obtain k where k: "N = 2 ^ k"
    using pow2 is_power_of_two_iff by auto
  have "k \<le> 16"
  proof (rule ccontr)
    assume "\<not> k \<le> 16"
    then have "(2::nat) ^ 17 \<le> 2 ^ k"
      by (intro power_increasing) simp_all
    with k small show False by simp
  qed
  then show ?thesis
    unfolding k by (rule le_imp_power_dvd)
qed

lemma slot_add: "unat (x + of_nat i :: u16) mod N = (unat x + i) mod N"
proof -
  have "unat (x + of_nat i :: u16) = (unat x + i) mod 2 ^ 16"
    by (simp add: unat_word_ariths(1) unat_of_nat mod_simps)
  then show ?thesis
    by (simp only: mod_mod_cancel [OF N_dvd])
qed

lemma slot_inj:
  assumes "i < j" and "j - i < N"
  shows "(a + i) mod N \<noteq> (a + j) mod N"
proof
  assume "(a + i) mod N = (a + j) mod N"
  then have "N dvd (a + j) - (a + i)"
    using assms(1) by (intro mod_eq_dvd_iff_nat [THEN iffD1]) simp_all
  then have "N dvd j - i"
    by simp
  then show False
    using assms by (auto dest: dvd_imp_le)
qed

end

interpretation ring2: ring_size 2
  by unfold_locales (simp_all add: is_power_of_two.simps)

interpretation ring16: ring_size 16
  by unfold_locales (simp_all add: is_power_of_two.simps)

interpretation ring32: ring_size 32
  by unfold_locales (simp_all add: is_power_of_two.simps)

section \<open>Chains and their layout\<close>

lemma nth_update_unat [simp]: "i \<noteq> j \<Longrightarrow> xs[unat i := d] ! unat j = xs ! unat (j :: u16)"
  by (simp add: nth_list_update_neq word_unat_eq_iff)

lemma chain_linked_nonempty: "chain_linked t c \<Longrightarrow> c \<noteq> []"
  by auto

lemma chain_linked_cong:
  "(\<And>i. i \<in> set c \<Longrightarrow> t ! unat i = t' ! unat i) \<Longrightarrow> chain_linked t c = chain_linked t' c"
  by (induction t c rule: chain_linked.induct) auto

lemma chain_linked_upd:
  "i \<notin> set c \<Longrightarrow> chain_linked (t[unat i := d]) c = chain_linked t c"
  by (rule chain_linked_cong) (metis nth_update_unat)

lemma length_lay_chain [simp]: "length (lay_chain ds is lst t) = length t"
  by (induction ds "is" lst t rule: lay_chain.induct) auto

lemma lay_chain_other: "i \<notin> set is \<Longrightarrow> lay_chain ds is lst t ! unat i = t ! unat i"
  by (induction ds "is" lst t rule: lay_chain.induct) auto

text \<open>
  Laying the buffers \<open>ds\<close> (last buffer first) in front of a chain \<open>acc\<close> already in
  the table gives a chain through all of them, with the buffers in their original order.
\<close>

lemma lay_chain_linked:
  assumes "length ds = length is" and "distinct (is @ acc)"
    and "\<forall>i \<in> set is. unat i < length t"
    and "acc \<noteq> [] \<longrightarrow> chain_linked t acc"
    and "lst = (if acc = [] then None else Some (hd acc))"
    and "ds \<noteq> [] \<longrightarrow> (and (d_flags (hd ds)) NEXT = 0) = (acc = [])"
    and "\<forall>d \<in> set (tl ds). and (d_flags d) NEXT \<noteq> 0"
    and "is @ acc \<noteq> []"
  shows "chain_linked (lay_chain ds is lst t) (rev is @ acc) \<and>
    map (\<lambda>i. payload (lay_chain ds is lst t ! unat i)) (rev is @ acc) =
      rev (map payload ds) @ map (\<lambda>i. payload (t ! unat i)) acc"
  using assms
proof (induction ds arbitrary: "is" lst t acc)
  case Nil
  then show ?case by simp
next
  case (Cons d ds)
  obtain i is' where is': "is = i # is'"
    using Cons.prems(1) by (cases "is") auto
  define d' where "d' = (case lst of Some nex \<Rightarrow> d\<lparr>d_next := nex\<rparr> | None \<Rightarrow> d)"
  define t' where "t' = t[unat i := d']"
  have i: "unat i < length t" "i \<notin> set acc" "i \<notin> set is'"
    using Cons.prems(2,3) is' by auto
  have fl: "d_flags d' = d_flags d" "payload d' = payload d"
    by (auto simp: d'_def payload_def split: option.splits)
  have ti: "t' ! unat i = d'"
    using i by (simp add: t'_def)
  have linked: "chain_linked t' (i # acc)"
  proof (cases acc)
    case Nil
    then show ?thesis
      using Cons.prems(6) ti fl by simp
  next
    case acc: (Cons a as)
    then have "chain_linked t' (a # as)"
      using Cons.prems(4) i chain_linked_upd [of i acc t d'] by (simp add: t'_def)
    moreover have "d_next d' = a"
      using Cons.prems(5) acc by (simp add: d'_def)
    ultimately show ?thesis
      using Cons.prems(6) ti fl acc by simp
  qed
  have acc_same: "map (\<lambda>i. payload (t' ! unat i)) acc = map (\<lambda>i. payload (t ! unat i)) acc"
    using i by (intro map_cong [OF refl]) (metis nth_update_unat t'_def)
  have "chain_linked (lay_chain ds is' (Some i) t') (rev is' @ i # acc) \<and>
    map (\<lambda>k. payload (lay_chain ds is' (Some i) t' ! unat k)) (rev is' @ i # acc) =
      rev (map payload ds) @ map (\<lambda>i. payload (t' ! unat i)) (i # acc)"
  proof (rule Cons.IH)
    show "ds \<noteq> [] \<longrightarrow> (and (d_flags (hd ds)) NEXT = 0) = (i # acc = [])"
      using Cons.prems(7) by (cases ds) auto
    show "\<forall>d \<in> set (tl ds). and (d_flags d) NEXT \<noteq> 0"
      using Cons.prems(7) by (cases ds) auto
  qed (use Cons.prems(1,2,3) is' linked in \<open>auto simp: t'_def\<close>)
  then show ?case
    using is' acc_same ti fl by (simp add: t'_def d'_def)
qed

lemma chain_walk_linked:
  assumes "chain_linked t c" and "length t = N" and "\<forall>i \<in> set c. unat i < N"
  shows "chain_walk N t (unat (hd c)) acc = Some (unat (last c), acc @ tl c)"
  using assms
proof (induction t c arbitrary: acc rule: chain_linked.induct)
  case (2 t h)
  then show ?case
    by (simp add: chain_walk_def while_option_unfold)
next
  case (3 t h x xs)
  have "chain_walk N t (unat h) acc = chain_walk N t (unat x) (acc @ [x])"
    unfolding chain_walk_def using 3 by (subst while_option_unfold) (simp add: Let_def)
  then show ?case
    using 3 by simp
qed auto

section \<open>Ownership of the descriptors\<close>

lemmas queue_part_simps [simp] = set_table_def set_avail_def set_used_def

lemma vq_wf_ring: "vq_wf N q \<Longrightarrow> ring_size N"
  by (simp add: vq_wf_def ring_size_def)

lemma vq_inv_ring: "vq_inv N q cs \<Longrightarrow> ring_size N"
  unfolding vq_inv_def by (blast intro: vq_wf_ring)

lemma card_descriptors: "N \<le> 65536 \<Longrightarrow> card {i :: u16. unat i < N} = N"
proof -
  assume N: "N \<le> 65536"
  have "bij_betw (of_nat :: nat \<Rightarrow> u16) {..<N} {i. unat i < N}"
    by (rule bij_betw_byWitness [where f' = unat]) (use N in \<open>auto simp: unat_of_nat\<close>)
  then show ?thesis
    by (metis bij_betw_same_card card_lessThan)
qed

text \<open>Free descriptors and descriptors in flight add up to the size of the queue.\<close>

lemma vq_inv_count:
  assumes "vq_inv N q cs"
  shows "length (avail_desc_index q) + length (concat cs) = N"
proof -
  have "card (set (avail_desc_index q @ concat cs)) = length (avail_desc_index q @ concat cs)"
    using assms by (intro distinct_card) (simp add: vq_inv_def)
  moreover have "card (set (avail_desc_index q @ concat cs)) = N"
    using assms card_descriptors [of N] by (simp add: vq_inv_def vq_wf_def)
  ultimately show ?thesis
    by simp
qed

lemma chains_le_descriptors:
  "list_all (chain_linked t) cs \<Longrightarrow> length cs \<le> length (concat cs)"
proof (induction cs)
  case (Cons c cs)
  then have "c \<noteq> []"
    by (auto dest: chain_linked_nonempty)
  with Cons show ?case
    by (cases c) auto
qed simp

lemma vq_inv_chains_le: "vq_inv N q cs \<Longrightarrow> length cs \<le> N"
  using chains_le_descriptors [of "table q" cs] vq_inv_count [of N q cs] by (simp add: vq_inv_def)

section \<open>Positions\<close>

lemma span_same [simp]: "span l l = []"
  by (simp add: span_def)

lemma length_span [simp]: "length (span l u) = unat (u - l)"
  by (simp add: span_def)

lemma span_empty_iff: "span l u = [] \<longleftrightarrow> l = u"
  by (auto simp: span_def unat_eq_0)

lemma unat_minus_Suc:
  assumes "l \<noteq> u"
  shows "unat (u - l :: u16) = Suc (unat (u - (l + 1)))"
proof -
  have eq: "u - (l + 1) = u - l - 1" and nz: "u - l \<noteq> 0"
    using assms by simp_all
  have "unat (u - l - 1) = unat (u - l) - 1" and "0 < unat (u - l)"
    using nz unat_minus_one [OF nz] unat_gt_0 [of "u - l"] by blast+
  then show ?thesis
    by (simp only: eq)
qed

lemma span_Cons: "l \<noteq> u \<Longrightarrow> span l u = l # span (l + 1) u"
  by (simp add: span_def unat_minus_Suc upt_conv_Cons map_Suc_upt [symmetric] add.assoc
      del: upt_Suc)

lemma span_snoc:
  assumes "unat (u - l) < 65535"
  shows "span l (u + 1) = span l u @ [u]"
proof -
  have "u + 1 - l = (u - l) + 1"
    by simp
  then have "unat (u + 1 - l) = Suc (unat (u - l))"
    using assms by (simp only: unat_word_ariths(1)) simp
  then show ?thesis
    by (simp add: span_def)
qed

lemma distinct_span: "distinct (span l u)"
proof -
  have "inj_on (\<lambda>i. l + of_nat i :: u16) {0..<unat (u - l)}"
  proof (rule inj_onI)
    fix i j assume "i \<in> {0..<unat (u - l)}" "j \<in> {0..<unat (u - l)}"
      and eq: "l + of_nat i = l + (of_nat j :: u16)"
    then have "i < 2 ^ 16" "j < 2 ^ 16"
      using unsigned_less [of "u - l", where 'a = nat] by auto
    moreover have "unat (of_nat i :: u16) = unat (of_nat j :: u16)"
      using eq by simp
    ultimately show "i = j"
      by (simp add: unat_of_nat)
  qed
  then show ?thesis
    by (simp add: span_def distinct_map)
qed

lemma last_not_in_span: "l \<notin> set (span (l + 1) u)"
proof (cases "l = u")
  case True
  have "l + 1 + of_nat i \<noteq> l" if "i < unat (u - (l + 1))" for i
  proof
    assume "l + 1 + of_nat i = l"
    then have "unat (of_nat (Suc i) :: u16) = 0"
      by (simp add: algebra_simps)
    moreover have "Suc i < 2 ^ LENGTH(16)"
      using that True by (simp add: unsigned_minus_1_eq_mask mask_eq_exp_minus_1)
    ultimately show False
      by (simp only: unat_of_nat_small)
  qed
  then show ?thesis
    by (auto simp: span_def)
next
  case False
  then show ?thesis
    using distinct_span [of l u] by (simp add: span_Cons)
qed

lemma before_not_in_span: "l - 1 \<notin> set (span l u)"
  using last_not_in_span [of "l - 1" u] by simp

lemma span_memE:
  assumes "p \<in> set (span l u)"
  obtains i where "p = l + of_nat i" and "i < unat (u - l)"
  using assms by (auto simp: span_def)

section \<open>Adding a chain\<close>

lemma add_loop_eq:
  assumes "length ds \<le> length (avail_desc_index q)" and "length (table q) = N"
    and "\<forall>i \<in> set (take (length ds) (avail_desc_index q)). unat i < N"
  shows "add_loop N ds lst q =
    (Ok (if ds = [] then lst else Some (avail_desc_index q ! (length ds - 1))),
     set_table (lay_chain ds (take (length ds) (avail_desc_index q)) lst (table q))
       (q\<lparr>avail_desc_index := drop (length ds) (avail_desc_index q)\<rparr>))"
  using assms
proof (induction ds arbitrary: q lst)
  case Nil
  then show ?case by simp
next
  case (Cons d ds)
  obtain i rest where fr: "avail_desc_index q = i # rest"
    using Cons.prems(1) by (cases "avail_desc_index q") auto
  have i: "unat i < N"
    using Cons.prems(3) fr by simp
  show ?case
    using Cons.prems fr i by (simp add: Let_def Cons.IH)
qed

lemma VirtIoQueue_add_eq:
  assumes "data \<noteq> []" and "length data \<le> length (avail_desc_index q)" and "length (table q) = N"
    and "\<forall>i \<in> set (avail_desc_index q). unat i < N"
  shows "VirtIoQueue_add N data q =
    (let fr = avail_desc_index q; k = length data; head = fr ! (k - 1)
     in (Ok head,
         set_avail (snd (AvailRing_push N head (avail q)))
           (set_table (lay_chain (rev data) (take k fr) None (table q))
             (q\<lparr>avail_desc_index := drop k fr\<rparr>))))"
proof -
  have "\<forall>i \<in> set (take (length (rev data)) (avail_desc_index q)). unat i < N"
    using assms(4) by (meson in_set_takeD)
  then show ?thesis
    using assms add_loop_eq [of "rev data" q N None]
    by (simp add: VirtIoQueue_add_def bind_def Let_def)
qed

lemma hd_new_chain:
  assumes "data \<noteq> []" and "length data \<le> length (avail_desc_index q)"
  shows "hd (new_chain data q) = avail_desc_index q ! (length data - 1)"
proof -
  have "take (length data) (avail_desc_index q) \<noteq> []"
    using assms by auto
  then show ?thesis
    using assms by (simp add: new_chain_def hd_rev last_conv_nth min_def)
qed

lemma vq_inv_free_less: "vq_inv N q cs \<Longrightarrow> \<forall>i \<in> set (avail_desc_index q). unat i < N"
  unfolding vq_inv_def by auto

lemma vq_inv_chain:
  assumes "vq_inv N q cs" and "c \<in> set cs"
  shows "chain_linked (table q) c" and "distinct c" and "\<forall>i \<in> set c. unat i < N"
    and "length (table q) = N"
  using assms by (auto simp: vq_inv_def vq_wf_def list_all_iff distinct_concat_iff)

text \<open>
  What \<^verbatim>\<open>add\<close> makes of a queue: the new chain is in front of the free list's rest, its buffers
  in the table in the order given, and every other chain is untouched.
\<close>

lemma VirtIoQueue_add_chain:
  assumes inv: "vq_inv N q cs" and fl: "chain_flags data"
    and room: "length data \<le> length (avail_desc_index q)"
    and run: "VirtIoQueue_add N data q = (r, q')"
  shows "r = Ok (hd (new_chain data q))"
    and "avail_desc_index q' = drop (length data) (avail_desc_index q)"
    and "used q' = used q" and "last_seen_used q' = last_seen_used q"
    and "poped_used q' = poped_used q" and "queue_idx q' = queue_idx q"
    and "avail q' = snd (AvailRing_push N (hd (new_chain data q)) (avail q))"
    and "length (table q') = N"
    and "chain_linked (table q') (new_chain data q)"
    and "map (\<lambda>i. payload (table q' ! unat i)) (new_chain data q) = map payload data"
    and "\<And>i. i \<notin> set (new_chain data q) \<Longrightarrow> table q' ! unat i = table q ! unat i"
proof -
  let ?is = "take (length data) (avail_desc_index q)"
  have ne: "data \<noteq> []"
    using fl by (simp add: chain_flags_def)
  have tl: "length (table q) = N" and free: "\<forall>i \<in> set (avail_desc_index q). unat i < N"
    using inv vq_inv_free_less by (auto simp: vq_inv_def vq_wf_def)
  note eq = VirtIoQueue_add_eq [OF ne room tl free]
  show "r = Ok (hd (new_chain data q))"
    and "avail_desc_index q' = drop (length data) (avail_desc_index q)"
    and "used q' = used q" and "last_seen_used q' = last_seen_used q"
    and "poped_used q' = poped_used q" and "queue_idx q' = queue_idx q"
    and "avail q' = snd (AvailRing_push N (hd (new_chain data q)) (avail q))"
    and "length (table q') = N"
    using run eq tl by (auto simp: Let_def hd_new_chain [OF ne room])
  have tab: "table q' = lay_chain (rev data) ?is None (table q)"
    using run eq by (auto simp: Let_def)
  have "chain_linked (lay_chain (rev data) ?is None (table q)) (rev ?is @ []) \<and>
    map (\<lambda>i. payload (lay_chain (rev data) ?is None (table q) ! unat i)) (rev ?is @ []) =
      rev (map payload (rev data)) @ map (\<lambda>i::u16. payload (table q ! unat i)) []"
  proof (rule lay_chain_linked)
    show "distinct (?is @ [])"
      using inv by (simp add: vq_inv_def)
    show "\<forall>i \<in> set ?is. unat i < length (table q)"
      using free tl by (meson in_set_takeD)
    show "rev data \<noteq> [] \<longrightarrow> (and (d_flags (hd (rev data))) NEXT = 0) = ([] = [])"
      using fl by (simp add: chain_flags_def hd_rev)
    show "\<forall>d \<in> set (tl (rev data)). and (d_flags d) NEXT \<noteq> 0"
      using fl butlast_rev [of "rev data"] by (simp add: chain_flags_def)
  qed (use room ne in auto)
  then show "chain_linked (table q') (new_chain data q)"
    and "map (\<lambda>i. payload (table q' ! unat i)) (new_chain data q) = map payload data"
    using tab by (auto simp: new_chain_def rev_map)
  show "\<And>i. i \<notin> set (new_chain data q) \<Longrightarrow> table q' ! unat i = table q ! unat i"
    using tab by (simp add: new_chain_def lay_chain_other)
qed

lemma entry_at_cong: "used q' = used q \<Longrightarrow> entry_at N q' = entry_at N q"
  by (rule ext) (simp add: entry_at_def)

lemma pending_cong:
  "used q' = used q \<Longrightarrow> last_seen_used q' = last_seen_used q \<Longrightarrow> poped_used q' = poped_used q \<Longrightarrow>
   pending q' = pending q"
  by (simp add: pending_def)

lemma VirtIoQueue_add_inv:
  assumes inv: "vq_inv N q cs" and fl: "chain_flags data"
    and room: "length data \<le> length (avail_desc_index q)"
    and run: "VirtIoQueue_add N data q = (r, q')"
  shows "vq_inv N q' (cs @ [new_chain data q])"
proof -
  note add = VirtIoQueue_add_chain [OF inv fl room run]
  let ?k = "length data"
  have split: "avail_desc_index q = take ?k (avail_desc_index q) @ drop ?k (avail_desc_index q)"
    by simp
  have own: "distinct (avail_desc_index q' @ concat (cs @ [new_chain data q]))"
    using inv add(2) set_take_disj_set_drop_if_distinct [of "avail_desc_index q" ?k ?k]
    by (auto simp: vq_inv_def new_chain_def dest: in_set_takeD in_set_dropD)
  have all: "set (avail_desc_index q' @ concat (cs @ [new_chain data q])) = {i. unat i < N}"
  proof -
    have "set (avail_desc_index q) = set (new_chain data q) \<union> set (avail_desc_index q')"
      using split add(2) by (metis new_chain_def set_append set_rev)
    then show ?thesis
      using inv unfolding vq_inv_def by auto
  qed
  have "chain_linked (table q') c" if c: "c \<in> set cs" for c
  proof -
    have "set c \<inter> set (new_chain data q) = {}"
      using inv c by (fastforce simp: vq_inv_def new_chain_def dest: in_set_takeD)
    then show ?thesis
      using vq_inv_chain(1) [OF inv c] add(11) chain_linked_cong [of c "table q'" "table q"]
      by blast
  qed
  then have linked: "list_all (chain_linked (table q')) (cs @ [new_chain data q])"
    using add(9) by (simp add: list_all_iff)
  have wf: "vq_wf N q'"
    using inv add(3,7,8) by (simp add: vq_inv_def vq_wf_def AvailRing_push_def Let_def)
  show ?thesis
    using inv wf own all linked add(3,4,5,7) entry_at_cong [OF add(3), of N]
      pending_cong [OF add(3,4,5)]
    unfolding vq_inv_def by (auto simp: AvailRing_push_def Let_def)
qed

section \<open>Completion by the device\<close>

lemma slot_distinct:
  assumes "vq_inv N q cs" and "length (positions q) < N" and "p \<in> set (positions q)"
  shows "unat p mod N \<noteq> unat (u_idx (used q)) mod N"
proof -
  have R: "ring_size N"
    using assms(1) by (rule vq_inv_ring)
  obtain i where i: "p = last_seen_used q + of_nat i"
    and less: "i < unat (u_idx (used q) - last_seen_used q)"
    using assms(3) by (rule span_memE)
  have u: "u_idx (used q) = last_seen_used q + of_nat (unat (u_idx (used q) - last_seen_used q))"
    by simp
  show ?thesis
    unfolding i by (subst u) (use less assms(2) in
      \<open>simp only: ring_size.slot_add [OF R] length_span,
       auto dest: ring_size.slot_inj [OF R]\<close>)
qed

lemma window_counts:
  assumes "vq_inv N q cs"
  shows "length (positions q) = card (poped_used q) + length (pending q)"
    and "length (pending q) \<le> length cs"
proof -
  have "card (poped_used q) = length (filter (\<lambda>p. p \<in> poped_used q) (positions q))"
    using assms distinct_span
    by (subst distinct_card [symmetric]) (auto simp: vq_inv_def intro!: arg_cong [of _ _ card])
  then show "length (positions q) = card (poped_used q) + length (pending q)"
    using sum_length_filter_compl [of "\<lambda>p. p \<in> poped_used q" "positions q"]
    by (simp add: pending_def)
  have "length (pending q) = card ((\<lambda>p. ue_id (entry_at N q p)) ` set (pending q))"
    using assms by (metis (mono_tags, lifting) distinct_card length_map list.set_map vq_inv_def)
  also have "\<dots> \<le> card ((\<lambda>c. ucast (hd c) :: u32) ` set cs)"
    using assms by (intro card_mono) (simp_all add: vq_inv_def)
  also have "\<dots> \<le> length cs"
    by (meson card_image_le card_length finite_set order_trans)
  finally show "length (pending q) \<le> length cs" .
qed

text \<open>
  The device marks a chain in flight as completed. There is room in the ring whenever the
  driver has taken nothing out of order.
\<close>

lemma device_complete_room:
  assumes inv: "vq_inv N q cs" and "poped_used q = {}" and c: "c \<in> set cs"
    and new: "ucast (hd c) \<notin> (\<lambda>p. ue_id (entry_at N q p)) ` set (pending q)"
  shows "length (positions q) < N"
proof -
  let ?ids = "(\<lambda>p. ue_id (entry_at N q p)) ` set (pending q)"
  have "length (pending q) = card ?ids"
    using inv by (metis (mono_tags, lifting) distinct_card length_map list.set_map vq_inv_def)
  also have "\<dots> < card ((\<lambda>c. ucast (hd c) :: u32) ` set cs)"
    using inv c new by (intro psubset_card_mono) (auto simp: vq_inv_def)
  also have "\<dots> \<le> length cs"
    by (meson card_image_le card_length finite_set order_trans)
  also have "\<dots> \<le> N"
    using inv by (rule vq_inv_chains_le)
  finally show ?thesis
    using window_counts(1) [OF inv] assms(2) by simp
qed

lemma device_complete_inv:
  assumes inv: "vq_inv N q cs" and room: "length (positions q) < N" and c: "c \<in> set cs"
    and new: "ucast (hd c) \<notin> (\<lambda>p. ue_id (entry_at N q p)) ` set (pending q)"
  shows "vq_inv N (device_complete N (hd c) len q) cs"
    and "pending (device_complete N (hd c) len q) = pending q @ [u_idx (used q)]"
    and "\<And>p. p \<in> set (positions q) \<Longrightarrow>
      entry_at N (device_complete N (hd c) len q) p = entry_at N q p"
    and "entry_at N (device_complete N (hd c) len q) (u_idx (used q)) =
      \<lparr>ue_id = ucast (hd c), ue_len = len\<rparr>"
proof -
  let ?q = "device_complete N (hd c) len q"
  have wf: "vq_wf N q" "0 < N"
    using inv ring_size.N_pos [OF vq_inv_ring [OF inv]] by (auto simp: vq_inv_def)
  have pos: "positions ?q = positions q @ [u_idx (used q)]"
    using room wf by (simp add: device_complete_def span_snoc vq_wf_def)
  then have fresh: "u_idx (used q) \<notin> set (positions q)"
    using distinct_span [of "last_seen_used ?q" "u_idx (used ?q)"] by simp
  then show pend: "pending ?q = pending q @ [u_idx (used q)]"
    using pos inv by (auto simp: pending_def vq_inv_def device_complete_def)
  show old: "entry_at N ?q p = entry_at N q p" if "p \<in> set (positions q)" for p
    using slot_distinct [OF inv room that] by (simp add: device_complete_def entry_at_def)
  show this_entry: "entry_at N ?q (u_idx (used q)) = \<lparr>ue_id = ucast (hd c), ue_len = len\<rparr>"
    using wf by (simp add: device_complete_def entry_at_def vq_wf_def)
  have sub: "set (pending q) \<subseteq> set (positions q)"
    by (auto simp: pending_def)
  have ids: "map (\<lambda>p. ue_id (entry_at N ?q p)) (pending ?q) =
      map (\<lambda>p. ue_id (entry_at N q p)) (pending q) @ [ucast (hd c)]"
    using pend old this_entry sub by auto
  have img: "(\<lambda>p. ue_id (entry_at N ?q p)) ` set (pending ?q) =
      insert (ucast (hd c)) ((\<lambda>p. ue_id (entry_at N q p)) ` set (pending q))"
    using arg_cong [OF ids, of set] by simp
  have "vq_wf N ?q"
    using wf by (simp add: vq_wf_def device_complete_def)
  moreover have "distinct (map (\<lambda>p. ue_id (entry_at N ?q p)) (pending ?q))"
    using inv new unfolding ids vq_inv_def by simp
  moreover have "length (positions ?q) \<le> N"
    using pos room by simp
  moreover have "poped_used ?q \<subseteq> set (positions ?q)"
    using pos inv by (auto simp: vq_inv_def device_complete_def)
  moreover have "avail_desc_index ?q = avail_desc_index q" "table ?q = table q"
    "avail ?q = avail q" "last_seen_used ?q = last_seen_used q" "poped_used ?q = poped_used q"
    by (simp_all add: device_complete_def)
  ultimately show "vq_inv N ?q cs"
    using inv c unfolding vq_inv_def img by auto
qed

section \<open>Taking a completed chain\<close>

lemma can_pop_loop_find:
  "can_pop_loop N ring tok (unat (u - l)) l \<longleftrightarrow>
     find (\<lambda>p. ue_id (ring ! (unat p mod N)) = ucast tok) (span l u) \<noteq> None"
proof (induction "unat (u - l)" arbitrary: l)
  case 0
  then have "l = u"
    by (simp add: unat_eq_0)
  then show ?case by simp
next
  case (Suc k)
  then have ne: "l \<noteq> u"
    by auto
  then have "k = unat (u - (l + 1))"
    using Suc.hyps(2) by (simp add: unat_minus_Suc)
  then show ?case
    using Suc.hyps(1) [of "l + 1"] ne by (simp add: unat_minus_Suc span_Cons)
qed

lemma find_header_find:
  "find_header N ring tok (unat (u - l)) l h =
     (case find (\<lambda>p. ue_id (ring ! (unat p mod N)) = ucast tok) (span l u) of
        None \<Rightarrow> h | Some p \<Rightarrow> p)"
proof (induction "unat (u - l)" arbitrary: l)
  case 0
  then have "l = u"
    by (simp add: unat_eq_0)
  then show ?case by simp
next
  case (Suc k)
  then have ne: "l \<noteq> u"
    by auto
  then have "k = unat (u - (l + 1))"
    using Suc.hyps(2) by (simp add: unat_minus_Suc)
  then show ?case
    using Suc.hyps(1) [of "l + 1"] ne by (simp add: unat_minus_Suc span_Cons)
qed

lemma VirtIoQueue_can_pop_eq:
  "VirtIoQueue_can_pop N tok q = (Ok (used_position N q tok \<noteq> None), q)"
  by (auto simp: VirtIoQueue_can_pop_def used_position_def entry_at_def can_pop_loop_find Let_def)

lemma VirtIoQueue_pop_used_NotReady:
  "used_position N q tok = None \<Longrightarrow> VirtIoQueue_pop_used N tok q = (Err NotReady, q)"
  by (simp add: VirtIoQueue_pop_used_def bind_def VirtIoQueue_can_pop_eq)

lemma VirtIoQueue_pop_used_eq:
  assumes pos: "used_position N q tok = Some p"
    and c: "chain_linked (table q) c" "hd c = tok" "\<forall>i \<in> set c. unat i < N"
    and tab: "length (table q) = N"
  shows "VirtIoQueue_pop_used N tok q =
    (case drain_poped (insert p (poped_used q)) (last_seen_used q) (used_event (avail q)) of
       (popped, lst, ev) \<Rightarrow>
         (Ok (ue_len (entry_at N q p)),
          set_avail ((avail q)\<lparr>used_event := ev\<rparr>)
            (q\<lparr>avail_desc_index := avail_desc_index q @ c, poped_used := popped,
               last_seen_used := lst\<rparr>)))"
proof -
  have mem: "p \<in> set (positions q)"
    using pos by (auto simp: used_position_def find_Some_iff)
  then have ne: "last_seen_used q \<noteq> u_idx (used q)"
    by auto
  have hdr: "find_header N (u_ring (used q)) tok (unat (u_idx (used q) - last_seen_used q))
      (last_seen_used q) h = p" for h
    using pos by (simp add: find_header_find used_position_def entry_at_def)
  have notbefore: "p \<noteq> last_seen_used q - 1"
    using mem before_not_in_span by metis
  obtain x xs where cx: "c = x # xs"
    using c(1) by (cases c) auto
  have walk: "chain_walk N (table q) (unat tok) [] = Some (unat (last c), tl c)"
    using chain_walk_linked [OF c(1) tab c(3), of "[]"] c(2) by simp
  have "unat (last c) < N"
    using c(3) cx by (metis last_in_set list.distinct(1))
  then show ?thesis
    using pos ne hdr notbefore walk c(2) cx tab
    by (simp add: VirtIoQueue_pop_used_def bind_def VirtIoQueue_can_pop_eq Let_def entry_at_def
        split: prod.splits)
qed

lemma drain_poped_spec:
  assumes "drain_poped popped l ev = (popped', l', ev')" and "popped \<subseteq> set (span l u)"
  shows "popped' \<subseteq> set (span l' u) \<and> l' \<notin> popped' \<and>
    filter (\<lambda>p. p \<notin> popped') (span l' u) = filter (\<lambda>p. p \<notin> popped) (span l u) \<and>
    l' + of_nat (card popped') = l + of_nat (card popped) \<and>
    length (span l' u) \<le> length (span l u) \<and>
    ev' = (if l \<in> popped then l' else ev)"
  using assms
proof (induction popped l ev rule: drain_poped.induct)
  case (1 popped l ev)
  show ?case
  proof (cases "l \<in> popped")
    case False
    then have "popped' = popped" "l' = l" "ev' = ev"
      using "1.prems"(1) by (simp_all add: drain_poped.simps [of popped l ev])
    then show ?thesis
      using False "1.prems"(2) by simp
  next
    case True
    then have ne: "l \<noteq> u"
      using "1.prems"(2) by auto
    have sub: "popped - {l} \<subseteq> set (span (l + 1) u)"
      using "1.prems"(2) by (auto simp: span_Cons [OF ne])
    have run: "drain_poped (popped - {l}) (l + 1) (l + 1) = (popped', l', ev')"
      using "1.prems"(1) True by (simp add: drain_poped.simps [of popped l ev])
    note IH = "1.IH" [OF True run sub]
    have "finite popped"
      using "1.prems"(2) finite_subset by blast
    then have card: "card popped = Suc (card (popped - {l}))"
      using True by (metis card_Suc_Diff1)
    have fil: "filter (\<lambda>p. p \<notin> popped - {l}) (span (l + 1) u) = filter (\<lambda>p. p \<notin> popped) (span l u)"
      using True last_not_in_span [of l u] by (auto simp: span_Cons [OF ne] intro: filter_cong)
    have ev: "ev' = l'"
    proof (cases "l + 1 \<in> popped - {l}")
      case False
      then have "l' = l + 1" "ev' = l + 1"
        using run by (auto simp: drain_poped.simps [of "popped - {l}"])
      then show ?thesis by simp
    next
      case True
      moreover have "ev' = (if l + 1 \<in> popped - {l} then l' else l + 1)"
        using IH by blast
      ultimately show ?thesis
        by (simp only: if_True)
    qed
    have len: "length (span (l + 1) u) \<le> length (span l u)"
      by (simp only: span_Cons [OF ne]) simp
    have "l' + of_nat (card popped') = (l + 1) + of_nat (card (popped - {l}))"
      using IH by blast
    then have cnt: "l' + of_nat (card popped') = l + of_nat (card popped)"
      by (simp only: card of_nat_Suc add.assoc)
    have "length (span l' u) \<le> length (span l u)"
      using IH len by (blast intro: order_trans)
    moreover have "filter (\<lambda>p. p \<notin> popped') (span l' u) = filter (\<lambda>p. p \<notin> popped) (span l u)"
      using IH fil by argo
    moreover have "ev' = (if l \<in> popped then l' else ev)"
      using True ev by simp
    ultimately show ?thesis
      using IH cnt by blast
  qed
qed

lemma concat_remove1:
  assumes "c \<in> set cs"
  shows "mset (c @ concat (remove1 c cs)) = mset (concat cs)"
  using assms by (induction cs) (auto simp: union_ac)

lemma distinct_hd_chains:
  assumes "distinct (concat cs)" and "list_all (chain_linked t) cs"
    and "c \<in> set cs" and "c' \<in> set cs" and "hd c = hd c'"
  shows "c = c'"
proof -
  have "hd c \<in> set c" "hd c' \<in> set c'"
    using assms(2-4) by (auto simp: list_all_iff dest!: chain_linked_nonempty)
  then have "set c \<inter> set c' \<noteq> {}"
    using assms(5) by auto
  then show ?thesis
    using assms(1,3,4) by (auto simp: distinct_concat_iff)
qed

text \<open>Taking the position \<open>p\<close> removes it from the pending ones.\<close>

lemma filter_pending_insert:
  "filter (\<lambda>x. x \<notin> insert p (poped_used q)) (positions q) = remove1 p (pending q)"
proof -
  have "distinct (pending q)"
    using distinct_span by (simp add: pending_def)
  then have "remove1 p (pending q) = filter (\<lambda>x. x \<noteq> p) (pending q)"
    by (simp add: distinct_remove1_removeAll removeAll_filter_not_eq) (metis (lifting))
  also have "\<dots> = filter (\<lambda>x. x \<notin> insert p (poped_used q)) (positions q)"
    by (auto simp: pending_def intro: filter_cong)
  finally show ?thesis
    by simp
qed

lemma heads_remove1:
  assumes ids: "distinct (map f ps)" and heads: "f ` set ps \<subseteq> g ` set cs"
    and p: "p \<in> set ps" "f p = g c"
  shows "distinct (map f (remove1 p ps))" and "f ` set (remove1 p ps) \<subseteq> g ` set (remove1 c cs)"
proof -
  show "distinct (map f (remove1 p ps))"
    using ids by (auto simp: distinct_map inj_on_def dest: notin_set_remove1)
  show "f ` set (remove1 p ps) \<subseteq> g ` set (remove1 c cs)"
  proof
    fix y assume "y \<in> f ` set (remove1 p ps)"
    then obtain x where x: "x \<in> set ps" "x \<noteq> p" "y = f x"
      using ids by (auto simp: distinct_map)
    then obtain c' where c': "c' \<in> set cs" "y = g c'"
      using heads by auto
    have "y \<noteq> f p"
      using x p ids by (auto simp: distinct_map inj_on_def)
    then have "c' \<noteq> c"
      using p c' by auto
    then show "y \<in> g ` set (remove1 c cs)"
      using c' in_set_remove1 by fastforce
  qed
qed

lemma vq_inv_owners_remove1:
  assumes "vq_inv N q cs" and c: "c \<in> set cs"
  shows "distinct ((avail_desc_index q @ c) @ concat (remove1 c cs))"
    and "set ((avail_desc_index q @ c) @ concat (remove1 c cs)) = {i. unat i < N}"
proof -
  have "mset ((avail_desc_index q @ c) @ concat (remove1 c cs)) =
      mset (avail_desc_index q @ concat cs)"
    using concat_remove1 [OF c] by simp
  then show "distinct ((avail_desc_index q @ c) @ concat (remove1 c cs))"
    and "set ((avail_desc_index q @ c) @ concat (remove1 c cs)) = {i. unat i < N}"
    using assms(1) unfolding vq_inv_def by (metis mset_eq_imp_distinct_iff mset_eq_setD)+
qed

lemma vq_inv_count_remove1:
  assumes inv: "vq_inv N q cs" and c: "c \<in> set cs" and p: "p \<notin> poped_used q"
    and adv: "lst + of_nat (card popped) =
      last_seen_used q + of_nat (card (insert p (poped_used q)))"
  shows "a_idx (avail q) = lst + of_nat (card popped + length (remove1 c cs))"
proof -
  have "finite (poped_used q)"
    using inv finite_subset by (fastforce simp: vq_inv_def)
  then have "card (insert p (poped_used q)) = Suc (card (poped_used q))"
    using p by simp
  moreover have "length cs = Suc (length (remove1 c cs))"
    using c length_pos_if_in_set [OF c] by (simp add: length_remove1)
  ultimately have "last_seen_used q + of_nat (card (poped_used q) + length cs) =
      last_seen_used q + of_nat (card (insert p (poped_used q)) + length (remove1 c cs))"
    by simp
  also have "\<dots> = lst + of_nat (card popped + length (remove1 c cs))"
    using adv by (simp only: of_nat_add add.assoc [symmetric])
  finally show ?thesis
    using inv by (simp add: vq_inv_def)
qed

text \<open>
  Taking a completed chain gives its descriptors back and keeps the invariant, in whatever
  order the completions are taken, provided the first entry of the used window that carries
  the token has not been taken before.
\<close>

lemma VirtIoQueue_pop_used_inv:
  assumes inv: "vq_inv N q cs" and c: "c \<in> set cs"
    and pos: "used_position N q (hd c) = Some p" and nonstale: "p \<notin> poped_used q"
    and run: "VirtIoQueue_pop_used N (hd c) q = (r, q')"
  shows "r = Ok (ue_len (entry_at N q p))"
    and "vq_inv N q' (remove1 c cs)"
    and "avail_desc_index q' = avail_desc_index q @ c"
    and "table q' = table q" and "used q' = used q" and "queue_idx q' = queue_idx q"
    and "poped_used q = {} \<Longrightarrow> p = last_seen_used q \<Longrightarrow>
      poped_used q' = {} \<and> last_seen_used q' = last_seen_used q + 1"
    and "pending q' = remove1 p (pending q)"
proof -
  obtain popped lst ev where dr:
    "drain_poped (insert p (poped_used q)) (last_seen_used q) (used_event (avail q)) =
      (popped, lst, ev)"
    by (metis prod_cases3)
  note chain = vq_inv_chain [OF inv c]
  have q': "r = Ok (ue_len (entry_at N q p))"
    "q' = set_avail ((avail q)\<lparr>used_event := ev\<rparr>)
            (q\<lparr>avail_desc_index := avail_desc_index q @ c, poped_used := popped,
               last_seen_used := lst\<rparr>)"
    using VirtIoQueue_pop_used_eq [OF pos chain(1) refl chain(3) chain(4)] run dr by auto
  show "r = Ok (ue_len (entry_at N q p))" "avail_desc_index q' = avail_desc_index q @ c"
    "table q' = table q" "queue_idx q' = queue_idx q" and used: "used q' = used q"
    using q' by simp_all
  have p: "p \<in> set (positions q)" and id: "ue_id (entry_at N q p) = ucast (hd c)"
    using pos by (auto simp: used_position_def find_Some_iff)
  have sub: "insert p (poped_used q) \<subseteq> set (positions q)"
    using inv p by (simp add: vq_inv_def)
  note drain = drain_poped_spec [OF dr sub]
  show pend: "pending q' = remove1 p (pending q)"
    using drain q' filter_pending_insert [of p q] by (simp add: pending_def)
  show "poped_used q' = {} \<and> last_seen_used q' = last_seen_used q + 1"
    if "poped_used q = {}" "p = last_seen_used q"
    using dr that q' by (simp add: drain_poped.simps)
  have "p \<in> set (pending q)"
    using p nonstale by (simp add: pending_def)
  moreover have "distinct (map (\<lambda>p. ue_id (entry_at N q p)) (pending q))"
    "(\<lambda>p. ue_id (entry_at N q p)) ` set (pending q) \<subseteq> (\<lambda>c. ucast (hd c)) ` set cs"
    using inv by (simp_all add: vq_inv_def)
  ultimately have "distinct (map (\<lambda>p. ue_id (entry_at N q p)) (remove1 p (pending q)))"
    "(\<lambda>p. ue_id (entry_at N q p)) ` set (remove1 p (pending q)) \<subseteq>
      (\<lambda>c. ucast (hd c)) ` set (remove1 c cs)"
    using heads_remove1 [of "\<lambda>p. ue_id (entry_at N q p)" "pending q" "\<lambda>c. ucast (hd c)" cs p c] id
    by simp_all
  then have "distinct (map (\<lambda>p. ue_id (entry_at N q' p)) (pending q'))"
    "(\<lambda>p. ue_id (entry_at N q' p)) ` set (pending q') \<subseteq>
      (\<lambda>c. ucast (hd c)) ` set (remove1 c cs)"
    unfolding entry_at_cong [OF used] pend .
  moreover have "list_all (chain_linked (table q')) (remove1 c cs)"
    using inv q' by (auto simp: vq_inv_def list_all_iff dest: notin_set_remove1)
  moreover have "a_idx (avail q') =
      last_seen_used q' + of_nat (card (poped_used q') + length (remove1 c cs))"
    using q' drain vq_inv_count_remove1 [OF inv c nonstale, of lst popped] by simp
  moreover have "vq_wf N q'" "poped_used q' \<subseteq> set (positions q')" "length (positions q') \<le> N"
    using inv q' drain by (auto simp: vq_inv_def vq_wf_def)
  moreover have "avail_desc_index q' = avail_desc_index q @ c"
    using q' by simp
  ultimately show "vq_inv N q' (remove1 c cs)"
    using vq_inv_owners_remove1 [OF inv c] unfolding vq_inv_def by simp
qed

end
