(* ===== verification/Mmio.thy ===== *)
theory Mmio
  imports Transport
begin

text \<open>
  The MMIO transport of \<^verbatim>\<open>transport/mmio.rs\<close>, both register layouts: the legacy one, where a
  queue is given by its page number, and the modern one. The second half of the theory
  replays the log of register writes the way the device interprets them (VirtIO 1.2, 4.2.2
  and 4.2.4) and shows that the transport meets \<open>transport_contract\<close> for every
  device, every error the I/O region may report, and both versions.
\<close>

section \<open>Registers\<close>

definition MAGIC :: u32 where
  "MAGIC = 0x74726976"

definition CONFIG_OFFSET :: usize where
  "CONFIG_OFFSET = 0x100"

datatype header_reg =
    Reg_magic | Reg_version | Reg_device_id | Reg_vendor_id | Reg_device_features
  | Reg_device_features_sel | Reg_driver_features | Reg_driver_features_sel
  | Reg_legacy_guest_page_size | Reg_queue_sel | Reg_queue_num_max | Reg_queue_num
  | Reg_legacy_queue_align | Reg_legacy_queue_pfn | Reg_queue_ready | Reg_queue_notify
  | Reg_interrupt_status | Reg_interrupt_ack | Reg_status | Reg_queue_desc | Reg_queue_driver
  | Reg_queue_device | Reg_config_generation

fun VirtIOHeader :: "header_reg \<Rightarrow> usize" where
  "VirtIOHeader Reg_magic = 0"
| "VirtIOHeader Reg_version = 0x4"
| "VirtIOHeader Reg_device_id = 0x8"
| "VirtIOHeader Reg_vendor_id = 0xc"
| "VirtIOHeader Reg_device_features = 0x10"
| "VirtIOHeader Reg_device_features_sel = 0x14"
| "VirtIOHeader Reg_driver_features = 0x20"
| "VirtIOHeader Reg_driver_features_sel = 0x24"
| "VirtIOHeader Reg_legacy_guest_page_size = 0x28"
| "VirtIOHeader Reg_queue_sel = 0x30"
| "VirtIOHeader Reg_queue_num_max = 0x34"
| "VirtIOHeader Reg_queue_num = 0x38"
| "VirtIOHeader Reg_legacy_queue_align = 0x3c"
| "VirtIOHeader Reg_legacy_queue_pfn = 0x40"
| "VirtIOHeader Reg_queue_ready = 0x44"
| "VirtIOHeader Reg_queue_notify = 0x50"
| "VirtIOHeader Reg_interrupt_status = 0x60"
| "VirtIOHeader Reg_interrupt_ack = 0x64"
| "VirtIOHeader Reg_status = 0x70"
| "VirtIOHeader Reg_queue_desc = 0x80"
| "VirtIOHeader Reg_queue_driver = 0x90"
| "VirtIOHeader Reg_queue_device = 0xa0"
| "VirtIOHeader Reg_config_generation = 0xfc"

definition LEGACY_VERSION :: u32 where "LEGACY_VERSION = 1"
definition MODERN_VERSION :: u32 where "MODERN_VERSION = 2"

datatype mmio_version = Legacy | Modern

definition MmioVersion_try_from :: "u32 \<Rightarrow> mmio_version virtio_result" where
  "MmioVersion_try_from version =
     (if version = LEGACY_VERSION then Inr Legacy
      else if version = MODERN_VERSION then Inr Modern
      else Inl (MmioError (UnsupportedVersion version)))"

fun u32_from_MmioVersion :: "mmio_version \<Rightarrow> u32" where
  "u32_from_MmioVersion Legacy = LEGACY_VERSION"
| "u32_from_MmioVersion Modern = MODERN_VERSION"

section \<open>The transport\<close>

text \<open>
  \<^verbatim>\<open>MmioTransport\<close> holds the header (whose fields carry no data), the version and the I/O region.
  The region is the platform, so what the constructor returns is the version.
\<close>

definition MmioTransport_new :: "'d platform \<Rightarrow> ('d, mmio_version) wprog" where
  "MmioTransport_new P =
     bind (ReadOnly_read_u32 P (VirtIOHeader Reg_magic)) (\<lambda>magic.
     if magic \<noteq> MAGIC then throw (MmioError (BadMagic magic))
     else bind (ReadOnly_read_u32 P (VirtIOHeader Reg_device_id)) (\<lambda>device_id.
     if device_id = 0 then throw (MmioError ZeroDeviceId)
     else bind (ReadOnly_read_u32 P (VirtIOHeader Reg_version)) (\<lambda>version.
     (case MmioVersion_try_from version of Inl e \<Rightarrow> throw e | Inr v \<Rightarrow> ret v))))"

definition MmioTransport_vendor_id :: "'d platform \<Rightarrow> ('d, u32) wprog" where
  "MmioTransport_vendor_id P = expect (ReadOnly_read_u32 P (VirtIOHeader Reg_vendor_id))"

definition MmioTransport_device_type :: "'d platform \<Rightarrow> ('d, device_type) wprog" where
  "MmioTransport_device_type P =
     bind (ReadOnly_read_u32 P (VirtIOHeader Reg_device_id)) (\<lambda>ty. ret (DeviceType_from_u32 ty))"

definition MmioTransport_read_device_features :: "'d platform \<Rightarrow> ('d, u64) wprog" where
  "MmioTransport_read_device_features P =
     andthen (WriteOnly_write_u32 P (VirtIOHeader Reg_device_features_sel) 0)
     (bind (ReadOnly_read_u32 P (VirtIOHeader Reg_device_features)) (\<lambda>lo.
      andthen (WriteOnly_write_u32 P (VirtIOHeader Reg_device_features_sel) 1)
     (bind (ReadOnly_read_u32 P (VirtIOHeader Reg_device_features)) (\<lambda>hi.
      ret (or (ucast lo) (push_bit 32 (ucast hi)))))))"

definition MmioTransport_write_driver_features :: "'d platform \<Rightarrow> u64 \<Rightarrow> ('d, unit) wprog" where
  "MmioTransport_write_driver_features P driver_features =
     andthen (WriteOnly_write_u32 P (VirtIOHeader Reg_driver_features_sel) 0)
     (andthen (WriteOnly_write_u32 P (VirtIOHeader Reg_driver_features) (ucast driver_features))
     (andthen (WriteOnly_write_u32 P (VirtIOHeader Reg_driver_features_sel) 1)
     (WriteOnly_write_u32 P (VirtIOHeader Reg_driver_features)
        (ucast (drop_bit 32 driver_features)))))"

definition MmioTransport_max_queue_size :: "'d platform \<Rightarrow> u16 \<Rightarrow> ('d, u32) wprog" where
  "MmioTransport_max_queue_size P queue =
     andthen (WriteOnly_write_u32 P (VirtIOHeader Reg_queue_sel) (ucast queue))
     (ReadOnly_read_u32 P (VirtIOHeader Reg_queue_num_max))"

definition MmioTransport_notify :: "'d platform \<Rightarrow> u16 \<Rightarrow> ('d, unit) wprog" where
  "MmioTransport_notify P queue =
     WriteOnly_write_u32 P (VirtIOHeader Reg_queue_notify) (ucast queue)"

definition MmioTransport_get_status :: "'d platform \<Rightarrow> ('d, u32) wprog" where
  "MmioTransport_get_status P =
     bind (ReadWrite_read_u32 P (VirtIOHeader Reg_status)) (\<lambda>bits.
     ret (from_bits_truncate DeviceStatus_all bits))"

definition MmioTransport_set_status :: "'d platform \<Rightarrow> u32 \<Rightarrow> ('d, unit) wprog" where
  "MmioTransport_set_status P status = ReadWrite_write_u32 P (VirtIOHeader Reg_status) status"

definition MmioTransport_set_guest_page_size ::
  "'d platform \<Rightarrow> mmio_version \<Rightarrow> u32 \<Rightarrow> ('d, unit) wprog" where
  "MmioTransport_set_guest_page_size P version guest_page_size =
     (case version of
        Legacy \<Rightarrow>
          WriteOnly_write_u32 P (VirtIOHeader Reg_legacy_guest_page_size) guest_page_size
      | Modern \<Rightarrow> ret ())"

definition MmioTransport_requires_legacy_layout :: "mmio_version \<Rightarrow> bool" where
  "MmioTransport_requires_legacy_layout version \<longleftrightarrow> version = Legacy"

definition MmioTransport_queue_set ::
  "'d platform \<Rightarrow> mmio_version \<Rightarrow> u16 \<Rightarrow> u32 \<Rightarrow> usize \<Rightarrow> usize \<Rightarrow> usize \<Rightarrow> ('d, unit) wprog" where
  "MmioTransport_queue_set P version queue sz descriptors driver_area device_area =
     (case version of
        Legacy \<Rightarrow>
          bind (sub_ov (debug P) driver_area descriptors) (\<lambda>driver_off.
          andthen (assert_that (driver_off = size_of_Descriptor * ucast sz))
          (bind (sub_ov (debug P) device_area descriptors) (\<lambda>device_off.
          andthen (assert_that (device_off =
            align_up (size_of_Descriptor * ucast sz + 2 * (ucast sz + 3))))
          (let align = ucast PAGE_SIZE;
               pfn = ucast (descriptors div PAGE_SIZE)
           in andthen (debug_assert (debug P) (ucast pfn * PAGE_SIZE = descriptors))
              (andthen (WriteOnly_write_u32 P (VirtIOHeader Reg_queue_sel) (ucast queue))
              (andthen (WriteOnly_write_u32 P (VirtIOHeader Reg_queue_num) sz)
              (andthen (WriteOnly_write_u32 P (VirtIOHeader Reg_legacy_queue_align) align)
              (ReadWrite_write_u32 P (VirtIOHeader Reg_legacy_queue_pfn) pfn))))))))
      | Modern \<Rightarrow>
          andthen (WriteOnly_write_u32 P (VirtIOHeader Reg_queue_sel) (ucast queue))
          (andthen (WriteOnly_write_u32 P (VirtIOHeader Reg_queue_num) sz)
          (andthen (WriteOnly_write_u64 P (VirtIOHeader Reg_queue_desc) descriptors)
          (andthen (WriteOnly_write_u64 P (VirtIOHeader Reg_queue_driver) driver_area)
          (andthen (WriteOnly_write_u64 P (VirtIOHeader Reg_queue_device) device_area)
          (ReadWrite_write_u32 P (VirtIOHeader Reg_queue_ready) 1))))))"

definition MmioTransport_queue_unset ::
  "'d platform \<Rightarrow> mmio_version \<Rightarrow> u16 \<Rightarrow> ('d, unit) wprog" where
  "MmioTransport_queue_unset P version queue =
     (case version of
        Legacy \<Rightarrow>
          andthen (WriteOnly_write_u32 P (VirtIOHeader Reg_queue_sel) (ucast queue))
          (andthen (WriteOnly_write_u32 P (VirtIOHeader Reg_queue_num) 0)
          (andthen (WriteOnly_write_u32 P (VirtIOHeader Reg_legacy_queue_align) 0)
          (ReadWrite_write_u32 P (VirtIOHeader Reg_legacy_queue_pfn) 0)))
      | Modern \<Rightarrow>
          andthen (WriteOnly_write_u32 P (VirtIOHeader Reg_queue_sel) (ucast queue))
          (andthen (ReadWrite_write_u32 P (VirtIOHeader Reg_queue_ready) 0)
          (andthen (while_prog
             (bind (ReadWrite_read_u32 P (VirtIOHeader Reg_queue_ready)) (\<lambda>v. ret (v \<noteq> 0)))
             (\<lambda>w. w))
          (andthen (WriteOnly_write_u32 P (VirtIOHeader Reg_queue_num) 0)
          (andthen (WriteOnly_write_u64 P (VirtIOHeader Reg_queue_desc) 0)
          (andthen (WriteOnly_write_u64 P (VirtIOHeader Reg_queue_driver) 0)
          (WriteOnly_write_u64 P (VirtIOHeader Reg_queue_device) 0)))))))"

definition MmioTransport_queue_used ::
  "'d platform \<Rightarrow> mmio_version \<Rightarrow> u16 \<Rightarrow> ('d, bool) wprog" where
  "MmioTransport_queue_used P version queue =
     andthen (WriteOnly_write_u32 P (VirtIOHeader Reg_queue_sel) (ucast queue))
     (case version of
        Legacy \<Rightarrow>
          bind (ReadWrite_read_u32 P (VirtIOHeader Reg_legacy_queue_pfn)) (\<lambda>v. ret (v \<noteq> 0))
      | Modern \<Rightarrow>
          bind (ReadWrite_read_u32 P (VirtIOHeader Reg_queue_ready)) (\<lambda>v. ret (v \<noteq> 0)))"

definition MmioTransport_ack_interrupt :: "'d platform \<Rightarrow> ('d, bool) wprog" where
  "MmioTransport_ack_interrupt P =
     bind (ReadOnly_read_u32 P (VirtIOHeader Reg_interrupt_status)) (\<lambda>status.
     if status = 0 then ret False
     else andthen (WriteOnly_write_u32 P (VirtIOHeader Reg_interrupt_ack) status) (ret True))"

definition MmioTransport_drop :: "'d platform \<Rightarrow> ('d, unit) wprog" where
  "MmioTransport_drop P = expect (MmioTransport_set_status P 0)"

definition mmio_transport :: "'d platform \<Rightarrow> mmio_version \<Rightarrow> 'd transport" where
  "mmio_transport P version =
     \<lparr>t_device_type = MmioTransport_device_type P,
      t_read_device_features = MmioTransport_read_device_features P,
      t_write_driver_features = MmioTransport_write_driver_features P,
      t_max_queue_size = MmioTransport_max_queue_size P,
      t_notify = MmioTransport_notify P,
      t_get_status = MmioTransport_get_status P,
      t_set_status = MmioTransport_set_status P,
      t_set_guest_page_size = MmioTransport_set_guest_page_size P version,
      t_requires_legacy_layout = MmioTransport_requires_legacy_layout version,
      t_queue_set = MmioTransport_queue_set P version,
      t_queue_unset = MmioTransport_queue_unset P version,
      t_queue_used = MmioTransport_queue_used P version,
      t_ack_interrupt = MmioTransport_ack_interrupt P,
      t_drop = MmioTransport_drop P\<rparr>"

section \<open>How the device interprets the register writes\<close>

record mmio_queue =
  mq_num :: u32
  mq_align :: u32
  mq_pfn :: u32
  mq_ready :: u32
  mq_desc :: u64
  mq_driver :: u64
  mq_device :: u64

record mmio_regs =
  mr_status :: u32
  mr_page_size :: u32
  mr_dsel :: u32
  mr_features :: u64
  mr_qsel :: u32
  mr_queues :: "u32 \<Rightarrow> mmio_queue"
  mr_notified :: "u32 list"

definition mmio_queue_reset :: mmio_queue where
  "mmio_queue_reset = \<lparr>mq_num = 0, mq_align = 0, mq_pfn = 0, mq_ready = 0,
     mq_desc = 0, mq_driver = 0, mq_device = 0\<rparr>"

definition mmio_regs_reset :: "u32 list \<Rightarrow> mmio_regs" where
  "mmio_regs_reset ns = \<lparr>mr_status = 0, mr_page_size = 0, mr_dsel = 0, mr_features = 0,
     mr_qsel = 0, mr_queues = (\<lambda>_. mmio_queue_reset), mr_notified = ns\<rparr>"

definition set_lo :: "u32 \<Rightarrow> u64 \<Rightarrow> u64" where
  "set_lo v x = or (push_bit 32 (drop_bit 32 x)) (ucast v)"

definition set_hi :: "u32 \<Rightarrow> u64 \<Rightarrow> u64" where
  "set_hi v x = or (take_bit 32 x) (push_bit 32 (ucast v))"

definition on_queue :: "(mmio_queue \<Rightarrow> mmio_queue) \<Rightarrow> mmio_regs \<Rightarrow> mmio_regs" where
  "on_queue f r = r\<lparr>mr_queues := (mr_queues r)(mr_qsel r := f (mr_queues r (mr_qsel r)))\<rparr>"

definition mmio_write :: "usize \<Rightarrow> u32 \<Rightarrow> mmio_regs \<Rightarrow> mmio_regs" where
  "mmio_write off v r =
     (if off = 0x70 then (if v = 0 then mmio_regs_reset (mr_notified r) else r\<lparr>mr_status := v\<rparr>)
      else if off = 0x28 then r\<lparr>mr_page_size := v\<rparr>
      else if off = 0x24 then r\<lparr>mr_dsel := v\<rparr>
      else if off = 0x20 then
        r\<lparr>mr_features := (if mr_dsel r = 0 then set_lo v else set_hi v) (mr_features r)\<rparr>
      else if off = 0x30 then r\<lparr>mr_qsel := v\<rparr>
      else if off = 0x38 then on_queue (mq_num_update (\<lambda>_. v)) r
      else if off = 0x3c then on_queue (mq_align_update (\<lambda>_. v)) r
      else if off = 0x40 then on_queue (mq_pfn_update (\<lambda>_. v)) r
      else if off = 0x44 then on_queue (mq_ready_update (\<lambda>_. v)) r
      else if off = 0x80 then on_queue (mq_desc_update (set_lo v)) r
      else if off = 0x84 then on_queue (mq_desc_update (set_hi v)) r
      else if off = 0x90 then on_queue (mq_driver_update (set_lo v)) r
      else if off = 0x94 then on_queue (mq_driver_update (set_hi v)) r
      else if off = 0xa0 then on_queue (mq_device_update (set_lo v)) r
      else if off = 0xa4 then on_queue (mq_device_update (set_hi v)) r
      else if off = 0x50 then r\<lparr>mr_notified := mr_notified r @ [v]\<rparr>
      else r)"

fun mmio_event :: "mmio_regs \<Rightarrow> io_event \<Rightarrow> mmio_regs" where
  "mmio_event r (W32 off v) = mmio_write off v r"
| "mmio_event r (W8 off v) = r"
| "mmio_event r (R32 off v) = r"
| "mmio_event r (R8 off v) = r"

definition mmio_replay :: "io_event list \<Rightarrow> mmio_regs" where
  "mmio_replay = foldl mmio_event (mmio_regs_reset [])"

text \<open>
  A legacy queue lies at its page number times the guest page size; the available ring
  follows the descriptors and the used ring the next multiple of the queue alignment.
\<close>

definition round_up_to :: "usize \<Rightarrow> usize \<Rightarrow> usize" where
  "round_up_to al x = (x + al - 1) div al * al"

definition mmio_queue_cfg :: "mmio_version \<Rightarrow> u32 \<Rightarrow> mmio_queue \<Rightarrow> queue_cfg option" where
  "mmio_queue_cfg version pgsz m =
     (case version of
        Legacy \<Rightarrow>
          if mq_pfn m = 0 then None
          else (let desc = ucast (mq_pfn m) * ucast pgsz :: usize; n = ucast (mq_num m) :: usize
                in Some \<lparr>qc_size = mq_num m, qc_desc = desc, qc_driver = desc + 16 * n,
                     qc_device = desc + round_up_to (ucast (mq_align m)) (16 * n + 2 * (3 + n))\<rparr>)
      | Modern \<Rightarrow>
          if mq_ready m = 0 then None
          else Some \<lparr>qc_size = mq_num m, qc_desc = mq_desc m, qc_driver = mq_driver m,
                 qc_device = mq_device m\<rparr>)"

definition mmio_regs_view :: "mmio_version \<Rightarrow> mmio_regs \<Rightarrow> transport_view" where
  "mmio_regs_view version r =
     \<lparr>v_status = mr_status r, v_features = mr_features r,
      v_queues = (\<lambda>q. mmio_queue_cfg version (mr_page_size r) (mr_queues r (ucast q))),
      v_notified = map ucast (mr_notified r)\<rparr>"

definition mmio_view :: "mmio_version \<Rightarrow> 'd world \<Rightarrow> transport_view" where
  "mmio_view version w = mmio_regs_view version (mmio_replay (trace w))"

definition mmio_ready :: "mmio_version \<Rightarrow> 'd world \<Rightarrow> bool" where
  "mmio_ready version w \<longleftrightarrow> (version = Legacy \<longrightarrow> mr_page_size (mmio_replay (trace w)) = 4096)"

section \<open>The transport meets its contract\<close>

lemma set_hi_lo [simp]: "set_hi (ucast (drop_bit 32 d)) (set_lo (ucast d) x) = d"
  unfolding set_hi_def set_lo_def
  by (rule bit_eqI) (auto simp: bit_simps)

lemma set_hi_lo_0 [simp]: "set_hi 0 (set_lo 0 x) = 0"
  using set_hi_lo [of 0] by simp

lemma replay_append [simp]: "mmio_replay (evs @ es) = foldl mmio_event (mmio_replay evs) es"
  by (simp add: mmio_replay_def)

lemmas mmio_defs =
  MmioTransport_device_type_def MmioTransport_read_device_features_def
  MmioTransport_write_driver_features_def MmioTransport_max_queue_size_def
  MmioTransport_notify_def MmioTransport_get_status_def MmioTransport_set_status_def
  MmioTransport_set_guest_page_size_def MmioTransport_queue_set_def
  MmioTransport_queue_unset_def MmioTransport_queue_used_def MmioTransport_ack_interrupt_def

lemma mmio_emits:
  "emits (\<lambda>e. \<exists>v. e = W32 0x70 v) (MmioTransport_set_status P s)"
  "emits (\<lambda>e. \<exists>v. e = W32 0x20 v \<or> e = W32 0x24 v) (MmioTransport_write_driver_features P f)"
  "emits (\<lambda>e. \<exists>v. e = W32 0x14 v \<or> e = R32 0x10 v) (MmioTransport_read_device_features P)"
  "emits (\<lambda>e. \<exists>v. e = W32 0x28 v) (MmioTransport_set_guest_page_size P ver g)"
  "emits (\<lambda>e. \<exists>v. e = W32 0x50 v) (MmioTransport_notify P q)"
  "emits (\<lambda>e. \<exists>v. e = W32 0x30 v \<or> e = R32 0x34 v) (MmioTransport_max_queue_size P q)"
  "emits (\<lambda>e. \<exists>v. e = W32 0x30 v \<or> e = R32 0x40 v \<or> e = R32 0x44 v)
     (MmioTransport_queue_used P ver q)"
  "emits (\<lambda>e. \<exists>v. e = R32 0x60 v \<or> e = W32 0x64 v) (MmioTransport_ack_interrupt P)"
  "emits (\<lambda>e. \<forall>v. e \<noteq> W32 0x70 v \<and> e \<noteq> W32 0x28 v) (MmioTransport_queue_set P ver q sz a b c)"
  "emits (\<lambda>e. \<forall>v. e \<noteq> W32 0x70 v \<and> e \<noteq> W32 0x28 v) (MmioTransport_queue_unset P ver q)"
  by (cases ver; auto simp: mmio_defs volatile_defs Let_def sub_ov_def intro!: emits_rules)+

text \<open>A projection of the registers that no logged access changes is the same at the end.\<close>

lemma foldl_mmio_same:
  assumes "list_all S evs" and "\<And>e r. S e \<Longrightarrow> f (mmio_event r e) = f r"
  shows "f (foldl mmio_event r evs) = f r"
  using assms(1) by (induction evs arbitrary: r) (simp_all add: assms(2))

lemma emits_view_same:
  assumes "emits S m" and "m w = (r, w')"
    and "\<And>e q. S e \<Longrightarrow> f (mmio_event q e) = f q"
  shows "f (mmio_replay (trace w')) = f (mmio_replay (trace w))"
  using assms(1,2) by (rule emitsE) (simp add: foldl_mmio_same [where S = S and f = f] assms(3))

lemma mmio_neutral:
  assumes "\<exists>v. e = W32 0x14 v \<or> e = W32 0x30 v \<or> e = W32 0x64 v \<or> e = R32 0x10 v \<or>
    e = R32 0x34 v \<or> e = R32 0x40 v \<or> e = R32 0x44 v \<or> e = R32 0x60 v"
  shows "(mmio_regs_view ver (mmio_event r e), mr_page_size (mmio_event r e)) =
    (mmio_regs_view ver r, mr_page_size r)"
  using assms by (auto simp: mmio_write_def mmio_regs_view_def)

lemma mmio_status_same:
  assumes "\<forall>v. e \<noteq> W32 0x70 v"
  shows "mr_status (mmio_event r e) = mr_status r"
  using assms by (cases e) (auto simp: mmio_write_def on_queue_def)

lemma mmio_page_size_same:
  assumes "\<forall>v. e \<noteq> W32 0x70 v \<and> e \<noteq> W32 0x28 v"
  shows "mr_page_size (mmio_event r e) = mr_page_size r"
  using assms by (cases e) (auto simp: mmio_write_def on_queue_def)

lemma mmio_neutral_op:
  assumes "emits S m" and "m w = (r, w')"
    and "\<And>e. S e \<Longrightarrow> \<exists>v. e = W32 0x14 v \<or> e = W32 0x30 v \<or> e = W32 0x64 v \<or> e = R32 0x10 v \<or>
      e = R32 0x34 v \<or> e = R32 0x40 v \<or> e = R32 0x44 v \<or> e = R32 0x60 v"
  shows "mmio_view ver w' = mmio_view ver w \<and> (mmio_ready ver w' \<longleftrightarrow> mmio_ready ver w)"
  using emits_view_same [OF assms(1,2), of "\<lambda>r. (mmio_regs_view ver r, mr_page_size r)"]
    mmio_neutral [OF assms(3)]
  by (simp add: mmio_view_def mmio_ready_def)

lemma unat_ring_bytes:
  "unat (16 * ucast (sz::u32) + 2 * (ucast sz + 3) :: usize) = 18 * unat sz + 6"
proof -
  have "(16 * ucast sz + 2 * (ucast sz + 3) :: usize) = of_nat (18 * unat sz + 6)"
    by (simp add: algebra_simps)
  moreover have "unat (of_nat (18 * unat sz + 6) :: usize) = 18 * unat sz + 6"
    using unsigned_less [of sz, where 'a = nat] by (intro unat_of_nat_small) simp
  ultimately show ?thesis
    by (simp only:)
qed

text \<open>
  The layout of a queue whose size is a power of two never ends its available ring on a
  page boundary, so \<open>align_up\<close>, which adds a whole page at a boundary, agrees there
  with rounding up.
\<close>

lemma ring_bytes_not_page:
  assumes "is_power_of_two n"
  shows "(18 * n + 6) mod 4096 \<noteq> 0"
proof -
  obtain k where k: "n = 2 ^ k"
    using assms is_power_of_two_iff by auto
  show ?thesis
  proof (cases "k < 2")
    case True
    then have "k = 0 \<or> k = 1" by auto
    with k show ?thesis by auto
  next
    case False
    then obtain j where "k = 2 + j"
      using le_Suc_ex [of 2 k] by auto
    then have n: "18 * n + 6 = 8 * (9 * 2 ^ j) + 6"
      using k by (simp add: power_add)
    show ?thesis
    proof
      assume "(18 * n + 6) mod 4096 = 0"
      then have "4096 dvd 18 * n + 6"
        by (rule mod_0_imp_dvd)
      moreover have "8 dvd (4096::nat)"
        by simp
      ultimately have "8 dvd 18 * n + 6"
        by (rule dvd_trans [rotated])
      then have "8 dvd (6::nat)"
        unfolding n by (subst (asm) dvd_add_right_iff) (rule dvd_triv_left)
      then show False by simp
    qed
  qed
qed

text \<open>Rounding up to a page and \<open>align_up\<close> agree away from page boundaries.\<close>

lemma round_up_align_up:
  assumes "unat x + 4096 < 2 ^ 64" and "unat x mod 4096 \<noteq> 0"
  shows "round_up_to 4096 x = align_up x"
proof -
  have "unat (x + 4095) = unat x + 4095"
    using assms(1) by (subst unat_add_lem [THEN iffD1]) simp_all
  moreover have "round_up_to 4096 x = (x + 4095) div 4096 * 4096"
    by (simp add: round_up_to_def add.commute)
  moreover have "(unat x + 4095) div 4096 * 4096 < 2 ^ 64"
    using assms(1) div_times_less_eq_dividend [of "unat x + 4095" 4096] by linarith
  ultimately have "unat (round_up_to 4096 x) = (unat x + 4095) div 4096 * 4096"
    by (simp add: unat_word_ariths(2) unat_div)
  also have "(unat x + 4095) div 4096 = (unat x + 4096) div 4096"
    using ceil_div_eq [of 4096 "unat x"] assms(2) by simp
  finally show ?thesis
    using unat_align_up [OF assms(1)] by (simp add: word_unat_eq_iff)
qed

lemma pfn_times_page:
  assumes "queue_place_ok sz desc"
  shows "ucast (ucast (desc div 4096) :: u32) * 4096 = desc" and "ucast (desc div 4096) \<noteq> (0::u32)"
proof -
  have d: "unat (desc div 4096) = unat desc div 4096"
    by (simp add: unat_div)
  have lt: "unat desc div 4096 < 2 ^ 32" "0 < unat desc div 4096" "unat desc div 4096 * 4096 = unat desc"
    using assms by (auto simp: queue_place_ok_def)
  have u: "unat (ucast (desc div 4096) :: u32) = unat desc div 4096"
    using lt(1) d by (simp add: unsigned_ucast_eq take_bit_eq_mod)
  have "unat (ucast (ucast (desc div 4096) :: u32) * 4096 :: usize) = unat desc"
    using lt u by (subst unat_mult_lem [THEN iffD1]) (simp_all add: unat_ucast_up)
  then show "ucast (ucast (desc div 4096) :: u32) * 4096 = desc"
    by (simp only: word_unat_eq_iff)
  show "ucast (desc div 4096) \<noteq> (0::u32)"
    using u lt(2) by (metis unat_0 less_irrefl)
qed

text \<open>The writes of a successful configuration, in order.\<close>

lemma mmio_set_status_trace:
  "MmioTransport_set_status P s w = (Ok u, w') \<Longrightarrow> trace w' = trace w @ [W32 0x70 s]"
  by (auto simp: mmio_defs volatile_defs dest: io_Ok)

lemma mmio_write_features_trace:
  "MmioTransport_write_driver_features P f w = (Ok u, w') \<Longrightarrow>
   trace w' = trace w @ [W32 0x24 0, W32 0x20 (ucast f), W32 0x24 1, W32 0x20 (ucast (drop_bit 32 f))]"
  by (auto simp: mmio_defs volatile_defs prog_Ok_iffs dest!: io_Ok)

lemma mmio_notify_trace:
  "MmioTransport_notify P q w = (Ok u, w') \<Longrightarrow> trace w' = trace w @ [W32 0x50 (ucast q)]"
  by (auto simp: mmio_defs volatile_defs dest: io_Ok)

lemma mmio_page_size_trace:
  "MmioTransport_set_guest_page_size P ver g w = (Ok u, w') \<Longrightarrow>
   trace w' = trace w @ (case ver of Legacy \<Rightarrow> [W32 0x28 g] | Modern \<Rightarrow> [])"
  by (cases ver) (auto simp: mmio_defs volatile_defs dest: io_Ok)

lemma mmio_queue_set_trace_Modern:
  "MmioTransport_queue_set P Modern q sz desc drv dvc w = (Ok u, w') \<Longrightarrow>
   trace w' = trace w @ [W32 0x30 (ucast q), W32 0x38 sz,
     W32 0x80 (ucast desc), W32 0x84 (ucast (drop_bit 32 desc)),
     W32 0x90 (ucast drv), W32 0x94 (ucast (drop_bit 32 drv)),
     W32 0xa0 (ucast dvc), W32 0xa4 (ucast (drop_bit 32 dvc)), W32 0x44 1]"
  by (auto simp: mmio_defs volatile_defs prog_Ok_iffs dest!: io_Ok)

lemma mmio_queue_set_trace_Legacy:
  assumes "MmioTransport_queue_set P Legacy q sz desc drv dvc w = (Ok u, w')"
  shows "drv = desc + 16 * ucast sz"
    and "dvc = desc + align_up (16 * ucast sz + 2 * (ucast sz + 3))"
    and "trace w' = trace w @ [W32 0x30 (ucast q), W32 0x38 sz, W32 0x3c 4096,
      W32 0x40 (ucast (desc div 4096))]"
proof -
  have "drv - desc = 16 * ucast sz"
    and "dvc - desc = align_up (16 * ucast sz + 2 * (ucast sz + 3))"
    and tr: "trace w' = trace w @ [W32 0x30 (ucast q), W32 0x38 sz, W32 0x3c 4096,
      W32 0x40 (ucast (desc div 4096))]"
    using assms
    by (auto simp: mmio_defs volatile_defs prog_Ok_iffs Let_def sub_ov_def size_of_Descriptor_def
        PAGE_SIZE_def simp del: distrib_left_numeral split: if_splits dest!: io_Ok)
  then show "drv = desc + 16 * ucast sz"
    and "dvc = desc + align_up (16 * ucast sz + 2 * (ucast sz + 3))"
    by (metis add.commute diff_add_cancel)+
  show "trace w' = trace w @ [W32 0x30 (ucast q), W32 0x38 sz, W32 0x3c 4096,
      W32 0x40 (ucast (desc div 4096))]"
    by (rule tr)
qed

lemma mmio_queue_unset_trace_Legacy:
  assumes "MmioTransport_queue_unset P Legacy q w = (Ok u, w')"
  shows "trace w' = trace w @ [W32 0x30 (ucast q), W32 0x38 0, W32 0x3c 0, W32 0x40 0]"
  using assms by (auto simp: mmio_defs volatile_defs prog_Ok_iffs dest!: io_Ok)

lemma mmio_queue_unset_trace_Modern:
  assumes "MmioTransport_queue_unset P Modern q w = (Ok u, w')"
  obtains evs where "list_all (\<lambda>e. \<exists>v. e = R32 0x44 v) evs" and
    "trace w' = trace w @ [W32 0x30 (ucast q), W32 0x44 0] @ evs @
      [W32 0x38 0, W32 0x80 0, W32 0x84 0, W32 0x90 0, W32 0x94 0, W32 0xa0 0, W32 0xa4 0]"
proof -
  define c where "c = bind (io_read_u32 P 0x44) (\<lambda>v. ret (v \<noteq> 0)) "
  have em: "emits (\<lambda>e. \<exists>v. e = R32 0x44 v) c"
    unfolding c_def by (auto intro!: emits_rules)
  obtain w1 w2 where
    1: "trace w1 = trace w @ [W32 0x30 (ucast q), W32 0x44 0]" and
    2: "while_prog c (\<lambda>w. w) w1 = (Ok (), w2)" and
    3: "trace w' = trace w2 @
      [W32 0x38 0, W32 0x80 0, W32 0x84 0, W32 0x90 0, W32 0x94 0, W32 0xa0 0, W32 0xa4 0]"
    using assms by (auto simp: mmio_defs volatile_defs prog_Ok_iffs c_def dest!: io_Ok)
  obtain evs where "trace w2 = trace w1 @ evs" "list_all (\<lambda>e. \<exists>v. e = R32 0x44 v) evs"
    using em 2 by (rule emits_whileE)
  with 1 3 show thesis
    by (intro that) auto
qed

lemmas view_defs = mmio_view_def mmio_regs_view_def mmio_ready_def

lemma mmio_set_status_law:
  assumes "MmioTransport_set_status P s w = (Ok u, w')"
  shows "mmio_view ver w' = view_set_status s (mmio_view ver w)"
    and "s \<noteq> 0 \<Longrightarrow> mmio_ready ver w \<Longrightarrow> mmio_ready ver w'"
  using mmio_set_status_trace [OF assms]
  by (auto simp: view_defs view_set_status_def mmio_write_def mmio_regs_reset_def
      mmio_queue_cfg_def mmio_queue_reset_def split: mmio_version.splits)

lemma mmio_set_status_fail:
  assumes "MmioTransport_set_status P s w = (r, w')" and "\<forall>u. r \<noteq> Ok u"
  shows "mmio_view ver w' = mmio_view ver w"
  using assms
  by (auto simp: mmio_defs volatile_defs io_write_u32_def mmio_view_def
      split: prod.splits sum.splits)

lemma mmio_write_features_law:
  assumes "MmioTransport_write_driver_features P f w = (Ok u, w')"
  shows "mmio_view ver w' = (mmio_view ver w)\<lparr>v_features := f\<rparr>"
  using mmio_write_features_trace [OF assms]
  by (simp add: view_defs mmio_write_def)

lemma mmio_page_size_law:
  assumes "MmioTransport_set_guest_page_size P ver 4096 w = (Ok u, w')"
    and "\<forall>q. v_queues (mmio_view ver w) q = None"
  shows "mmio_view ver w' = mmio_view ver w \<and> mmio_ready ver w'"
  using mmio_page_size_trace [OF assms(1)] assms(2)
  by (auto simp: view_defs mmio_write_def mmio_queue_cfg_def Let_def
      split: mmio_version.splits if_splits)

lemma mmio_queue_unset_law:
  assumes "MmioTransport_queue_unset P ver q w = (Ok u, w')"
  shows "mmio_view ver w' = (mmio_view ver w)\<lparr>v_queues := (v_queues (mmio_view ver w))(q := None)\<rparr>"
proof (cases ver)
  case Legacy
  show ?thesis
    using mmio_queue_unset_trace_Legacy [OF assms [unfolded Legacy]]
    by (auto simp: Legacy view_defs mmio_write_def on_queue_def mmio_queue_cfg_def)
next
  case Modern
  obtain evs where evs: "list_all (\<lambda>e. \<exists>v. e = R32 0x44 v) evs"
    and tr: "trace w' = trace w @ [W32 0x30 (ucast q), W32 0x44 0] @ evs @
      [W32 0x38 0, W32 0x80 0, W32 0x84 0, W32 0x90 0, W32 0x94 0, W32 0xa0 0, W32 0xa4 0]"
    using mmio_queue_unset_trace_Modern [OF assms [unfolded Modern]] .
  have "foldl mmio_event r evs = r" for r
    by (rule foldl_mmio_same [where f = "\<lambda>r. r", OF evs]) auto
  then show ?thesis
    by (auto simp: Modern tr view_defs mmio_write_def on_queue_def mmio_queue_cfg_def)
qed

lemma mmio_queue_set_law:
  assumes run: "MmioTransport_queue_set P ver q sz desc drv dvc w = (Ok u, w')"
    and ready: "mmio_ready ver w" and place: "queue_place_ok sz desc"
  shows "mmio_view ver w' = (mmio_view ver w)\<lparr>v_queues := (v_queues (mmio_view ver w))(q \<mapsto>
      \<lparr>qc_size = sz, qc_desc = desc, qc_driver = drv, qc_device = dvc\<rparr>)\<rparr> \<and> mmio_ready ver w'"
proof (cases ver)
  case Modern
  show ?thesis
    using mmio_queue_set_trace_Modern [OF run [unfolded Modern]]
    by (auto simp: Modern view_defs mmio_write_def on_queue_def mmio_queue_cfg_def)
next
  case Legacy
  note tr = mmio_queue_set_trace_Legacy [OF run [unfolded Legacy]]
  have page: "mr_page_size (mmio_replay (trace w)) = 4096"
    using ready by (simp add: mmio_ready_def Legacy)
  have "unat (16 * ucast sz + 2 * (ucast sz + 3) :: usize) mod 4096 \<noteq> 0"
    using place ring_bytes_not_page unfolding unat_ring_bytes by (auto simp: queue_place_ok_def)
  moreover have "unat (16 * ucast sz + 2 * (ucast sz + 3) :: usize) + 4096 < 2 ^ 64"
    using place unfolding unat_ring_bytes by (auto simp: queue_place_ok_def)
  ultimately have "round_up_to 4096 (16 * ucast sz + 2 * (ucast sz + 3)) =
      align_up (16 * ucast sz + 2 * (ucast sz + 3))"
    by (intro round_up_align_up)
  then have dvc: "desc + round_up_to 4096 (16 * ucast sz + 2 * (3 + ucast sz)) = dvc"
    using tr(2) by (simp only: add.commute [of 3])
  show ?thesis
    using pfn_times_page [OF place] tr(1,3) page dvc
    by (auto simp: Legacy view_defs mmio_write_def on_queue_def mmio_queue_cfg_def Let_def
        simp del: distrib_left_numeral)
qed

lemma mmio_notify_law:
  assumes "MmioTransport_notify P q w = (Ok u, w')"
  shows "mmio_view ver w' = (mmio_view ver w)\<lparr>v_notified := v_notified (mmio_view ver w) @ [q]\<rparr> \<and>
    (mmio_ready ver w' \<longleftrightarrow> mmio_ready ver w)"
  using mmio_notify_trace [OF assms] by (simp add: view_defs mmio_write_def)

lemma mmio_status_frame:
  assumes "emits S m" and "m w = (r, w')" and "\<And>e. S e \<Longrightarrow> \<forall>v. e \<noteq> W32 0x70 v"
  shows "v_status (mmio_view ver w') = v_status (mmio_view ver w)"
  using emits_view_same [OF assms(1,2), of mr_status] mmio_status_same [OF assms(3)]
  by (simp add: view_defs)

lemma mmio_config_access:
  assumes "config_access e"
  shows "mmio_event r e = r"
proof (cases e)
  case (W32 off v)
  then have "off \<noteq> c" if "c < 0x100" for c
    using assms that by auto
  with W32 show ?thesis
    by (simp add: mmio_write_def)
qed simp_all

lemma mmio_config_frame:
  assumes "trace w' = trace w @ evs" and "list_all config_access evs"
  shows "mmio_view ver w' = mmio_view ver w \<and> (mmio_ready ver w' \<longleftrightarrow> mmio_ready ver w)"
proof -
  have "foldl mmio_event r evs = r" for r
    using assms(2) by (induction evs arbitrary: r) (simp_all add: mmio_config_access)
  then have "mmio_replay (trace w') = mmio_replay (trace w)"
    using assms(1) by (simp add: mmio_replay_def)
  then show ?thesis
    by (simp add: mmio_view_def mmio_ready_def)
qed

interpretation mmio: transport_contract "mmio_transport P ver" "mmio_view ver" "mmio_ready ver"
  for P :: "'d platform" and ver :: mmio_version
proof (unfold_locales, goal_cases)
  case (1 s w u w') then show ?case
    using mmio_set_status_law(1) by (simp add: mmio_transport_def)
next
  case (2 s w u w') then show ?case
    using mmio_set_status_law(2) by (simp add: mmio_transport_def)
next
  case (3 s w r w') then show ?case
    using mmio_set_status_fail by (simp add: mmio_transport_def)
next
  case (4 f w u w') then show ?case
    using mmio_write_features_law by (simp add: mmio_transport_def)
next
  case (5 w u w') then show ?case
    using mmio_page_size_law by (simp add: mmio_transport_def)
next
  case (6 q sz desc drv dvc w u w') then show ?case
    using mmio_queue_set_law by (simp add: mmio_transport_def)
next
  case (7 q w u w') then show ?case
    using mmio_queue_unset_law by (simp add: mmio_transport_def)
next
  case (8 w u w') then show ?case
    using mmio_set_status_law(1) by (simp add: mmio_transport_def MmioTransport_drop_def)
next
  case (9 w e w') then show ?case
    by (simp add: mmio_transport_def MmioTransport_drop_def expect_def
        split: prod.splits outcome.splits)
next
  case (10 q w u w') then show ?case
    using mmio_notify_law by (simp add: mmio_transport_def)
next
  case (11 w r w') then show ?case
    by (intro mmio_neutral_op [OF mmio_emits(3)]) (auto simp: mmio_transport_def)
next
  case (12 q w r w') then show ?case
    by (intro mmio_neutral_op [OF mmio_emits(6)]) (auto simp: mmio_transport_def)
next
  case (13 q w r w') then show ?case
    by (intro mmio_neutral_op [OF mmio_emits(7)]) (auto simp: mmio_transport_def)
next
  case (14 w r w') then show ?case
    by (intro mmio_neutral_op [OF mmio_emits(8)]) (auto simp: mmio_transport_def)
next
  case (15 f w r w') then show ?case
    by (intro mmio_status_frame [OF mmio_emits(2)]) (auto simp: mmio_transport_def)
next
  case (16 g w r w') then show ?case
    by (intro mmio_status_frame [OF mmio_emits(4)]) (auto simp: mmio_transport_def)
next
  case (17 q sz desc drv dvc w r w') then show ?case
    by (intro mmio_status_frame [OF mmio_emits(9)]) (auto simp: mmio_transport_def)
next
  case (18 q w r w') then show ?case
    by (intro mmio_status_frame [OF mmio_emits(5)]) (auto simp: mmio_transport_def)
next
  case (19 w' w evs) then show ?case
    by (rule mmio_config_frame)
qed (auto simp: mmio_transport_def intro: emits_mono [OF mmio_emits(1)] emits_mono [OF mmio_emits(2)]
  emits_mono [OF mmio_emits(3)] emits_mono [OF mmio_emits(4)] emits_mono [OF mmio_emits(5)]
  emits_mono [OF mmio_emits(6)] emits_mono [OF mmio_emits(7)] emits_mono [OF mmio_emits(8)]
  emits_mono [OF mmio_emits(9)] emits_mono [OF mmio_emits(10)])

lemma mmio_notify_outcome:
  "t_notify (mmio_transport P ver) q w = (r, w') \<Longrightarrow> (r = Ok () \<or> (\<exists>e. r = Err e)) \<and> mem w' = mem w"
  by (auto simp: mmio_transport_def MmioTransport_notify_def volatile_defs io_write_u32_def
      split: prod.splits sum.splits)

end
