(* ===== verification/VirtQueue.thy ===== *)
theory VirtQueue
  imports QueueInv Mmio
begin

text \<open>
  The virtqueue as its clients see it. An abstract queue keeps the requests submitted and the
  completions not yet taken; the rings in shared memory implement it, whatever the
  interleaving of driver and device steps (\<open>vq_reach_simulates\<close>). The locale \<open>virtqueue\<close>
  states the contract the drivers rely on, and \<open>vq\<close> is its interpretation on the operations of
  \<^verbatim>\<open>queue.rs\<close>. The last sections treat the blocking operation \<^verbatim>\<open>add_notify_wait_pop\<close>, the
  layout of a queue in its pages, and the constructor.
\<close>

section \<open>The abstract queue\<close>

type_synonym request = "u16 \<times> (u64 \<times> u32 \<times> u16) list"

record avq =
  requests :: "request list"
  completed :: "(u16 \<times> u32) list"

datatype vq_label = Submit "descriptor list" u16 | Complete u16 u32 | Take u16 u32 | Suppress

inductive avq_step :: "avq \<Rightarrow> vq_label \<Rightarrow> avq \<Rightarrow> bool" where
  submit: "tok \<notin> fst ` set (requests a) \<Longrightarrow>
     avq_step a (Submit data tok) (a\<lparr>requests := requests a @ [(tok, map payload data)]\<rparr>)"
| complete: "tok \<in> fst ` set (requests a) \<Longrightarrow> tok \<notin> fst ` set (completed a) \<Longrightarrow>
     avq_step a (Complete tok len) (a\<lparr>completed := completed a @ [(tok, len)]\<rparr>)"
| take: "completed a = (tok, len) # rest \<Longrightarrow>
     avq_step a (Take tok len)
       (a\<lparr>requests := filter (\<lambda>r. fst r \<noteq> tok) (requests a), completed := rest\<rparr>)"
| suppress: "avq_step a Suppress a"

section \<open>The driver and the device on the shared rings\<close>

type_synonym vq_state = "virtio_queue \<times> u16 list list"

definition completions :: "nat \<Rightarrow> virtio_queue \<Rightarrow> (u16 \<times> u32) list" where
  "completions N q =
     map (\<lambda>p. (ucast (ue_id (entry_at N q p)), ue_len (entry_at N q p))) (pending q)"

definition abs_vq :: "nat \<Rightarrow> vq_state \<Rightarrow> avq" where
  "abs_vq N s =
     (case s of (q, cs) \<Rightarrow>
        \<lparr>requests = map (\<lambda>c. (hd c, map (\<lambda>i. payload (table q ! unat i)) c)) cs,
         completed = completions N q\<rparr>)"

inductive vq_step :: "nat \<Rightarrow> vq_state \<Rightarrow> vq_label \<Rightarrow> vq_state \<Rightarrow> bool" for N where
  vq_submit: "chain_flags data \<Longrightarrow> VirtIoQueue_add N data q = (Ok tok, q') \<Longrightarrow>
     vq_step N (q, cs) (Submit data tok) (q', cs @ [new_chain data q])"
| vq_complete: "c \<in> set cs \<Longrightarrow> hd c \<notin> fst ` set (completions N q) \<Longrightarrow>
     vq_step N (q, cs) (Complete (hd c) len) (device_complete N (hd c) len q, cs)"
| vq_take: "VirtIoQueue_peek_used N q = Some (hd c) \<Longrightarrow> c \<in> set cs \<Longrightarrow>
     VirtIoQueue_pop_used N (hd c) q = (Ok len, q') \<Longrightarrow>
     vq_step N (q, cs) (Take (hd c) len) (q', remove1 c cs)"
| vq_suppress: "vq_step N (q, cs) Suppress (set_used ((used q)\<lparr>u_flags := f, avail_event := e\<rparr>) q, cs)"

inductive vq_reach :: "nat \<Rightarrow> vq_state \<Rightarrow> vq_label list \<Rightarrow> vq_state \<Rightarrow> bool" for N where
  reach_nil: "vq_reach N s [] s"
| reach_step: "vq_reach N s ls t \<Longrightarrow> vq_step N t l u \<Longrightarrow> vq_reach N s (ls @ [l]) u"

inductive avq_run :: "avq \<Rightarrow> vq_label list \<Rightarrow> avq \<Rightarrow> bool" where
  run_nil: "avq_run a [] a"
| run_step: "avq_run a ls b \<Longrightarrow> avq_step b l c \<Longrightarrow> avq_run a (ls @ [l]) c"

definition vq_inorder :: "nat \<Rightarrow> vq_state \<Rightarrow> bool" where
  "vq_inorder N s \<longleftrightarrow> vq_inv N (fst s) (snd s) \<and> poped_used (fst s) = {}"

section \<open>Vocabulary for the blocking operation\<close>

text \<open>No request is in flight: every descriptor is free.\<close>

definition quiet :: "nat \<Rightarrow> virtio_queue \<Rightarrow> bool" where
  "quiet N q \<longleftrightarrow> vq_inv N q [] \<and> poped_used q = {}"

text \<open>
  What the device does while the driver polls: at poll \<open>j\<close> it has reported nothing, or at poll
  \<open>k\<close> it reports the chain \<open>tok\<close> with \<open>len\<close> bytes written, and nothing before.
\<close>

definition device_idle :: "'d platform \<Rightarrow> virtio_queue \<times> 'd world \<Rightarrow> nat \<Rightarrow> bool" where
  "device_idle P s j \<longleftrightarrow>
     u_idx (used (fst ((device_step P ^^ j) s))) = u_idx (used (fst s))"

definition device_serves ::
  "'d platform \<Rightarrow> nat \<Rightarrow> virtio_queue \<times> 'd world \<Rightarrow> u16 \<Rightarrow> nat \<Rightarrow> u32 \<Rightarrow> bool" where
  "device_serves P N s tok k len \<longleftrightarrow>
     (\<forall>j < k. device_idle P s j) \<and>
     (let u = used (fst s); u' = used (fst ((device_step P ^^ k) s))
      in u_idx u' = u_idx u + 1 \<and>
         u_ring u' = (u_ring u)[unat (u_idx u) mod N := \<lparr>ue_id = ucast tok, ue_len = len\<rparr>])"

text \<open>
  What the embedding system promises of the memory for queues of size \<open>N\<close>: whole, non-null
  pages below 16 TiB whose typed view has arrays of the queue's size and zeroed indices.
\<close>

definition queue_page_ok :: "nat \<Rightarrow> queue_page \<Rightarrow> bool" where
  "queue_page_ok N page \<longleftrightarrow>
     (let r = queue_ref_mut page (QueueLayout_new N)
      in queue_place_ok (of_nat N) (pg_paddr page) \<and>
         length (descriptor_table r) = N \<and> length (a_ring (the_avail_ring r)) = N \<and>
         length (u_ring (the_used_ring r)) = N \<and>
         a_idx (the_avail_ring r) = 0 \<and> u_idx (the_used_ring r) = 0)"

definition hal_queue_ok :: "'d platform \<Rightarrow> nat \<Rightarrow> bool" where
  "hal_queue_ok P N \<longleftrightarrow> (\<forall>n d. queue_page_ok N (fst (dma_alloc (hal P) n d)))"

text \<open>The part of the operation before the wait.\<close>

definition submitted ::
  "'d transport \<Rightarrow> nat \<Rightarrow> descriptor list \<Rightarrow> virtio_queue \<times> 'd world \<Rightarrow>
    u16 \<Rightarrow> virtio_queue \<times> 'd world \<Rightarrow> bool" where
  "submitted T N data s tok t \<longleftrightarrow>
     VirtIoQueue_add N data (fst s) = (Ok tok, fst t) \<and>
     (if should_notify (fst t) then t_notify T (queue_idx (fst t)) (snd s) = (Ok (), snd t)
      else snd t = snd s)"

text \<open>The descriptors the device finds from a head, following at most \<open>n\<close> links.\<close>

fun chain_of :: "nat \<Rightarrow> descriptor list \<Rightarrow> u16 \<Rightarrow> descriptor list" where
  "chain_of 0 t h = []"
| "chain_of (Suc n) t h =
     (let d = t ! unat h
      in d # (if and (d_flags d) NEXT \<noteq> 0 then chain_of n t (d_next d) else []))"

section \<open>Completions\<close>

lemma chain_distinct_heads:
  assumes "vq_inv N q cs" shows "inj_on hd (set cs)"
  using assms distinct_hd_chains [of cs "table q"] by (auto simp: vq_inv_def inj_on_def)

lemma pending_ids:
  assumes "vq_inv N q cs" and "p \<in> set (pending q)"
  obtains c where "c \<in> set cs" and "ue_id (entry_at N q p) = ucast (hd c)"
  using assms unfolding vq_inv_def by blast

lemma completions_heads:
  assumes "vq_inv N q cs"
  shows "h \<in> fst ` set (completions N q) \<longleftrightarrow>
    ucast h \<in> (\<lambda>p. ue_id (entry_at N q p)) ` set (pending q)"
proof -
  have "h = ucast (ue_id (entry_at N q p)) \<longleftrightarrow> ucast h = ue_id (entry_at N q p)"
    if "p \<in> set (pending q)" for p
    using assms that by (auto elim!: pending_ids)
  then show ?thesis
    unfolding completions_def by (simp add: image_image) (auto simp: image_iff)
qed

lemma in_order_positions:
  assumes "poped_used q = {}"
  shows "pending q = positions q"
  using assms by (simp add: pending_def)

lemma peek_used_eq:
  "VirtIoQueue_peek_used N q =
     (case positions q of [] \<Rightarrow> None | p # _ \<Rightarrow> Some (ucast (ue_id (entry_at N q p))))"
  by (cases "last_seen_used q = u_idx (used q)")
    (auto simp: VirtIoQueue_peek_used_def span_Cons entry_at_def)

lemma peek_used_chain:
  assumes inv: "vq_inv N q cs" "poped_used q = {}" and peek: "VirtIoQueue_peek_used N q = Some tok"
  shows "\<exists>c \<in> set cs. hd c = tok" and "used_position N q tok = Some (last_seen_used q)"
    and "completions N q = (tok, ue_len (entry_at N q (last_seen_used q))) # tl (completions N q)"
proof -
  have ne: "last_seen_used q \<noteq> u_idx (used q)"
    using peek by (auto simp: VirtIoQueue_peek_used_def)
  then have pos: "positions q = last_seen_used q # span (last_seen_used q + 1) (u_idx (used q))"
    by (rule span_Cons)
  then have "last_seen_used q \<in> set (pending q)"
    using inv(2) by (simp add: in_order_positions)
  then obtain c where c: "c \<in> set cs" "ue_id (entry_at N q (last_seen_used q)) = ucast (hd c)"
    using inv(1) by (metis pending_ids)
  then have tok: "tok = hd c"
    using peek pos by (simp add: peek_used_eq)
  then show "\<exists>c \<in> set cs. hd c = tok"
    using c by auto
  show "used_position N q tok = Some (last_seen_used q)"
    using tok c pos by (simp add: used_position_def)
  show "completions N q = (tok, ue_len (entry_at N q (last_seen_used q))) # tl (completions N q)"
    using pos tok c inv(2) by (simp add: completions_def in_order_positions)
qed

section \<open>The contract of a virtqueue\<close>

locale virtqueue =
  fixes inv :: "'q \<Rightarrow> 't list list \<Rightarrow> bool"
    and free :: "'q \<Rightarrow> 't list"
    and add :: "'d list \<Rightarrow> ('q, 'e, 't) prog"
    and peek :: "'q \<Rightarrow> 't option"
    and pop :: "'t \<Rightarrow> ('q, 'e, 'l) prog"
    and ok :: "'d list \<Rightarrow> bool"
  assumes add_law: "inv q cs \<Longrightarrow> ok data \<Longrightarrow> length data \<le> length (free q) \<Longrightarrow>
      \<exists>q'. add data q = (Ok (hd (rev (take (length data) (free q)))), q') \<and>
        inv q' (cs @ [rev (take (length data) (free q))]) \<and> free q' = drop (length data) (free q)"
    and peek_law: "inv q1 cs \<Longrightarrow> peek q1 = Some t \<Longrightarrow> \<exists>c \<in> set cs. hd c = t"
    and pop_law: "inv q2 cs \<Longrightarrow> c \<in> set cs \<Longrightarrow> peek q2 = Some (hd c) \<Longrightarrow>
      \<exists>len q'. pop (hd c) q2 = (Ok len, q') \<and> inv q' (remove1 c cs) \<and> free q' = free q2 @ c"
begin

lemma add_single:
  assumes "inv q cs" and "ok [d]" and "free q = t # ts"
  shows "\<exists>q'. add [d] q = (Ok t, q') \<and> inv q' (cs @ [[t]]) \<and> free q' = ts"
  using add_law [OF assms(1,2)] assms(3) by simp

text \<open>
  A client that keeps every buffer with the device: it takes the next completed buffer and
  submits it again. The buffer comes back under the same token.
\<close>

lemma recycle:
  assumes inv: "inv q cs" and idle: "free q = []" and single: "\<forall>c \<in> set cs. length c = 1"
    and peek: "peek q = Some t" and ok: "ok [d]"
  shows "\<exists>len q1 q2. pop t q = (Ok len, q1) \<and> add [d] q1 = (Ok t, q2) \<and>
    inv q2 (remove1 [t] cs @ [[t]]) \<and> free q2 = [] \<and> [t] \<in> set cs"
proof -
  obtain c where c: "c \<in> set cs" "hd c = t"
    using peek_law [OF inv peek] by auto
  then have ct: "c = [t]"
    using single by (metis One_nat_def length_Suc_conv length_0_conv list.sel(1))
  then obtain len q1 where q1: "pop t q = (Ok len, q1)" "inv q1 (remove1 [t] cs)" "free q1 = [t]"
    using pop_law [OF inv c(1)] peek idle by auto
  then show ?thesis
    using add_single [OF q1(2) ok q1(3)] c ct by auto
qed

end

interpretation vq: virtqueue "\<lambda>q cs. vq_inv N q cs \<and> poped_used q = {}" avail_desc_index
  "VirtIoQueue_add N" "VirtIoQueue_peek_used N" "VirtIoQueue_pop_used N" chain_flags for N
proof (unfold_locales, goal_cases)
  case (1 q cs data)
  obtain r q' where run: "VirtIoQueue_add N data q = (r, q')"
    by (cases "VirtIoQueue_add N data q")
  then show ?case
    using VirtIoQueue_add_chain [OF _ 1(2,3) run] VirtIoQueue_add_inv [OF _ 1(2,3) run] 1(1)
    by (auto simp: new_chain_def)
next
  case (2 q cs t)
  then show ?case
    using peek_used_chain(1) by blast
next
  case (3 q cs c)
  obtain r q' where run: "VirtIoQueue_pop_used N (hd c) q = (r, q')"
    by (cases "VirtIoQueue_pop_used N (hd c) q")
  have pos: "used_position N q (hd c) = Some (last_seen_used q)"
    using 3 peek_used_chain(2) by blast
  show ?case
    using VirtIoQueue_pop_used_inv [OF _ 3(2) pos _ run] 3(1) run by auto
qed

section \<open>The rings implement the abstract queue\<close>

inductive_cases vq_stepE: "vq_step N s l t"

lemma submit_room:
  assumes "VirtIoQueue_add N data q = (Ok tok, q')"
  shows "length data \<le> length (avail_desc_index q)"
  using assms by (auto simp: VirtIoQueue_add_def split: if_splits)

lemma vq_step_inorder:
  assumes "vq_step N s l t" and "vq_inorder N s"
  shows "vq_inorder N t"
  using assms
proof (cases rule: vq_step.cases)
  case (vq_submit data q tok q' cs)
  then have inv: "vq_inv N q cs" "poped_used q = {}"
    using assms(2) by (simp_all add: vq_inorder_def)
  note room = submit_room [OF vq_submit(5)]
  show ?thesis
    using VirtIoQueue_add_inv [OF inv(1) vq_submit(4) room vq_submit(5)]
      VirtIoQueue_add_chain(5) [OF inv(1) vq_submit(4) room vq_submit(5)] inv(2) vq_submit(3)
    by (simp add: vq_inorder_def)
next
  case (vq_complete c cs q len)
  then have inv: "vq_inv N q cs" "poped_used q = {}"
    using assms(2) by (simp_all add: vq_inorder_def)
  have new: "ucast (hd c) \<notin> (\<lambda>p. ue_id (entry_at N q p)) ` set (pending q)"
    using vq_complete(5) completions_heads [OF inv(1)] by simp
  show ?thesis
    using device_complete_inv(1) [OF inv(1) device_complete_room [OF inv vq_complete(4) new]
        vq_complete(4) new] inv(2) vq_complete(3)
    by (simp add: vq_inorder_def device_complete_def)
next
  case (vq_take q c cs len q')
  then have inv: "vq_inv N q cs" "poped_used q = {}"
    using assms(2) by (simp_all add: vq_inorder_def)
  show ?thesis
    using vq.pop_law [of N q cs c] inv vq_take by (auto simp: vq_inorder_def)
next
  case (vq_suppress q cs f e)
  then show ?thesis
    using assms(2)
    by (auto simp: vq_inorder_def vq_inv_def vq_wf_def pending_def entry_at_def)
qed

lemma payload_frame:
  assumes "\<And>i :: u16. i \<in> \<Union> (set ` set cs) \<Longrightarrow> t' ! unat i = t ! unat i"
  shows "map (\<lambda>c. (hd c, map (\<lambda>i. payload (t' ! unat i)) c)) cs =
    map (\<lambda>c. (hd c, map (\<lambda>i. payload (t ! unat i)) c)) cs"
proof -
  have "t' ! unat i = t ! unat i" if "c \<in> set cs" "i \<in> set c" for c i
    using assms that by blast
  then show ?thesis
    by simp
qed

lemma submit_simulates:
  assumes inv: "vq_inv N q cs" and fl: "chain_flags data"
    and run: "VirtIoQueue_add N data q = (Ok tok, q')"
  shows "avq_step (abs_vq N (q, cs)) (Submit data tok) (abs_vq N (q', cs @ [new_chain data q]))"
proof -
  note room = submit_room [OF run]
  note add = VirtIoQueue_add_chain [OF inv fl room run]
  let ?c = "new_chain data q"
  have tok: "tok = hd ?c"
    using add(1) by simp
  have ne: "?c \<noteq> []"
    using add(9) chain_linked_nonempty by blast
  have disj: "set ?c \<inter> \<Union> (set ` set cs) = {}"
    using inv by (auto simp: vq_inv_def new_chain_def dest: in_set_takeD)
  have fresh: "tok \<notin> fst ` set (requests (abs_vq N (q, cs)))"
  proof
    assume "tok \<in> fst ` set (requests (abs_vq N (q, cs)))"
    then obtain c where c: "c \<in> set cs" "hd c = hd ?c"
      using tok by (auto simp: abs_vq_def)
    then have "hd c \<in> set c"
      using vq_inv_chain(1) [OF inv] chain_linked_nonempty hd_in_set by blast
    then show False
      using disj c hd_in_set [OF ne] by auto
  qed
  have "requests (abs_vq N (q', cs @ [?c])) =
      requests (abs_vq N (q, cs)) @ [(tok, map payload data)]"
    using payload_frame [of cs "table q'" "table q"] add(10,11) disj tok
    by (auto simp: abs_vq_def)
  moreover have "completions N q' = completions N q"
    using entry_at_cong [OF add(3), of N] pending_cong [OF add(3,4,5)]
    by (simp add: completions_def)
  ultimately have "abs_vq N (q', cs @ [?c]) =
      (abs_vq N (q, cs))\<lparr>requests := requests (abs_vq N (q, cs)) @ [(tok, map payload data)]\<rparr>"
    by (simp add: abs_vq_def)
  then show ?thesis
    using avq_step.submit [OF fresh, of data] by simp
qed

lemma complete_simulates:
  assumes inv: "vq_inv N q cs" "poped_used q = {}" and c: "c \<in> set cs"
    and new: "hd c \<notin> fst ` set (completions N q)"
  shows "avq_step (abs_vq N (q, cs)) (Complete (hd c) len)
    (abs_vq N (device_complete N (hd c) len q, cs))"
proof -
  have new': "ucast (hd c) \<notin> (\<lambda>p. ue_id (entry_at N q p)) ` set (pending q)"
    using new completions_heads [OF inv(1)] by simp
  note dc = device_complete_inv [OF inv(1) device_complete_room [OF inv c new'] c new', where len = len]
  have "set (pending q) \<subseteq> set (positions q)"
    by (auto simp: pending_def)
  then have "completions N (device_complete N (hd c) len q) = completions N q @ [(hd c, len)]"
    using dc(2-4) by (auto simp: completions_def)
  moreover have "table (device_complete N (hd c) len q) = table q"
    by (simp add: device_complete_def)
  ultimately have eq: "abs_vq N (device_complete N (hd c) len q, cs) =
      (abs_vq N (q, cs))\<lparr>completed := completed (abs_vq N (q, cs)) @ [(hd c, len)]\<rparr>"
    by (simp add: abs_vq_def)
  have "hd c \<in> fst ` set (requests (abs_vq N (q, cs)))"
    "hd c \<notin> fst ` set (completed (abs_vq N (q, cs)))"
    using c new by (force simp: abs_vq_def)+
  then show ?thesis
    unfolding eq by (rule avq_step.complete)
qed

lemma remove1_filter_hd:
  assumes "distinct cs" and "inj_on hd (set cs)" and "c \<in> set cs"
  shows "remove1 c cs = filter (\<lambda>x. hd x \<noteq> hd c) cs"
proof -
  have "remove1 c cs = filter (\<lambda>x. x \<noteq> c) cs"
    using assms(1) by (simp add: distinct_remove1_removeAll removeAll_filter_not_eq) (metis (lifting))
  also have "\<dots> = filter (\<lambda>x. hd x \<noteq> hd c) cs"
    using assms(2,3) by (intro filter_cong) (auto simp: inj_on_def)
  finally show ?thesis .
qed

lemma take_simulates:
  assumes inv: "vq_inv N q cs" "poped_used q = {}" and c: "c \<in> set cs"
    and peek: "VirtIoQueue_peek_used N q = Some (hd c)"
    and run: "VirtIoQueue_pop_used N (hd c) q = (Ok len, q')"
  shows "avq_step (abs_vq N (q, cs)) (Take (hd c) len) (abs_vq N (q', remove1 c cs))"
proof -
  note pk = peek_used_chain [OF inv peek]
  have "last_seen_used q \<notin> poped_used q"
    using inv(2) by simp
  note pop = VirtIoQueue_pop_used_inv [OF inv(1) c pk(2) this run]
  have len: "len = ue_len (entry_at N q (last_seen_used q))"
    using pop(1) by simp
  have pend: "pending q = last_seen_used q # tl (pending q)"
    using peek inv(2)
    by (auto simp: in_order_positions span_Cons VirtIoQueue_peek_used_def split: if_splits)
  have "pending q' = tl (pending q)"
    using pop(8) pend by (metis remove1.simps(2))
  then have "completions N q' = tl (completions N q)"
    using entry_at_cong [OF pop(5), of N] by (simp add: completions_def map_tl)
  moreover have "[] \<notin> set cs"
    using vq_inv_chain(1) [OF inv(1)] by (metis chain_linked.simps(1))
  then have "distinct cs"
    using inv(1) by (simp add: vq_inv_def distinct_concat_iff removeAll_id)
  ultimately have "abs_vq N (q', remove1 c cs) =
      (abs_vq N (q, cs))\<lparr>requests := filter (\<lambda>r. fst r \<noteq> hd c) (requests (abs_vq N (q, cs))),
        completed := tl (completions N q)\<rparr>"
    using remove1_filter_hd [OF _ chain_distinct_heads [OF inv(1)] c] pop(4)
    by (simp add: abs_vq_def filter_map comp_def)
  then show ?thesis
    using avq_step.take [of "abs_vq N (q, cs)" "hd c" len "tl (completions N q)"] pk(3) len
    by (simp add: abs_vq_def)
qed

lemma vq_step_simulates:
  assumes "vq_step N s l t" and "vq_inorder N s"
  shows "avq_step (abs_vq N s) l (abs_vq N t)"
  using assms
proof (cases rule: vq_step.cases)
  case (vq_suppress q cs f e)
  then have "abs_vq N t = abs_vq N s"
    by (simp add: abs_vq_def completions_def pending_def entry_at_def)
  then show ?thesis
    using vq_suppress by (simp add: avq_step.suppress)
qed (use submit_simulates complete_simulates take_simulates in \<open>auto simp: vq_inorder_def\<close>)

lemma vq_reach_simulates:
  assumes "vq_reach N s ls t" and "vq_inorder N s"
  shows "vq_inorder N t \<and> avq_run (abs_vq N s) ls (abs_vq N t)"
  using assms
proof (induction rule: vq_reach.induct)
  case (reach_nil s)
  then show ?case by (simp add: avq_run.run_nil)
next
  case (reach_step s ls t l u)
  then show ?case
    using vq_step_inorder vq_step_simulates avq_run.run_step by blast
qed

section \<open>Submit, notify, wait, complete\<close>

lemma wait_condition:
  "bind (on_q (VirtIoQueue_can_pop N tok)) (\<lambda>b. ret (\<not> b)) =
     gets (\<lambda>(q, w). used_position N q tok = None)"
  by (rule ext) (auto simp: bind_def on_q_def zoom_def VirtIoQueue_can_pop_eq)

lemma device_step_fst: "\<exists>u. fst (device_step P s) = set_used u (fst s)"
  by (cases s) (auto simp: device_step_def split: prod.splits)

lemma device_steps_fst: "\<exists>u. fst ((device_step P ^^ j) s) = set_used u (fst s)"
proof (induction j)
  case 0
  show ?case
    by (rule exI [of _ "used (fst s)"]) simp
next
  case (Suc j)
  then show ?case
    using device_step_fst [of P "(device_step P ^^ j) s"] by auto
qed

lemma quiet_empty:
  assumes "quiet N q"
  shows "u_idx (used q) = last_seen_used q" and "length (avail_desc_index q) = N"
proof -
  have "length (positions q) = 0"
    using assms window_counts [of N q "[]"] by (simp add: quiet_def)
  then have "positions q = []"
    by (simp only: length_0_conv)
  then show "u_idx (used q) = last_seen_used q"
    by (simp add: span_empty_iff)
  show "length (avail_desc_index q) = N"
    using assms vq_inv_count [of N q "[]"] by (simp add: quiet_def)
qed

text \<open>
  After a request on a quiet queue: its chain is the only one in flight, the used window is
  empty, and the token is the head of the chain.
\<close>

lemma quiet_add:
  assumes q: "quiet N q" and fl: "chain_flags data" and room: "length data \<le> N"
  obtains tok q1 where "VirtIoQueue_add N data q = (Ok tok, q1)"
    and "tok = hd (new_chain data q)" and "vq_inv N q1 [new_chain data q]"
    and "poped_used q1 = {}" and "u_idx (used q1) = last_seen_used q1"
    and "queue_idx q1 = queue_idx q" and "used q1 = used q"
proof -
  have inv: "vq_inv N q []" and len: "length data \<le> length (avail_desc_index q)"
    using q room quiet_empty(2) [OF q] by (simp_all add: quiet_def)
  obtain r q1 where run: "VirtIoQueue_add N data q = (r, q1)"
    by (cases "VirtIoQueue_add N data q")
  note add = VirtIoQueue_add_chain [OF inv fl len run]
  show ?thesis
    using that [of "hd (new_chain data q)" q1] run add(1,3,4,5,6)
      VirtIoQueue_add_inv [OF inv fl len run] quiet_empty(1) [OF q] q
    by (simp add: quiet_def)
qed

text \<open>The flags and the event index of the used ring play no part in the invariant.\<close>

lemma used_ring_cong:
  assumes "u_idx u = u_idx u'" and "u_ring u = u_ring u'"
  shows "vq_inv N (set_used u q) cs = vq_inv N (set_used u' q) cs"
    and "used_position N (set_used u q) tok = used_position N (set_used u' q) tok"
    and "entry_at N (set_used u q) p = entry_at N (set_used u' q) p"
  using assms
  by (simp_all add: vq_inv_def vq_wf_def pending_def entry_at_def used_position_def)

lemma pop_single:
  assumes inv: "vq_inv N q [c]" "poped_used q = {}" "u_idx (used q) = last_seen_used q"
    and u: "u_idx u = u_idx (used q) + 1"
      "u_ring u = (u_ring (used q))[unat (u_idx (used q)) mod N :=
         \<lparr>ue_id = ucast (hd c), ue_len = len\<rparr>]"
  shows "used_position N (set_used u q) (hd c) \<noteq> None"
    and "\<exists>q'. VirtIoQueue_pop_used N (hd c) (set_used u q) = (Ok len, q') \<and> quiet N q' \<and>
      queue_idx q' = queue_idx q"
proof -
  define q' where "q' = set_used u q"
  have pend: "pending q = []"
    using inv(3) by (simp add: pending_def)
  then have new: "ucast (hd c) \<notin> (\<lambda>p. ue_id (entry_at N q p)) ` set (pending q)"
    by simp
  have c: "c \<in> set [c]"
    by simp
  note dc = device_complete_inv [OF inv(1) device_complete_room [OF inv(1,2) c new] c new,
      where len = len]
  define u' where "u' = used (device_complete N (hd c) len q)"
  have u': "device_complete N (hd c) len q = set_used u' q"
    "u_idx u = u_idx u'" "u_ring u = u_ring u'"
    using u by (simp_all add: u'_def device_complete_def)
  note same = used_ring_cong [OF u'(2,3)]
  have inv': "vq_inv N q' [c]"
    using dc(1) same(1) u'(1) by (simp only: q'_def)
  have ent: "entry_at N q' (last_seen_used q) = \<lparr>ue_id = ucast (hd c), ue_len = len\<rparr>"
    using dc(4) same(3) u'(1) inv(3) by (simp only: q'_def)
  have pos: "used_position N q' (hd c) = Some (last_seen_used q)"
    using ent u(1) inv(3) by (simp add: used_position_def q'_def span_Cons)
  then show "used_position N (set_used u q) (hd c) \<noteq> None"
    by (simp add: q'_def)
  have empty: "poped_used q' = {}" "last_seen_used q' = last_seen_used q"
    using inv(2) by (simp_all add: q'_def)
  obtain r q2 where run: "VirtIoQueue_pop_used N (hd c) q' = (r, q2)"
    by (cases "VirtIoQueue_pop_used N (hd c) q'")
  have "last_seen_used q \<notin> poped_used q'"
    using empty by simp
  note pop = VirtIoQueue_pop_used_inv [OF inv' c pos this run]
  show "\<exists>q'. VirtIoQueue_pop_used N (hd c) (set_used u q) = (Ok len, q') \<and> quiet N q' \<and>
      queue_idx q' = queue_idx q"
    using run pop(1,2,6) pop(7) ent empty by (auto simp: q'_def quiet_def)
qed

lemma zoom_on:
  "on_q m (q, w) = (fst (m q), (snd (m q), w))"
  "on_w n (q, w) = (fst (n w), (q, snd (n w)))"
  by (simp_all add: on_q_def on_w_def zoom_def split: prod.splits)

lemma add_notify_wait_pop_submitted:
  assumes "submitted T N data s tok t"
  shows "VirtIoQueue_add_notify_wait_pop P T N data s =
    andthen (while_prog (gets (\<lambda>(q, w). used_position N q tok = None)) (device_step P))
      (on_q (VirtIoQueue_pop_used N tok)) t"
proof -
  obtain q w q1 w1 where st: "s = (q, w)" "t = (q1, w1)"
    by (metis surj_pair)
  have "on_q (VirtIoQueue_add N data) (q, w) = (Ok tok, (q1, w))"
    using assms st by (simp add: submitted_def zoom_on)
  moreover have "(if should_notify q1 then on_w (t_notify T (queue_idx q1)) else ret ()) (q1, w) =
      (Ok (), (q1, w1))"
    using assms st by (auto simp: submitted_def zoom_on)
  ultimately show ?thesis
    unfolding VirtIoQueue_add_notify_wait_pop_def wait_condition st
    by (simp add: bind_Ok andthen_def)
qed

lemma add_notify_wait_pop_Ok:
  assumes q: "quiet N (fst s)" and fl: "chain_flags data" and room: "length data \<le> N"
    and sub: "submitted T N data s tok t" and srv: "device_serves P N t tok k len"
  shows "\<exists>q'. VirtIoQueue_add_notify_wait_pop P T N data s =
      (Ok len, (q', snd ((device_step P ^^ k) t))) \<and>
    quiet N q' \<and> queue_idx q' = queue_idx (fst s)"
proof -
  obtain tok' q1 where add: "VirtIoQueue_add N data (fst s) = (Ok tok', q1)"
    "tok' = hd (new_chain data (fst s))" "vq_inv N q1 [new_chain data (fst s)]"
    "poped_used q1 = {}" "u_idx (used q1) = last_seen_used q1" "queue_idx q1 = queue_idx (fst s)"
    using quiet_add [OF q fl room] by metis
  have t: "fst t = q1" "tok = tok'"
    using sub add(1) by (simp_all add: submitted_def)
  let ?f = "\<lambda>j. fst ((device_step P ^^ j) t)"
  obtain u where u: "?f k = set_used u q1"
    using device_steps_fst [of k P t] t by auto
  note pop = pop_single [OF add(3-5), of u len]
  have uk: "u_idx u = u_idx (used q1) + 1"
    "u_ring u = (u_ring (used q1))[unat (u_idx (used q1)) mod N :=
       \<lparr>ue_id = ucast (hd (new_chain data (fst s))), ue_len = len\<rparr>]"
    using srv u t add(2) by (simp_all add: device_serves_def Let_def)
  have idle: "used_position N (?f j) tok = None" if "j < k" for j
  proof -
    obtain v where v: "?f j = set_used v q1"
      using device_steps_fst [of j P t] t by auto
    then have "u_idx v = last_seen_used q1"
      using srv that t add(5) by (auto simp: device_serves_def device_idle_def)
    then show ?thesis
      using v by (simp add: used_position_def)
  qed
  have "while_prog (gets (\<lambda>(q, w). used_position N q tok = None)) (device_step P) t =
      (Ok () :: (virtio_error, unit) outcome, (device_step P ^^ k) t)"
    using idle pop(1) [OF uk] u t add(2) by (intro while_prog_gets_Ok) (auto simp: split_beta)
  moreover obtain q' where "VirtIoQueue_pop_used N tok (?f k) = (Ok len, q')" "quiet N q'"
    "queue_idx q' = queue_idx q1"
    using pop(2) [OF uk] u t add(2) by auto
  ultimately show ?thesis
    using add_notify_wait_pop_submitted [OF sub, where P = P] add(6)
    by (cases "(device_step P ^^ k) t") (simp add: andthen_def bind_Ok zoom_on)
qed

lemma add_notify_wait_pop_Hang:
  assumes q: "quiet N (fst s)" and fl: "chain_flags data" and room: "length data \<le> N"
    and sub: "submitted T N data s tok t" and idle: "\<forall>j. device_idle P t j"
  shows "VirtIoQueue_add_notify_wait_pop P T N data s = (Hang, t)"
proof -
  obtain tok' q1 where add: "VirtIoQueue_add N data (fst s) = (Ok tok', q1)"
    "u_idx (used q1) = last_seen_used q1"
    using quiet_add [OF q fl room] by metis
  have t: "fst t = q1"
    using sub add(1) by (simp add: submitted_def)
  have "used_position N (fst ((device_step P ^^ j) t)) tok = None" for j
  proof -
    obtain v where v: "fst ((device_step P ^^ j) t) = set_used v q1"
      using device_steps_fst [of j P t] t by auto
    then have "u_idx v = last_seen_used q1"
      using idle [rule_format, of j] t add(2) by (simp add: device_idle_def)
    then show ?thesis
      using v by (simp add: used_position_def)
  qed
  then have "while_prog (gets (\<lambda>(q, w). used_position N q tok = None)) (device_step P) t =
      (Hang :: (virtio_error, unit) outcome, t)"
    by (intro while_prog_gets_Hang) (simp add: split_beta)
  then show ?thesis
    using add_notify_wait_pop_submitted [OF sub, where P = P] by (simp add: andthen_def bind_def)
qed

lemma add_notify_wait_pop_QueueFull:
  assumes "data \<noteq> []" and "length (avail_desc_index q) < length data"
  shows "VirtIoQueue_add_notify_wait_pop P T N data (q, w) = (Err QueueFull, (q, w))"
  using assms by (simp add: VirtIoQueue_add_notify_wait_pop_def bind_def zoom_on VirtIoQueue_add_def)

lemma add_notify_wait_pop_notify_Err:
  assumes "VirtIoQueue_add N data q = (Ok tok, q1)" and "should_notify q1"
    and "t_notify T (queue_idx q1) w = (Err e, w1)"
  shows "VirtIoQueue_add_notify_wait_pop P T N data (q, w) = (Err e, (q1, w1))"
  using assms by (simp add: VirtIoQueue_add_notify_wait_pop_def bind_def zoom_on andthen_def)

lemma chain_of_linked:
  assumes "chain_linked t c" and "length c \<le> n"
  shows "chain_of n t (hd c) = map (\<lambda>i. t ! unat i) c"
  using assms
proof (induction t c arbitrary: n rule: chain_linked.induct)
  case (2 t h)
  then show ?case
    by (cases n) simp_all
next
  case (3 t h x xs)
  then show ?case
    by (cases n) simp_all
qed simp

lemma quiet_submit_chain:
  assumes q: "quiet N q" and fl: "chain_flags data" and room: "length data \<le> N"
    and run: "VirtIoQueue_add N data q = (Ok tok, q1)"
  shows "map payload (chain_of N (table q1) tok) = map payload data"
proof -
  have inv: "vq_inv N q []" and len: "length data \<le> length (avail_desc_index q)"
    using q room quiet_empty(2) [OF q] by (simp_all add: quiet_def)
  note add = VirtIoQueue_add_chain [OF inv fl len run]
  have "length (new_chain data q) \<le> N"
    using len room by (simp add: new_chain_def)
  then have "chain_of N (table q1) (hd (new_chain data q)) =
      map (\<lambda>i. table q1 ! unat i) (new_chain data q)"
    using add(9) by (intro chain_of_linked)
  then show ?thesis
    using add(1,10) by (simp add: comp_def)
qed

section \<open>A new queue\<close>

lemma VirtIoQueue_new_parts:
  assumes "VirtIoQueue_new P T N qidx w = (Ok q, w')"
  obtains w1 m w2 page w3 where
    "t_queue_used T qidx w = (Ok False, w1)" and
    "is_power_of_two N" and "N \<le> 65535" and
    "t_max_queue_size T qidx w1 = (Ok m, w2)" and "of_nat N \<le> m" and
    "hal_dma_alloc P (pages (total_size N)) w2 = (Ok page, w3)" and
    "t_queue_set T qidx (of_nat N) (pg_paddr page) (pg_paddr page + AVAIL_RING_OFFSET N)
       (pg_paddr page + USED_RING_OFFSET N) w3 = (Ok (), w')" and
    "q = \<lparr>queue_page = page, queue_ref = queue_ref_mut page (QueueLayout_new N),
      avail_desc_index = map of_nat [0..<N], last_seen_used = 0, poped_used = {},
      queue_idx = qidx\<rparr>"
  using assms
  by (auto simp: VirtIoQueue_new_def prog_Ok_iffs Let_def add_ov_def not_less linorder_not_less
      split: if_splits)

lemma power_of_two_small:
  assumes "is_power_of_two N" and "N \<le> 65535"
  shows "N \<le> 32768"
proof -
  obtain k where k: "N = 2 ^ k"
    using assms(1) is_power_of_two_iff by auto
  have "k \<le> 15"
  proof (rule ccontr)
    assume "\<not> k \<le> 15"
    then have "(2::nat) ^ 16 \<le> 2 ^ k"
      by (intro power_increasing) simp_all
    with k assms(2) show False by simp
  qed
  then have "(2::nat) ^ k \<le> 2 ^ 15"
    by (intro power_increasing) simp_all
  with k show ?thesis by simp
qed

lemma set_of_nat_upt:
  assumes "N \<le> 65536"
  shows "distinct (map of_nat [0..<N] :: u16 list)"
    and "set (map of_nat [0..<N] :: u16 list) = {i. unat i < N}"
proof -
  have "inj_on (of_nat :: nat \<Rightarrow> u16) {0..<N}"
    using assms by (auto simp: inj_on_def word_of_nat_eq_iff take_bit_nat_eq_self)
  then show "distinct (map of_nat [0..<N] :: u16 list)"
    by (simp add: distinct_map)
  show "set (map of_nat [0..<N] :: u16 list) = {i. unat i < N}"
    using assms by (auto simp: unat_of_nat intro!: image_eqI [where x = "unat _"])
qed

lemma hal_dma_alloc_page:
  assumes "hal_dma_alloc P n w = (Ok page, w')" and "hal_queue_ok P N"
  shows "queue_page_ok N page"
  using assms by (auto simp: hal_dma_alloc_def hal_queue_ok_def split: prod.splits) (metis fst_conv)

lemma VirtIoQueue_new_page:
  assumes run: "VirtIoQueue_new P T N qidx w = (Ok q, w')" and ok: "queue_page_ok N (queue_page q)"
  shows "quiet N q" and "queue_idx q = qidx"
proof -
  obtain page where N: "is_power_of_two N" "N \<le> 65535"
    and q: "q = \<lparr>queue_page = page, queue_ref = queue_ref_mut page (QueueLayout_new N),
      avail_desc_index = map of_nat [0..<N], last_seen_used = 0, poped_used = {},
      queue_idx = qidx\<rparr>"
    using run by (rule VirtIoQueue_new_parts)
  have fresh: "length (table q) = N" "length (a_ring (avail q)) = N"
    "length (u_ring (used q)) = N" "a_idx (avail q) = 0" "u_idx (used q) = 0"
    using ok q by (auto simp: queue_page_ok_def Let_def)
  show "queue_idx q = qidx"
    using q by simp
  show "quiet N q"
    using fresh N power_of_two_small [OF N] set_of_nat_upt [of N] q
    by (simp add: quiet_def vq_inv_def vq_wf_def pending_def)
qed

lemma VirtIoQueue_new_quiet:
  assumes run: "VirtIoQueue_new P T N qidx w = (Ok q, w')" and ok: "hal_queue_ok P N"
  shows "quiet N q" and "queue_idx q = qidx"
proof -
  have "queue_page_ok N (queue_page q)"
    using run by (rule VirtIoQueue_new_parts) (use hal_dma_alloc_page [OF _ ok] in simp)
  then show "quiet N q" and "queue_idx q = qidx"
    using VirtIoQueue_new_page [OF run] by simp_all
qed

section \<open>The layout of a queue in its pages\<close>

lemma unat_layout_sizes:
  assumes "N \<le> 32768"
  shows "unat (size_of_Descriptor * of_nat N :: usize) = 16 * N"
    and "unat (size_of_AvailRing N) = 6 + 2 * N"
    and "unat (size_of_UsedRing N) = 8 + 8 * N"
    and "unat (size_of_Descriptor * of_nat N + size_of_AvailRing N) = 18 * N + 6"
  using assms
  by (simp_all add: size_of_Descriptor_def size_of_AvailRing_def size_of_UsedRing_def
      unat_word_ariths unat_of_nat)

lemma page_round_bounds:
  "(x::nat) < (x + 4096) div 4096 * 4096" "(x + 4096) div 4096 * 4096 \<le> x + 4096"
proof -
  have "x + 4096 = (x + 4096) div 4096 * 4096 + (x + 4096) mod 4096"
    by (rule div_mult_mod_eq [symmetric])
  moreover have "(x + 4096) mod 4096 < 4096"
    by simp
  ultimately show "x < (x + 4096) div 4096 * 4096" "(x + 4096) div 4096 * 4096 \<le> x + 4096"
    by linarith+
qed

lemma unat_ring_offsets:
  assumes "N \<le> 32768"
  shows "unat (AVAIL_RING_OFFSET N) = 16 * N"
    and "unat (USED_RING_OFFSET N) = (18 * N + 6 + 4096) div 4096 * 4096"
    and "unat (total_size N) =
      (18 * N + 6 + 4096) div 4096 * 4096 + (8 + 8 * N + 4096) div 4096 * 4096"
proof -
  note sz = unat_layout_sizes [OF assms]
  show "unat (AVAIL_RING_OFFSET N) = 16 * N"
    using sz(1) by (simp add: AVAIL_RING_OFFSET_def)
  have a: "unat (align_up (size_of_Descriptor * of_nat N + size_of_AvailRing N)) =
      (18 * N + 6 + 4096) div 4096 * 4096"
    using unat_align_up [of "size_of_Descriptor * of_nat N + size_of_AvailRing N"] sz(4) assms
    by simp
  have b: "unat (align_up (size_of_UsedRing N)) = (8 + 8 * N + 4096) div 4096 * 4096"
    using unat_align_up [of "size_of_UsedRing N"] sz(3) assms by simp
  show "unat (USED_RING_OFFSET N) = (18 * N + 6 + 4096) div 4096 * 4096"
    using a by (simp add: USED_RING_OFFSET_def)
  have "(18 * N + 6 + 4096) div 4096 * 4096 + (8 + 8 * N + 4096) div 4096 * 4096 < 1000000"
    using page_round_bounds(2) [of "18 * N + 6"] page_round_bounds(2) [of "8 + 8 * N"] assms
    by linarith
  also have "(1000000 :: nat) < 2 ^ LENGTH(64)"
    by simp
  finally show "unat (total_size N) =
      (18 * N + 6 + 4096) div 4096 * 4096 + (8 + 8 * N + 4096) div 4096 * 4096"
    using a b by (simp only: total_size_def unat_word_ariths(1) mod_less)
qed

text \<open>The three areas are disjoint, in order, inside the allocated pages, and aligned.\<close>

lemma queue_layout:
  assumes "N \<le> 32768"
  shows "unat DESCRIPTOR_TABLE_OFFSET + unat size_of_Descriptor * N \<le> unat (AVAIL_RING_OFFSET N)"
    and "unat (AVAIL_RING_OFFSET N) + unat (size_of_AvailRing N) \<le> unat (USED_RING_OFFSET N)"
    and "unat (USED_RING_OFFSET N) + unat (size_of_UsedRing N) \<le>
      unat (pages (total_size N)) * unat PAGE_SIZE"
    and "unat (USED_RING_OFFSET N) mod unat PAGE_SIZE = 0"
proof -
  note off = unat_ring_offsets [OF assms] and sz = unat_layout_sizes [OF assms]
  let ?a = "(18 * N + 6 + 4096) div 4096" and ?b = "(8 + 8 * N + 4096) div 4096"
  show "unat DESCRIPTOR_TABLE_OFFSET + unat size_of_Descriptor * N \<le> unat (AVAIL_RING_OFFSET N)"
    using off(1) by (simp add: DESCRIPTOR_TABLE_OFFSET_def size_of_Descriptor_def)
  show "unat (AVAIL_RING_OFFSET N) + unat (size_of_AvailRing N) \<le> unat (USED_RING_OFFSET N)"
    using off(1,2) sz(2) page_round_bounds(1) [of "18 * N + 6"] by linarith
  have tot: "unat (total_size N) = (?a + ?b) * 4096"
    using off(3) by (simp only: add_mult_distrib)
  have "unat (total_size N) + 4095 < 1000000"
    using off(3) page_round_bounds(2) [of "18 * N + 6"] page_round_bounds(2) [of "8 + 8 * N"] assms
    by linarith
  also have "(1000000 :: nat) < 2 ^ 64"
    by simp
  finally have "unat (pages (total_size N)) = ((?a + ?b) * 4096 + 4095) div 4096"
    using unat_pages tot by simp
  also have "\<dots> = ?a + ?b"
    by (simp only: div_mult_self3)
  finally have pg: "unat (pages (total_size N)) * unat PAGE_SIZE = ?a * 4096 + ?b * 4096"
    by (simp add: PAGE_SIZE_def add_mult_distrib)
  show "unat (USED_RING_OFFSET N) + unat (size_of_UsedRing N) \<le>
      unat (pages (total_size N)) * unat PAGE_SIZE"
    using pg off(2) sz(3) page_round_bounds(1) [of "8 + 8 * N"] by linarith
  show "unat (USED_RING_OFFSET N) mod unat PAGE_SIZE = 0"
    using off(2) by (simp add: PAGE_SIZE_def)
qed

section \<open>What the device sees of a new queue\<close>

lemma hal_dma_alloc_place:
  assumes "hal_dma_alloc P n w = (Ok page, w')" and "hal_queue_ok P N"
  shows "queue_place_ok (of_nat N) (pg_paddr page)"
  using hal_dma_alloc_page [OF assms] by (simp add: queue_page_ok_def Let_def)

lemma hal_dma_alloc_frame: "keeps trace (hal_dma_alloc P n)" "keeps mem (hal_dma_alloc P n)"
  by (auto simp: keeps_def hal_dma_alloc_def split: prod.splits)

context transport_contract
begin

lemma quiet_config:
  assumes "keeps trace m"
  shows "keeps view m" and "keeps ready m"
proof -
  have "view (snd (m s)) = view s \<and> (ready (snd (m s)) \<longleftrightarrow> ready s)" for s
    using assms config_frame [of "snd (m s)" s "[]"] by (simp add: keeps_def)
  then show "keeps view m" and "keeps ready m"
    by (simp_all add: keeps_def)
qed

text \<open>
  A new queue is the one the device has been told about: same size, and the three areas at the
  addresses the queue uses.
\<close>

lemma VirtIoQueue_new_view:
  assumes run: "VirtIoQueue_new P T N qidx w = (Ok q, w')" and rdy: "ready w"
    and ok: "hal_queue_ok P N"
  shows "view w' = (view w)\<lparr>v_queues := (v_queues (view w))(qidx \<mapsto>
      \<lparr>qc_size = of_nat N, qc_desc = pg_paddr (queue_page q),
       qc_driver = pg_paddr (queue_page q) + AVAIL_RING_OFFSET N,
       qc_device = pg_paddr (queue_page q) + USED_RING_OFFSET N\<rparr>)\<rparr>"
    and "ready w'"
proof -
  obtain w1 m w2 page w3 where
    used: "t_queue_used T qidx w = (Ok False, w1)" and
    max: "t_max_queue_size T qidx w1 = (Ok m, w2)" and
    al: "hal_dma_alloc P (pages (total_size N)) w2 = (Ok page, w3)" and
    qs: "t_queue_set T qidx (of_nat N) (pg_paddr page) (pg_paddr page + AVAIL_RING_OFFSET N)
       (pg_paddr page + USED_RING_OFFSET N) w3 = (Ok (), w')" and
    q: "q = \<lparr>queue_page = page, queue_ref = queue_ref_mut page (QueueLayout_new N),
      avail_desc_index = map of_nat [0..<N], last_seen_used = 0, poped_used = {},
      queue_idx = qidx\<rparr>"
    using run by (rule VirtIoQueue_new_parts)
  have "view w3 = view w" "ready w3"
    using queue_used_view [OF used] max_size_view [OF max] rdy
      keepsD [OF quiet_config(1) [OF hal_dma_alloc_frame(1)] al]
      keepsD [OF quiet_config(2) [OF hal_dma_alloc_frame(1)] al] by simp_all
  then show "view w' = (view w)\<lparr>v_queues := (v_queues (view w))(qidx \<mapsto>
      \<lparr>qc_size = of_nat N, qc_desc = pg_paddr (queue_page q),
       qc_driver = pg_paddr (queue_page q) + AVAIL_RING_OFFSET N,
       qc_device = pg_paddr (queue_page q) + USED_RING_OFFSET N\<rparr>)\<rparr>" and "ready w'"
    using queue_set_Ok [OF qs _ hal_dma_alloc_place [OF al ok]] q by simp_all
qed

lemma VirtIoQueue_new_status: "keeps (\<lambda>w. v_status (view w)) (VirtIoQueue_new P T N qidx)"
proof -
  have "keeps (\<lambda>w. v_status (view w)) (t_queue_used T qidx)"
    "keeps (\<lambda>w. v_status (view w)) (t_max_queue_size T qidx)"
    "keeps (\<lambda>w. v_status (view w)) (hal_dma_alloc P n)"
    "keeps (\<lambda>w. v_status (view w)) (t_queue_set T qidx sz d a u)" for n sz d a u
    by (rule keepsI, simp add: queue_used_view max_size_view status_frame(3)
        keepsD [OF quiet_config(1) [OF hal_dma_alloc_frame(1)]])+
  then show ?thesis
    by (simp add: VirtIoQueue_new_def Let_def keeps_rules)
qed

lemma submitted_mem:
  assumes "submitted T N data s tok t"
  shows "mem (snd t) = mem (snd s)"
  using assms memory_frame(9) [of "queue_idx (fst t)"]
  by (auto simp: submitted_def split: if_splits elim: emitsE)

lemma config_keeps:
  assumes "emits config_access m"
  shows "keeps view m" and "keeps ready m"
proof -
  have "view (snd (m s)) = view s \<and> (ready (snd (m s)) \<longleftrightarrow> ready s)" for s
  proof -
    obtain evs where "trace (snd (m s)) = trace s @ evs" "list_all config_access evs"
      using assms by (auto simp: emits_def)
    then show ?thesis
      by (rule config_frame)
  qed
  then show "keeps view m" and "keeps ready m"
    by (simp_all add: keeps_def)
qed

lemma config_read_keeps:
  "keeps view (io_read_u32 P off)" "keeps ready (io_read_u32 P off)"
  "keeps view (io_read_u8 P off)" "keeps ready (io_read_u8 P off)"
  by (rule config_keeps, rule emits_io, simp)+

lemma VirtIoQueue_new_emits: "emits (\<lambda>_. True) (VirtIoQueue_new P T N qidx)"
  unfolding VirtIoQueue_new_def Let_def add_ov_def
  by (intro emits_rules memory_frame)

end

end
