(* ===== verification/Bytes.thy ===== *)
theory Bytes
  imports Hal
begin

text \<open>
  Little-endian byte images of machine integers, as \<^verbatim>\<open>repr(C)\<close> structures have them in memory on
  the target, and the reads and writes of the driver's own objects through the address
  translation of the platform.
\<close>

section \<open>Definitions\<close>

definition le_bytes :: "nat \<Rightarrow> 'n::len word \<Rightarrow> u8 list" where
  "le_bytes n x = map (\<lambda>i. ucast (drop_bit (8 * i) x)) [0..<n]"

fun of_le_bytes :: "u8 list \<Rightarrow> 'n::len word" where
  "of_le_bytes [] = 0"
| "of_le_bytes (b # bs) = or (ucast b) (push_bit 8 (of_le_bytes bs))"

text \<open>
  The bytes at \<open>n\<close> addresses from \<open>va\<close> are translated to distinct physical addresses.
\<close>

definition mapped :: "'d platform \<Rightarrow> usize \<Rightarrow> nat \<Rightarrow> bool" where
  "mapped P va n \<longleftrightarrow> inj_on (\<lambda>i. to_paddr (hal P) (va + of_nat i)) {..<n}"

definition phys :: "'d platform \<Rightarrow> usize \<Rightarrow> nat \<Rightarrow> usize set" where
  "phys P va n = (\<lambda>i. to_paddr (hal P) (va + of_nat i)) ` {..<n}"

text \<open>
  Physical memory as the device reads and writes it, and objects that are contiguous there.
\<close>

definition phys_bytes :: "memory \<Rightarrow> usize \<Rightarrow> nat \<Rightarrow> u8 list" where
  "phys_bytes m a n = map (\<lambda>i. m (a + of_nat i)) [0..<n]"

definition write_phys :: "memory \<Rightarrow> usize \<Rightarrow> u8 list \<Rightarrow> memory" where
  "write_phys m a bs = (\<lambda>p. if unat (p - a) < length bs then bs ! unat (p - a) else m p)"

definition contiguous :: "'d platform \<Rightarrow> usize \<Rightarrow> nat \<Rightarrow> bool" where
  "contiguous P va n \<longleftrightarrow>
     n < 2 ^ 64 \<and> (\<forall>i < n. to_paddr (hal P) (va + of_nat i) = to_paddr (hal P) va + of_nat i)"

section \<open>Encoding and decoding\<close>

lemma length_le_bytes [simp]: "length (le_bytes n x) = n"
  by (simp add: le_bytes_def)

lemma le_bytes_0 [simp]: "le_bytes 0 x = []"
  by (simp add: le_bytes_def)

lemma le_bytes_Suc: "le_bytes (Suc n) x = ucast x # le_bytes n (drop_bit 8 x)"
  by (simp add: le_bytes_def upt_conv_Cons map_Suc_upt [symmetric] comp_def add.commute
      del: upt_Suc)

lemma of_le_bytes_le_bytes:
  "of_le_bytes (le_bytes n (x :: 'n::len word)) = take_bit (8 * n) x"
proof (induction n arbitrary: x)
  case 0
  then show ?case by simp
next
  case (Suc n)
  have "of_le_bytes (le_bytes (Suc n) x) =
      or (ucast (ucast x :: u8)) (push_bit 8 (take_bit (8 * n) (drop_bit 8 x)))"
    by (simp add: le_bytes_Suc Suc.IH)
  also have "\<dots> = take_bit (8 * Suc n) x"
    by (rule bit_eqI) (auto simp: bit_simps)
  finally show ?case .
qed

lemma of_le_bytes_exact:
  "LENGTH('n::len) \<le> 8 * n \<Longrightarrow> of_le_bytes (le_bytes n (x :: 'n word)) = x"
  by (simp add: of_le_bytes_le_bytes take_bit_word_eq_self)

section \<open>Objects of the driver in memory\<close>

lemma load_bytes_length [simp]: "length (load_bytes P va n m) = n"
  by (simp add: load_bytes_def)

lemma load_bytes_Suc:
  "load_bytes P va (Suc n) m = m (to_paddr (hal P) va) # load_bytes P (va + 1) n m"
  by (simp add: load_bytes_def upt_conv_Cons map_Suc_upt [symmetric] comp_def add.assoc
      del: upt_Suc)

lemma store_bytes_other:
  "p \<notin> phys P va (length bs) \<Longrightarrow> store_bytes P va bs m p = m p"
proof (induction bs arbitrary: va m)
  case (Cons b bs)
  have split: "phys P va (Suc (length bs)) =
      insert (to_paddr (hal P) va) (phys P (va + 1) (length bs))"
    by (auto simp: phys_def lessThan_Suc_eq_insert_0 image_image add.assoc)
  show ?case
    using Cons.prems Cons.IH [of "va + 1"] by (simp add: split)
qed simp

lemma load_bytes_cong:
  "(\<And>p. p \<in> phys P va n \<Longrightarrow> m p = m' p) \<Longrightarrow> load_bytes P va n m = load_bytes P va n m'"
  by (auto simp: load_bytes_def phys_def)

lemma load_store_bytes:
  "mapped P va (length bs) \<Longrightarrow> load_bytes P va (length bs) (store_bytes P va bs m) = bs"
proof (induction bs arbitrary: va m)
  case Nil
  then show ?case by (simp add: load_bytes_def)
next
  case (Cons b bs)
  have inj: "inj_on (\<lambda>i. to_paddr (hal P) (va + of_nat i)) (insert 0 (Suc ` {..<length bs}))"
    using Cons.prems by (simp add: mapped_def lessThan_Suc_eq_insert_0)
  then have "inj_on ((\<lambda>i. to_paddr (hal P) (va + of_nat i)) \<circ> Suc) {..<length bs}"
    by (intro comp_inj_on) (auto intro: inj_on_subset)
  then have rest: "mapped P (va + 1) (length bs)"
    by (simp add: mapped_def comp_def add.assoc)
  have "to_paddr (hal P) va \<notin> phys P (va + 1) (length bs)"
    using inj by (auto simp: phys_def inj_on_def add.assoc)
  then show ?case
    using Cons.IH [OF rest] by (simp add: load_bytes_Suc store_bytes_other)
qed

section \<open>Contiguous objects\<close>

lemma contiguous_load:
  assumes "contiguous P va n"
  shows "load_bytes P va n m = phys_bytes m (to_paddr (hal P) va) n"
  using assms by (simp add: contiguous_def load_bytes_def phys_bytes_def)

lemma contiguous_mapped:
  assumes "contiguous P va n"
  shows "mapped P va n"
proof -
  have "i = j" if "i < n" "j < n" "of_nat i = (of_nat j :: usize)" for i j
  proof -
    have "unat (of_nat i :: usize) = unat (of_nat j :: usize)"
      using that by simp
    moreover have "i < 2 ^ LENGTH(64)" "j < 2 ^ LENGTH(64)"
      using that assms by (auto simp: contiguous_def)
    ultimately show ?thesis
      by (simp only: unat_of_nat_small)
  qed
  then show ?thesis
    using assms by (auto simp: mapped_def inj_on_def contiguous_def)
qed

lemma phys_bytes_write_phys:
  assumes "length bs < 2 ^ 64"
  shows "phys_bytes (write_phys m a bs) a (length bs) = bs"
  using assms
  by (intro nth_equalityI) (auto simp: phys_bytes_def write_phys_def unat_of_nat)

lemma write_phys_other:
  assumes "p \<notin> (\<lambda>i. a + of_nat i) ` {..<length bs}"
  shows "write_phys m a bs p = m p"
proof -
  have "p = a + of_nat (unat (p - a))"
    by simp
  then have "\<not> unat (p - a) < length bs"
    using assms by blast
  then show ?thesis
    by (simp add: write_phys_def)
qed

lemma phys_bytes_length [simp]: "length (phys_bytes m a n) = n"
  by (simp add: phys_bytes_def)

lemma phys_contiguous:
  assumes "contiguous P va n"
  shows "phys P va n = (\<lambda>i. to_paddr (hal P) va + of_nat i) ` {..<n}"
  using assms by (auto simp: phys_def contiguous_def)

lemma phys_bytes_cong:
  "(\<And>i. i < n \<Longrightarrow> m (a + of_nat i) = m' (a + of_nat i)) \<Longrightarrow> phys_bytes m a n = phys_bytes m' a n"
  by (simp add: phys_bytes_def)

end
