(* ===== verification/Sample.thy ===== *)
theory Sample
  imports VirtQueue Bytes
begin

text \<open>
  A concrete platform on which the theorems of the development can be instantiated: identity
  address translation, zeroed queue pages, registers that accept every write and read as the
  value the parameter \<open>regs\<close> gives, and a device that completes one available chain at each
  step, changing memory and its own state by the parameter \<open>eff\<close>.
\<close>

section \<open>Definitions\<close>

definition zero_queue :: "nat \<Rightarrow> queue_mut_ref" where
  "zero_queue N =
     \<lparr>descriptor_table = replicate N Descriptor_default,
      the_avail_ring = \<lparr>a_flags = 0, a_idx = 0, a_ring = replicate N 0, used_event = 0\<rparr>,
      the_used_ring = \<lparr>u_flags = 0, u_idx = 0,
        u_ring = replicate N \<lparr>ue_id = 0, ue_len = 0\<rparr>, avail_event = 0\<rparr>\<rparr>"

definition sample_page :: queue_page where
  "sample_page =
     \<lparr>pg_paddr = 0x80001000, pg_vaddr = 0x80001000, pg_len = 0x2000,
      queue_ref_mut = (\<lambda>l. zero_queue (unat (avail_ring_offset l) div 16))\<rparr>"

definition sample_io :: "(usize \<Rightarrow> u32) \<Rightarrow> 'd device_io" where
  "sample_io regs =
     \<lparr>read_volatile_u32_at = (\<lambda>off d. (Inr (regs off), d)),
      read_volatile_u8_at = (\<lambda>off d. (Inr (ucast (regs off)), d)),
      write_volatile_u32_at = (\<lambda>off v d. (Inr (), d)),
      write_volatile_u8_at = (\<lambda>off v d. (Inr (), d)),
      io_paddr = 0x10001000, io_vaddr = 0x10001000\<rparr>"

definition sample_hal :: "'d hal" where
  "sample_hal =
     \<lparr>dma_alloc = (\<lambda>n d. (sample_page, d)),
      dma_alloc_buf = (\<lambda>n d. (\<lparr>pg_paddr = 0x80100000, pg_vaddr = 0x80100000, pg_len = n * 4096\<rparr>, d)),
      to_paddr = (\<lambda>a. a)\<rparr>"

definition sample_dma ::
  "u32 \<Rightarrow> ((u64 \<times> u32 \<times> u16) list \<Rightarrow> memory \<times> 'd \<Rightarrow> memory \<times> 'd) \<Rightarrow>
    u16 \<Rightarrow> queue_mut_ref \<Rightarrow> memory \<Rightarrow> 'd \<Rightarrow> used_ring \<times> memory \<times> 'd" where
  "sample_dma len eff idx r m d =
     (let u = the_used_ring r; a = the_avail_ring r; N = length (descriptor_table r)
      in if a_idx a = u_idx u then (u, m, d)
         else let h = a_ring a ! (unat (u_idx u) mod N)
              in (u\<lparr>u_ring := (u_ring u)[unat (u_idx u) mod N := \<lparr>ue_id = ucast h, ue_len = len\<rparr>],
                    u_idx := u_idx u + 1\<rparr>,
                  eff (map payload (chain_of N (descriptor_table r) h)) (m, d)))"

definition sample_st ::
  "(usize \<Rightarrow> u32) \<Rightarrow> u32 \<Rightarrow> ((u64 \<times> u32 \<times> u16) list \<Rightarrow> memory \<times> 'd \<Rightarrow> memory \<times> 'd) \<Rightarrow> 'd platform" where
  "sample_st regs len eff =
     \<lparr>io = sample_io regs, hal = sample_hal, dma = sample_dma len eff, debug = False\<rparr>"

definition on_memory :: "(memory \<Rightarrow> memory) \<Rightarrow> memory \<times> 'd \<Rightarrow> memory \<times> 'd" where
  "on_memory f s = (f (fst s), snd s)"

abbreviation sample ::
  "(usize \<Rightarrow> u32) \<Rightarrow> u32 \<Rightarrow> ((u64 \<times> u32 \<times> u16) list \<Rightarrow> memory \<Rightarrow> memory) \<Rightarrow> 'd platform" where
  "sample regs len eff \<equiv> sample_st regs len (\<lambda>ch. on_memory (eff ch))"

text \<open>Registers of a device with queues of up to 1024 entries and all features.\<close>

definition sample_regs :: "usize \<Rightarrow> u32" where
  "sample_regs off = (if off = 0x34 then 1024 else if off = 0x10 then 0xffffffff else 0)"

definition sample_world :: "unit world" where
  "sample_world = \<lparr>dev = (), mem = (\<lambda>_. 0), trace = []\<rparr>"

definition fresh_queue :: "nat \<Rightarrow> u16 \<Rightarrow> virtio_queue" where
  "fresh_queue N qidx =
     \<lparr>queue_page = sample_page, queue_ref = zero_queue N, avail_desc_index = map of_nat [0..<N],
      last_seen_used = 0, poped_used = {}, queue_idx = qidx\<rparr>"

section \<open>The platform meets the hypotheses\<close>

lemma sample_simps [simp]:
  "to_paddr (hal (sample_st regs len eff)) a = a" "debug (sample_st regs len eff) = False"
  by (simp_all add: sample_st_def sample_hal_def)

lemma sample_io_run [simp]:
  "io_read_u32 (sample_st regs len eff) off w =
     (Ok (regs off), w\<lparr>trace := trace w @ [R32 off (regs off)]\<rparr>)"
  "io_read_u8 (sample_st regs len eff) off w =
     (Ok (ucast (regs off)), w\<lparr>trace := trace w @ [R8 off (ucast (regs off))]\<rparr>)"
  "io_write_u32 (sample_st regs len eff) off v w = (Ok (), w\<lparr>trace := trace w @ [W32 off v]\<rparr>)"
  "io_write_u8 (sample_st regs len eff) off b w = (Ok (), w\<lparr>trace := trace w @ [W8 off b]\<rparr>)"
  "hal_dma_alloc (sample_st regs len eff) n w = (Ok sample_page, w)"
  by (simp_all add: io_read_u32_def io_read_u8_def io_write_u32_def io_write_u8_def
      hal_dma_alloc_def sample_st_def sample_io_def sample_hal_def)

lemma fresh_quiet:
  assumes "is_power_of_two N" and "N \<le> 32768"
  shows "quiet N (fresh_queue N qidx)"
  using assms set_of_nat_upt [of N]
  by (simp add: quiet_def vq_inv_def vq_wf_def pending_def fresh_queue_def zero_queue_def)

lemma fresh_quiet_sizes:
  "quiet 2 (fresh_queue 2 i)" "quiet 4 (fresh_queue 4 i)" "quiet 16 (fresh_queue 16 i)"
  "quiet 32 (fresh_queue 32 i)"
  by (rule fresh_quiet; simp add: is_power_of_two.simps)+

lemma sample_hal_ok:
  assumes "is_power_of_two N" and "N \<le> 32768"
  shows "hal_queue_ok (sample_st regs len eff) N"
proof -
  have "unat (avail_ring_offset (QueueLayout_new N)) = 16 * N"
    using assms by (simp add: QueueLayout_new_def unat_layout_sizes)
  then show ?thesis
    using assms
    by (simp add: hal_queue_ok_def queue_page_ok_def sample_st_def sample_hal_def sample_page_def zero_queue_def
        queue_place_ok_def unat_of_nat)
qed

lemma contiguous_sample: "n < 2 ^ 64 \<Longrightarrow> contiguous (sample_st regs len eff) va n"
  by (simp add: contiguous_def)

text \<open>A request on a quiet queue is completed at the first step of the device.\<close>

lemma sample_serves:
  assumes q: "quiet N (fst s)" and fl: "chain_flags data" and room: "length data \<le> N"
    and sub: "submitted T N data s tok t"
  shows "device_serves (sample_st regs len eff) N t tok 1 len"
    and "(mem (snd ((device_step (sample_st regs len eff) ^^ 1) t)),
        dev (snd ((device_step (sample_st regs len eff) ^^ 1) t))) =
      eff (map payload (chain_of N (table (fst t)) tok)) (mem (snd t), dev (snd t))"
proof -
  have run: "VirtIoQueue_add N data (fst s) = (Ok tok, fst t)"
    using sub by (simp add: submitted_def)
  have inv: "vq_inv N (fst s) []" and len: "length data \<le> length (avail_desc_index (fst s))"
    using q room quiet_empty(2) [OF q] by (simp_all add: quiet_def)
  note add = VirtIoQueue_add_chain [OF inv fl len run]
  have idx: "u_idx (used (fst t)) = a_idx (avail (fst s))"
    using quiet_empty(1) [OF q] inv add(3) q by (simp add: vq_inv_def quiet_def)
  have ring: "length (a_ring (avail (fst s))) = N" "0 < N"
    using inv ring_size.N_pos [OF vq_inv_ring [OF inv]] by (simp_all add: vq_inv_def vq_wf_def)
  have head: "a_ring (avail (fst t)) ! (unat (u_idx (used (fst t))) mod N) = tok"
    "a_idx (avail (fst t)) = u_idx (used (fst t)) + 1"
    using add(1,7) idx ring by (simp_all add: AvailRing_push_def Let_def)
  obtain q1 w1 where t: "t = (q1, w1)"
    by (cases t)
  show "device_serves (sample_st regs len eff) N t tok 1 len"
    using head add(8) t
    by (simp add: device_serves_def device_idle_def device_step_def sample_st_def sample_dma_def
        Let_def split: prod.splits)
  show "(mem (snd ((device_step (sample_st regs len eff) ^^ 1) t)),
        dev (snd ((device_step (sample_st regs len eff) ^^ 1) t))) =
      eff (map payload (chain_of N (table (fst t)) tok)) (mem (snd t), dev (snd t))"
    using head add(8) t
    by (simp add: device_step_def sample_st_def sample_dma_def Let_def split: prod.splits)
qed

lemma sample_serves_mem:
  assumes "quiet N (fst s)" and "chain_flags data" and "length data \<le> N"
    and "submitted T N data s tok t"
  shows "mem (snd ((device_step (sample regs len eff) ^^ 1) t)) =
    eff (map payload (chain_of N (table (fst t)) tok)) (mem (snd t))"
  using sample_serves(2) [OF assms, of regs len "\<lambda>ch. on_memory (eff ch)"]
  by (simp add: on_memory_def)

text \<open>The steps of device initialisation succeed on the sample platform.\<close>

lemma sample_begin_init:
  "\<exists>f w'. begin_init (mmio_transport (sample_st regs len eff) Modern) a b w = (Ok f, w')"
  by (simp add: begin_init_def mmio_transport_def mmio_defs volatile_defs bind_def andthen_def Let_def)

lemma sample_finish_init:
  "\<exists>w'. finish_init (mmio_transport (sample_st regs len eff) Modern) w = (Ok (), w')"
  by (simp add: finish_init_def mmio_transport_def mmio_defs volatile_defs bind_def andthen_def)

lemma sample_notify:
  "\<exists>w'. t_notify (mmio_transport (sample_st regs len eff) Modern) i w = (Ok (), w')"
  by (simp add: mmio_transport_def mmio_defs volatile_defs)

lemma sample_new_queue:
  assumes "is_power_of_two N" and "N \<le> 1024" and "regs 0x34 = 1024" and "regs 0x44 = 0"
  shows "\<exists>w'. VirtIoQueue_new (sample_st regs len eff) (mmio_transport (sample_st regs len eff) Modern)
    N i w = (Ok (fresh_queue N i), w')"
proof -
  have "unat (avail_ring_offset (QueueLayout_new N)) = 16 * N"
    using assms by (simp add: QueueLayout_new_def unat_layout_sizes)
  moreover have "\<not> 1024 < (of_nat N :: u32)"
    using assms(2) by (simp add: word_less_nat_alt unat_of_nat)
  ultimately show ?thesis
    using assms
    by (simp add: VirtIoQueue_new_def mmio_transport_def mmio_defs volatile_defs bind_def
        andthen_def add_ov_def Let_def fresh_queue_def sample_page_def)
qed

lemma sample_read_array:
  "\<exists>bs w'. ReadOnly_read_array (sample_st regs len eff) off n w = (Ok bs, w')"
proof -
  have "\<exists>bs w'. read_array_loop (sample_st regs len eff) off is res w = (Ok bs, w')" for "is" res w
    by (induction "is" arbitrary: res w) (simp_all add: bind_def)
  then show ?thesis
    by (simp add: ReadOnly_read_array_def)
qed

lemma sample_submits:
  assumes "quiet N q" and "chain_flags ds" and "length ds \<le> N"
  shows "\<exists>tok t. submitted (mmio_transport (sample_st regs len eff) Modern) N ds (q, w) tok t"
proof -
  obtain tok q1 where "VirtIoQueue_add N ds q = (Ok tok, q1)"
    using quiet_add [OF assms] by metis
  then show ?thesis
    using sample_notify [of regs len eff "queue_idx q1" w]
    by (cases "should_notify q1") (auto simp: submitted_def)
qed

lemma sample_phys_disjoint:
  assumes "unat a + n \<le> unat b" and "unat b + m \<le> 2 ^ 64"
  shows "phys (sample_st regs len eff) a n \<inter> phys (sample_st regs len eff) b m = {}"
proof -
  have "a + of_nat i \<noteq> b + of_nat j" if "i < n" "j < m" for i j
  proof -
    have j: "unat b + j < 18446744073709551616" and i: "unat a + i < 18446744073709551616"
      using that assms by simp_all
    have "unat (b + of_nat j) = unat b + j"
      using j by (simp add: unat_word_ariths unat_of_nat)
    moreover have "unat (a + of_nat i) = unat a + i"
      using i by (simp add: unat_word_ariths unat_of_nat)
    ultimately have "unat (a + of_nat i) < unat (b + of_nat j)"
      using that(1) assms(1) by simp
    then show ?thesis
      by auto
  qed
  then show ?thesis
    by (auto simp: phys_def)
qed

end
