(* ===== verification/QueueProps.thy ===== *)
theory QueueProps
  imports Sample
begin

text \<open>
  The properties of the virtqueue: what each operation does, the ownership invariant under any
  interleaving of driver and device, refinement of the abstract queue, the blocking operation,
  the memory layout, and the hazard of taking completions out of order.
\<close>

section \<open>Instances for the witnesses\<close>

definition buf1 :: descriptor where
  "buf1 = \<lparr>d_addr = 0x1000, d_len = 16, d_flags = NEXT, d_next = 0\<rparr>"

definition buf2 :: descriptor where
  "buf2 = \<lparr>d_addr = 0x2000, d_len = 512, d_flags = WRITE, d_next = 0\<rparr>"

lemma sample_chain_flags: "chain_flags [buf1, buf2]" "chain_flags [buf2]"
  by (simp_all add: chain_flags_def buf1_def buf2_def NEXT_def WRITE_def)

section \<open>Operations\<close>

text \<open>
  C3: Adding a request to a queue that satisfies the invariant and has enough free descriptors
  succeeds, returns the head of a new chain, keeps the invariant with that chain in flight,
  makes the device find exactly the given buffers in the given order, and publishes the head in
  the next slot of the available ring.
\<close>

theorem add_publishes_chain:
  assumes "vq_inv N q cs" and "chain_flags data"
    and "length data \<le> length (avail_desc_index q)"
  shows "\<exists>q'. VirtIoQueue_add N data q = (Ok (hd (new_chain data q)), q') \<and>
    vq_inv N q' (cs @ [new_chain data q]) \<and>
    map payload (chain_of N (table q') (hd (new_chain data q))) = map payload data \<and>
    a_ring (avail q') ! (unat (a_idx (avail q)) mod N) = hd (new_chain data q) \<and>
    a_idx (avail q') = a_idx (avail q) + 1"
proof -
  obtain r q' where run: "VirtIoQueue_add N data q = (r, q')"
    by (cases "VirtIoQueue_add N data q")
  note add = VirtIoQueue_add_chain [OF assms run]
  have "length (new_chain data q) \<le> N"
    using assms(3) vq_inv_count [OF assms(1)] by (simp add: new_chain_def)
  then have "map payload (chain_of N (table q') (hd (new_chain data q))) = map payload data"
    using chain_of_linked [OF add(9)] add(10) by (simp add: comp_def)
  moreover have "length (a_ring (avail q)) = N" "0 < N"
    using assms(1) ring_size.N_pos [OF vq_inv_ring [OF assms(1)]]
    by (simp_all add: vq_inv_def vq_wf_def)
  ultimately show ?thesis
    using run add(1,7) VirtIoQueue_add_inv [OF assms run] by (simp add: AvailRing_push_def Let_def)
qed

theorem add_publishes_chain_witness:
  "\<exists>q'. VirtIoQueue_add 4 [buf1, buf2] (fresh_queue 4 0) = (Ok 1, q') \<and> vq_inv 4 q' [[1, 0]]"
proof -
  have "vq_inv 4 (fresh_queue 4 0) []"
    using fresh_quiet_sizes(2) by (simp add: quiet_def)
  moreover have "new_chain [buf1, buf2] (fresh_queue 4 0) = [1, 0]"
    by (simp add: new_chain_def fresh_queue_def upt_rec)
  moreover have "length [buf1, buf2] \<le> length (avail_desc_index (fresh_queue 4 0))"
    by (simp add: fresh_queue_def)
  ultimately show ?thesis
    using add_publishes_chain [of 4 "fresh_queue 4 0" "[]" "[buf1, buf2]"] sample_chain_flags
    by auto
qed

text \<open>
  A request is refused with QueueFull exactly when it has more buffers than there are free
  descriptors, and a refusal changes nothing.
\<close>

theorem add_refused_iff_full:
  assumes "vq_inv N q cs" and "chain_flags data"
  shows "(fst (VirtIoQueue_add N data q) = Err QueueFull \<longleftrightarrow> available_desc q < length data) \<and>
    (available_desc q < length data \<longrightarrow> snd (VirtIoQueue_add N data q) = q)"
proof (cases "available_desc q < length data")
  case True
  then show ?thesis
    using assms(2) by (simp add: VirtIoQueue_add_def available_desc_def chain_flags_def)
next
  case False
  then have room: "length data \<le> length (avail_desc_index q)"
    by (simp add: available_desc_def)
  obtain r q' where run: "VirtIoQueue_add N data q = (r, q')"
    by (cases "VirtIoQueue_add N data q")
  show ?thesis
    using VirtIoQueue_add_chain(1) [OF assms room run] run False by simp
qed

theorem add_refused_iff_full_witness:
  "fst (VirtIoQueue_add 2 [buf1, buf1, buf2] (fresh_queue 2 0)) = Err QueueFull"
proof -
  have "vq_inv 2 (fresh_queue 2 0) []"
    using fresh_quiet_sizes(1) by (simp add: quiet_def)
  moreover have "chain_flags [buf1, buf1, buf2]"
    by (simp add: chain_flags_def buf1_def buf2_def NEXT_def WRITE_def)
  ultimately show ?thesis
    using add_refused_iff_full [of 2 "fresh_queue 2 0" "[]" "[buf1, buf1, buf2]"]
    by (simp add: available_desc_def fresh_queue_def)
qed

text \<open>
  C2: Taking a completed chain returns the length the device reported, gives exactly the chain's
  descriptors back and keeps the invariant, whatever the order in which completions are taken,
  provided the entry found for the token has not been taken before.
\<close>

theorem pop_returns_descriptors:
  assumes "vq_inv N q cs" and "c \<in> set cs"
    and "used_position N q (hd c) = Some p" and "p \<notin> poped_used q"
  shows "\<exists>q'. VirtIoQueue_pop_used N (hd c) q = (Ok (ue_len (entry_at N q p)), q') \<and>
    vq_inv N q' (remove1 c cs) \<and> avail_desc_index q' = avail_desc_index q @ c \<and>
    pending q' = remove1 p (pending q)"
proof -
  obtain r q' where run: "VirtIoQueue_pop_used N (hd c) q = (r, q')"
    by (cases "VirtIoQueue_pop_used N (hd c) q")
  show ?thesis
    using VirtIoQueue_pop_used_inv [OF assms run] run by auto
qed

text \<open>A queue of two entries with both chains in flight and completed, the second one first.\<close>

definition busy_queue :: virtio_queue where
  "busy_queue =
     device_complete 2 0 5 (device_complete 2 1 7
       (snd (VirtIoQueue_add 2 [buf2] (snd (VirtIoQueue_add 2 [buf2] (fresh_queue 2 0))))))"

lemma busy_queue_inv: "vq_inv 2 busy_queue [[0], [1]]"
proof -
  obtain q1 where q1: "VirtIoQueue_add 2 [buf2] (fresh_queue 2 0) = (Ok 0, q1)"
    "vq_inv 2 q1 [[0]] \<and> poped_used q1 = {}" "avail_desc_index q1 = [1]"
    using vq.add_single [of 2 "fresh_queue 2 0" "[]" buf2 0 "[1]"] fresh_quiet_sizes(1)
      sample_chain_flags(2) by (auto simp: quiet_def fresh_queue_def upt_rec)
  obtain q2 where q2: "VirtIoQueue_add 2 [buf2] q1 = (Ok 1, q2)"
    "vq_inv 2 q2 [[0], [1]]" "poped_used q2 = {}"
    using vq.add_single [OF q1(2) sample_chain_flags(2) q1(3)] by auto
  have "used q2 = used (fresh_queue 2 0)" "last_seen_used q2 = 0"
    using q1(1) q2(1) by (auto simp: VirtIoQueue_add_def bind_def fresh_queue_def upt_rec Let_def
        split: if_splits option.splits)
  then have none: "pending q2 = []"
    by (simp add: pending_def fresh_queue_def zero_queue_def)
  let ?q3 = "device_complete 2 1 7 q2"
  have n2: "ucast (hd [1 :: u16]) \<notin> (\<lambda>p. ue_id (entry_at 2 q2 p)) ` set (pending q2)"
    using none by simp
  note c3 = device_complete_inv [OF q2(2) device_complete_room [OF q2(2,3) _ n2] _ n2, where len = 7]
  have q3: "vq_inv 2 ?q3 [[0], [1]]" "poped_used ?q3 = {}"
    using c3(1) q2(3) by (simp_all add: device_complete_def)
  have n3: "ucast (hd [0 :: u16]) \<notin> (\<lambda>p. ue_id (entry_at 2 ?q3 p)) ` set (pending ?q3)"
    using c3(2,4) none by simp
  have "vq_inv 2 (device_complete 2 0 5 ?q3) [[0], [1]]"
    using device_complete_inv(1) [OF q3(1) device_complete_room [OF q3 _ n3] _ n3, where len = 5]
    by simp
  then show ?thesis
    using q1(1) q2(1) by (simp add: busy_queue_def)
qed

lemma busy_queue_used: "used_position 2 busy_queue 0 = Some 1" "poped_used busy_queue = {}"
  by code_simp+

theorem pop_returns_descriptors_witness:
  "\<exists>q'. VirtIoQueue_pop_used 2 0 busy_queue = (Ok 5, q') \<and> vq_inv 2 q' [[1]]"
proof -
  have "ue_len (entry_at 2 busy_queue 1) = 5"
    by code_simp
  then show ?thesis
    using pop_returns_descriptors [OF busy_queue_inv, of "[0]" 1] busy_queue_used by auto
qed

section \<open>Any interleaving of driver and device\<close>

text \<open>
  C1: Whatever the interleaving of submissions, completions by the device, and completions taken
  in the order of the used ring, the rings in shared memory behave as the abstract queue: every
  run of theirs is a run of the abstract queue under the abstraction, and the ownership
  invariant holds at its end.
\<close>

theorem rings_refine_queue:
  assumes "vq_inorder N s" and "vq_reach N s ls t"
  shows "avq_run (abs_vq N s) ls (abs_vq N t) \<and> vq_inorder N t"
  using vq_reach_simulates [OF assms(2,1)] by simp

lemma fresh_inorder: "vq_inorder 2 (fresh_queue 2 0, [])"
  using fresh_quiet_sizes(1) [of 0] by (simp add: vq_inorder_def quiet_def)

lemma reach_one_request:
  "\<exists>q'. vq_reach 2 (fresh_queue 2 0, []) [Submit [buf2] 0, Complete 0 9]
     (device_complete 2 0 9 q', [[0]]) \<and> VirtIoQueue_peek_used 2 (device_complete 2 0 9 q') = Some 0"
proof -
  let ?q = "fresh_queue 2 0"
  have new: "new_chain [buf2] ?q = [0]"
    by (simp add: new_chain_def fresh_queue_def upt_rec)
  obtain q' where q': "VirtIoQueue_add 2 [buf2] ?q = (Ok 0, q')"
    "used q' = used ?q" "last_seen_used q' = 0" "poped_used q' = {}"
    by (simp add: VirtIoQueue_add_def bind_def fresh_queue_def upt_rec Let_def zero_queue_def)
  have "vq_step 2 (?q, []) (Submit [buf2] 0) (q', [[0]])"
    using vq_submit [OF sample_chain_flags(2) q'(1), of "[]"] new by simp
  moreover have "completions 2 q' = []"
    using q' by (simp add: completions_def pending_def fresh_queue_def zero_queue_def)
  then have "vq_step 2 (q', [[0]]) (Complete 0 9) (device_complete 2 0 9 q', [[0]])"
    using vq_complete [of "[0]" "[[0]]" 2 q' 9] by simp
  ultimately have "vq_reach 2 (?q, []) [Submit [buf2] 0, Complete 0 9]
      (device_complete 2 0 9 q', [[0]])"
    using reach_step [OF reach_step [OF reach_nil]] by fastforce
  moreover have "VirtIoQueue_peek_used 2 (device_complete 2 0 9 q') = Some 0"
    using q' by (simp add: VirtIoQueue_peek_used_def device_complete_def fresh_queue_def
        zero_queue_def)
  ultimately show ?thesis
    by blast
qed

theorem rings_refine_queue_witness:
  "\<exists>t. avq_run \<lparr>requests = [], completed = []\<rparr> [Submit [buf2] 0, Complete 0 9] (abs_vq 2 t) \<and>
     vq_inorder 2 t"
proof -
  have "abs_vq 2 (fresh_queue 2 0, []) = \<lparr>requests = [], completed = []\<rparr>"
    by (simp add: abs_vq_def completions_def pending_def fresh_queue_def zero_queue_def)
  then show ?thesis
    using reach_one_request rings_refine_queue [OF fresh_inorder] by metis
qed



text \<open>
  C7: In every reachable state the completion that \<^verbatim>\<open>peek_used\<close> announces can be taken:
  \<^verbatim>\<open>pop_used\<close> neither fails, nor panics, nor loops, and returns the length of the oldest
  completion.
\<close>

theorem announced_completion_taken:
  assumes "vq_inorder N s" and "vq_reach N s ls (q, cs)"
    and "VirtIoQueue_peek_used N q = Some tok"
  shows "\<exists>len q'. VirtIoQueue_pop_used N tok q = (Ok len, q') \<and>
    completions N q = (tok, len) # completions N q'"
proof -
  have inv: "vq_inv N q cs" "poped_used q = {}"
    using vq_reach_simulates [OF assms(2,1)] by (simp_all add: vq_inorder_def)
  obtain c where c: "c \<in> set cs" "hd c = tok"
    using peek_used_chain(1) [OF inv assms(3)] by auto
  then obtain len q' where run: "VirtIoQueue_pop_used N tok q = (Ok len, q')"
    using vq.pop_law [of N q cs c] inv assms(3) by auto
  have "avq_step (abs_vq N (q, cs)) (Take tok len) (abs_vq N (q', remove1 c cs))"
    using take_simulates [OF inv c(1)] c(2) assms(3) run by simp
  then have "completions N q = (tok, len) # completions N q'"
    by (cases rule: avq_step.cases) (simp add: abs_vq_def)
  with run show ?thesis
    by blast
qed

theorem announced_completion_taken_witness:
  "\<exists>q len q'. VirtIoQueue_pop_used 2 0 q = (Ok len, q') \<and> completions 2 q = (0, len) # completions 2 q'"
  using reach_one_request announced_completion_taken [OF fresh_inorder] by blast

section \<open>The blocking operation\<close>

text \<open>
  C8: On a queue with no other request in flight, \<^verbatim>\<open>add_notify_wait_pop\<close> returns as soon as the
  device has reported the request: if the device is idle for \<open>k\<close> polls and then reports the
  chain with \<open>len\<close> bytes, the operation returns \<open>len\<close>, and leaves all descriptors free.
\<close>

theorem blocking_request_returns:
  assumes "quiet N q" and "chain_flags data" and "length data \<le> N"
    and "submitted T N data (q, w) tok t" and "device_serves P N t tok k len"
  shows "\<exists>q'. VirtIoQueue_add_notify_wait_pop P T N data (q, w) =
      (Ok len, (q', snd ((device_step P ^^ k) t))) \<and> quiet N q' \<and> available_desc q' = N"
proof -
  obtain q' where "VirtIoQueue_add_notify_wait_pop P T N data (q, w) =
      (Ok len, (q', snd ((device_step P ^^ k) t)))" "quiet N q'"
    using add_notify_wait_pop_Ok [OF _ assms(2-5)] assms(1) by auto
  then show ?thesis
    using quiet_empty(2) [of N q'] by (simp add: available_desc_def)
qed

text \<open>The state in which the driver begins to wait, on the sample platform.\<close>

definition sample_waiting :: "virtio_queue \<times> unit world" where
  "sample_waiting =
     (snd (VirtIoQueue_add 4 [buf1, buf2] (fresh_queue 4 0)),
      sample_world\<lparr>trace := [W32 0x50 0]\<rparr>)"

abbreviation sample_mmio :: "unit transport" where
  "sample_mmio \<equiv> mmio_transport (sample sample_regs 9 (\<lambda>_ m. m)) Modern"

lemma sample_submitted:
  "submitted sample_mmio 4 [buf1, buf2] (fresh_queue 4 0, sample_world) 1 sample_waiting"
proof -
  obtain q1 where add: "VirtIoQueue_add 4 [buf1, buf2] (fresh_queue 4 0) = (Ok 1, q1)"
    "used q1 = used (fresh_queue 4 0)" "queue_idx q1 = 0"
    by (simp add: VirtIoQueue_add_def bind_def fresh_queue_def upt_rec Let_def zero_queue_def)
  then show ?thesis
    by (simp add: submitted_def sample_waiting_def should_notify_def fresh_queue_def zero_queue_def
        mmio_transport_def MmioTransport_notify_def volatile_defs sample_world_def)
qed

theorem blocking_request_returns_witness:
  "\<exists>q' w'. VirtIoQueue_add_notify_wait_pop (sample sample_regs 9 (\<lambda>_ m. m)) sample_mmio 4
     [buf1, buf2] (fresh_queue 4 0, sample_world) = (Ok 9, (q', w')) \<and> available_desc q' = 4"
proof -
  have "device_serves (sample sample_regs 9 (\<lambda>_ m. m)) 4 sample_waiting 1 1 9"
    using sample_serves(1) [OF _ sample_chain_flags(1) _ sample_submitted] fresh_quiet_sizes(2)
    by simp
  then show ?thesis
    using blocking_request_returns [OF fresh_quiet_sizes(2) sample_chain_flags(1) _ sample_submitted]
    by fastforce
qed

text \<open>
  C16: The wait is a busy loop without a time limit: if the device never reports anything, the
  operation never returns. Together with the previous property: it returns exactly when the
  device completes the request.
\<close>

theorem blocking_request_hangs:
  assumes "quiet N q" and "chain_flags data" and "length data \<le> N"
    and "submitted T N data (q, w) tok t" and "\<forall>j. device_idle P t j"
  shows "VirtIoQueue_add_notify_wait_pop P T N data (q, w) = (Hang, t)"
  using add_notify_wait_pop_Hang [OF _ assms(2-5)] assms(1) by simp

definition dead_platform :: "unit platform" where
  "dead_platform = (sample sample_regs 9 (\<lambda>_ m. m))\<lparr>dma := (\<lambda>_ r m d. (the_used_ring r, m, d))\<rparr>"

lemma dead_idle: "device_idle dead_platform t j"
proof -
  have "device_step dead_platform s = s" for s
    by (cases s) (simp add: device_step_def dead_platform_def)
  then have "(device_step dead_platform ^^ j) t = t"
    by (induction j) simp_all
  then show ?thesis
    by (simp add: device_idle_def)
qed

theorem blocking_request_hangs_witness:
  "VirtIoQueue_add_notify_wait_pop dead_platform sample_mmio 4 [buf1, buf2]
     (fresh_queue 4 0, sample_world) = (Hang, sample_waiting)"
  using blocking_request_hangs [OF fresh_quiet_sizes(2) sample_chain_flags(1) _ sample_submitted]
    dead_idle by simp blast

section \<open>Memory layout and construction\<close>

text \<open>
  C12: For every size the driver accepts, the descriptor table, the available ring and the used
  ring lie one after the other without overlap, inside the pages requested from the platform,
  with the used ring on a page boundary; and the layout used to view the memory is the one
  announced to the device.
\<close>

theorem queue_areas_disjoint:
  assumes "is_power_of_two N" and "N \<le> 65535"
  shows "unat DESCRIPTOR_TABLE_OFFSET + unat size_of_Descriptor * N \<le> unat (AVAIL_RING_OFFSET N) \<and>
    unat (AVAIL_RING_OFFSET N) + unat (size_of_AvailRing N) \<le> unat (USED_RING_OFFSET N) \<and>
    unat (USED_RING_OFFSET N) + unat (size_of_UsedRing N) \<le>
      unat (pages (total_size N)) * unat PAGE_SIZE \<and>
    unat (USED_RING_OFFSET N) mod unat PAGE_SIZE = 0 \<and>
    QueueLayout_new N = \<lparr>descriptor_table_offset = DESCRIPTOR_TABLE_OFFSET,
      avail_ring_offset = AVAIL_RING_OFFSET N, used_ring_offset = USED_RING_OFFSET N\<rparr>"
  using queue_layout [OF power_of_two_small [OF assms]]
  by (simp add: QueueLayout_new_def DESCRIPTOR_TABLE_OFFSET_def AVAIL_RING_OFFSET_def
      USED_RING_OFFSET_def)

theorem queue_areas_disjoint_witness:
  "unat (AVAIL_RING_OFFSET 16) + unat (size_of_AvailRing 16) \<le> unat (USED_RING_OFFSET 16)"
  using queue_areas_disjoint [of 16] by (simp add: is_power_of_two.simps)



section \<open>Completions taken out of order\<close>

text \<open>
  Completions have to be taken in order. On a queue of two entries, after the newer of two
  completions has been taken first, its used entry stays in the window; a new request gets the
  same token, and \<^verbatim>\<open>can_pop\<close> and \<^verbatim>\<open>pop_used\<close> then report it as completed although the device has
  never completed it.
\<close>

theorem out_of_order_stale_token:
  "let q0 = snd (VirtIoQueue_add 2 [buf2] (snd (VirtIoQueue_add 2 [buf2] (fresh_queue 2 0))));
       q1 = device_complete 2 1 7 (device_complete 2 0 5 q0);
       q2 = snd (VirtIoQueue_pop_used 2 1 q1);
       (r, q3) = VirtIoQueue_add 2 [buf2] q2
   in r = Ok 1 \<and> used q3 = used q1 \<and>
      fst (VirtIoQueue_can_pop 2 1 q3) = Ok True \<and> fst (VirtIoQueue_pop_used 2 1 q3) = Ok 7"
  by code_simp

end
