(* ===== verification/TransportProps.thy ===== *)
theory TransportProps
  imports Sample
begin

text \<open>
  The properties of the transport layer: device discovery, feature negotiation and its order of
  register writes, queue configuration in the legacy and the modern register layout, interrupt
  acknowledgement, device types, and the page arithmetic of \<^verbatim>\<open>lib.rs\<close>.
\<close>


abbreviation sample_platform :: "unit platform" where
  "sample_platform \<equiv> sample sample_regs 9 (\<lambda>_ m. m)"



text \<open>
  C11: Over MMIO, legacy or modern, configuring a queue at a page below 16 TiB makes the device
  see exactly the size and the three addresses given, and leaves every other queue, the status
  and the features as they were; unsetting it removes it again and touches nothing else.
\<close>

theorem queue_set_unset:
  assumes "MmioTransport_queue_set P ver q sz desc drv dvc w = (Ok u, w1)"
    and "mmio_ready ver w" and "queue_place_ok sz desc"
    and "MmioTransport_queue_unset P ver q w1 = (Ok u', w2)"
  shows "mmio_view ver w1 = (mmio_view ver w)\<lparr>v_queues := (v_queues (mmio_view ver w))(q \<mapsto>
      \<lparr>qc_size = sz, qc_desc = desc, qc_driver = drv, qc_device = dvc\<rparr>)\<rparr> \<and>
    mmio_view ver w2 = (mmio_view ver w)\<lparr>v_queues := (v_queues (mmio_view ver w))(q := None)\<rparr>"
  using mmio_queue_set_law [OF assms(1-3)] mmio.queue_unset_Ok [of P ver q w1 u' w2] assms(4)
  by (simp add: mmio_transport_def)

lemma sample_queue_set:
  "\<exists>w1 w2. MmioTransport_queue_set sample_platform Modern 3 16 0x80001000 0x80001100 0x80002000
      sample_world = (Ok (), w1) \<and>
    MmioTransport_queue_unset sample_platform Modern 3 w1 = (Ok (), w2)"
proof -
  have "while_prog (bind (ReadWrite_read_u32 sample_platform 0x44) (\<lambda>v. ret (v \<noteq> 0))) (\<lambda>w. w) w =
      (Ok (), w\<lparr>trace := trace w @ [R32 0x44 0]\<rparr>)" for w
    unfolding while_prog_def
    by (subst while_option_unfold) (simp add: volatile_defs bind_def sample_regs_def)
  then show ?thesis
    by (simp add: mmio_defs volatile_defs bind_def andthen_def)
qed

theorem queue_set_unset_witness:
  "\<exists>w1. MmioTransport_queue_set sample_platform Modern 3 16 0x80001000 0x80001100 0x80002000
      sample_world = (Ok (), w1) \<and>
    v_queues (mmio_view Modern w1) 3 = Some \<lparr>qc_size = 16, qc_desc = 0x80001000,
      qc_driver = 0x80001100, qc_device = 0x80002000\<rparr>"
proof -
  have "queue_place_ok 16 0x80001000"
    by (simp add: queue_place_ok_def is_power_of_two.simps)
  moreover have "mmio_ready Modern sample_world"
    by (simp add: mmio_ready_def)
  ultimately show ?thesis
    using sample_queue_set queue_set_unset by fastforce
qed

text \<open>
  Whatever the device answers, the MMIO constructor accepts it exactly when the magic value
  is right, the device id is not zero and the version is 1 or 2; otherwise it reports the first
  of these that fails, in this order.
\<close>

theorem transport_new_decision:
  assumes "\<And>off d. read_volatile_u32_at (io P) off d = (Inr (regs off), d)"
  shows "fst (MmioTransport_new P w) =
    (if regs 0 \<noteq> 0x74726976 then Err (MmioError (BadMagic (regs 0)))
     else if regs 8 = 0 then Err (MmioError ZeroDeviceId)
     else if regs 4 = 1 then Ok Legacy
     else if regs 4 = 2 then Ok Modern
     else Err (MmioError (UnsupportedVersion (regs 4))))"
  using assms
  by (simp add: MmioTransport_new_def volatile_defs bind_def io_read_u32_def MAGIC_def
      MmioVersion_try_from_def LEGACY_VERSION_def MODERN_VERSION_def)

theorem transport_new_decision_witness:
  "fst (MmioTransport_new (sample sample_regs 9 (\<lambda>_ m. m)) sample_world) =
     Err (MmioError (BadMagic 0))"
  using transport_new_decision [of sample_platform sample_regs sample_world]
  by (simp add: sample_st_def sample_io_def sample_regs_def)

text \<open>
  Acknowledging an interrupt writes back exactly the pending bits the device reports and
  answers whether there were any; with none pending nothing is written.
\<close>

theorem ack_interrupt_writes_back:
  assumes "MmioTransport_ack_interrupt P w = (Ok b, w')"
  shows "\<exists>status. trace w' = trace w @ R32 0x60 status # (if b then [W32 0x64 status] else []) \<and>
    (b \<longleftrightarrow> status \<noteq> 0)"
proof -
  obtain status w1 where rd: "io_read_u32 P 0x60 w = (Ok status, w1)"
    and rest: "(if status = 0 then ret False
      else andthen (io_write_u32 P 0x64 status) (ret True)) w1 = (Ok b, w')"
    using assms unfolding MmioTransport_ack_interrupt_def volatile_defs VirtIOHeader.simps bind_Ok_iff
    by blast
  show ?thesis
  proof (cases "status = 0")
    case True
    then show ?thesis
      using rest io_read_u32_Ok [OF rd] by auto
  next
    case False
    then have "io_write_u32 P 0x64 status w1 = (Ok (), w')" and "b"
      using rest by (auto simp: andthen_Ok_iff)
    then show ?thesis
      using io_write_u32_Ok io_read_u32_Ok [OF rd] False by fastforce
  qed
qed

theorem ack_interrupt_writes_back_witness:
  "\<exists>w'. MmioTransport_ack_interrupt (sample (\<lambda>_. 1) 9 (\<lambda>_ m. m)) sample_world = (Ok True, w') \<and>
     trace w' = [R32 0x60 1, W32 0x64 1]"
proof -
  let ?w = "sample_world\<lparr>trace := [R32 0x60 1, W32 0x64 1]\<rparr>"
  have run: "MmioTransport_ack_interrupt (sample (\<lambda>_. 1) 9 (\<lambda>_ m. m)) sample_world = (Ok True, ?w)"
    by (simp add: MmioTransport_ack_interrupt_def volatile_defs bind_def andthen_def sample_world_def)
  show ?thesis
    using ack_interrupt_writes_back [OF run] run by simp
qed

text \<open>
  Decoding the discriminant of a device type gives the type back, except for memory
  ballooning (discriminant 5), which is decoded as memory balloon (discriminant 13), and no
  number is ever decoded as memory ballooning.
\<close>

theorem device_type_decoding:
  "DeviceType_from_u8 (DeviceType_discriminant t) =
     (if t = MemoryBallooning then MemoryBalloon else t) \<and>
   DeviceType_from_u32 n \<noteq> MemoryBallooning"
  using DeviceType_from_discriminant DeviceType_from_u32_not_ballooning by simp

text \<open>
  \<^verbatim>\<open>align_up\<close> gives the least multiple of the page size that is strictly greater than its
  argument: a size that is already a multiple of the page size grows by a whole page. For the
  sizes of queues, which are never such multiples, it agrees with rounding up.
\<close>

theorem align_up_next_page:
  assumes "unat sz + 4096 < 2 ^ 64"
  shows "unat (align_up sz) = (unat sz div 4096 + 1) * 4096 \<and>
    (unat sz mod 4096 = 0 \<longrightarrow> align_up sz = sz + PAGE_SIZE) \<and>
    (unat sz mod 4096 \<noteq> 0 \<longrightarrow> align_up sz = round_up_to PAGE_SIZE sz)"
proof -
  have "(unat sz + 4096) div 4096 = unat sz div 4096 + 1"
    by (rule div_add_self2) simp
  then have val: "unat (align_up sz) = (unat sz div 4096 + 1) * 4096"
    using unat_align_up [OF assms] by (simp only:)
  have "align_up sz = sz + PAGE_SIZE" if "unat sz mod 4096 = 0"
  proof -
    have "unat (sz + PAGE_SIZE) = unat sz + 4096"
      using assms by (subst unat_add_lem [THEN iffD1]) (simp_all add: PAGE_SIZE_def)
    moreover have "unat sz div 4096 * 4096 = unat sz"
      using that by (metis add.right_neutral div_mult_mod_eq)
    ultimately show ?thesis
      using val by (simp only: word_unat_eq_iff) simp
  qed
  moreover have "align_up sz = round_up_to PAGE_SIZE sz" if "unat sz mod 4096 \<noteq> 0"
    using round_up_align_up [OF assms that] by (simp add: PAGE_SIZE_def)
  ultimately show ?thesis
    using val by simp
qed

theorem align_up_next_page_witness: "align_up 8192 = 12288"
  using align_up_next_page [of 8192] by (simp add: PAGE_SIZE_def)

end
