(* ===== verification/Blk.thy ===== *)
theory Blk
  imports VirtQueue Bytes
begin

text \<open>
  The block driver, \<^verbatim>\<open>device/block/mod.rs\<close> and \<^verbatim>\<open>device/block/ty.rs\<close>. The addresses of the two locals a
  request shares with the device (the request header and the response byte) are the fields
  of \<open>blk_frame\<close>; a slice argument is its address and length. The response is read back from
  memory, where the device has written it.
\<close>

section \<open>Types (ty.rs)\<close>

definition BlkFeature_RO :: u64 where "BlkFeature_RO = push_bit 5 1"
definition BlkFeature_FLUSH :: u64 where "BlkFeature_FLUSH = push_bit 9 1"

definition BlkFeature_all :: u64 where
  "BlkFeature_all = foldr (\<lambda>i a. or (push_bit i 1) a)
     [0, 1, 2, 4, 5, 6, 7, 9, 10, 11, 12, 13, 14, 15, 16, 24, 27, 28, 29, 30, 32, 33, 34, 35, 36,
      37, 38] 0"

datatype BlkReqType =
  In | Out | Flush | GetId | GetLifetime | Discard | WriteZeroes | SecureErase

fun BlkReqType_discriminant :: "BlkReqType \<Rightarrow> u32" where
  "BlkReqType_discriminant In = 0"
| "BlkReqType_discriminant Out = 1"
| "BlkReqType_discriminant Flush = 4"
| "BlkReqType_discriminant GetId = 8"
| "BlkReqType_discriminant GetLifetime = 10"
| "BlkReqType_discriminant Discard = 11"
| "BlkReqType_discriminant WriteZeroes = 13"
| "BlkReqType_discriminant SecureErase = 14"

record BlkReq =
  br_type :: BlkReqType
  br_reserved :: u32
  br_sector :: u64

definition BlkReq_new :: "BlkReqType \<Rightarrow> u64 \<Rightarrow> BlkReq" where
  "BlkReq_new t sector = \<lparr>br_type = t, br_reserved = 0, br_sector = sector\<rparr>"

text \<open>The image of a request in memory: 16 bytes, as \<^verbatim>\<open>repr(C)\<close> lays them out.\<close>

definition BlkReq_bytes :: "BlkReq \<Rightarrow> u8 list" where
  "BlkReq_bytes r =
     le_bytes 4 (BlkReqType_discriminant (br_type r)) @ le_bytes 4 (br_reserved r) @
     le_bytes 8 (br_sector r)"

definition BlkRespStatus_OK :: u8 where "BlkRespStatus_OK = 0"
definition BlkRespStatus_IO_ERR :: u8 where "BlkRespStatus_IO_ERR = 1"
definition BlkRespStatus_UNSUPPORTED :: u8 where "BlkRespStatus_UNSUPPORTED = 2"
definition BlkRespStatus_NOT_READY :: u8 where "BlkRespStatus_NOT_READY = 3"

definition BlkRespStatus_default :: u8 where
  "BlkRespStatus_default = BlkRespStatus_NOT_READY"

definition VirtIoResult_from_BlkRespStatus :: "u8 \<Rightarrow> ('s, virtio_error, unit) prog" where
  "VirtIoResult_from_BlkRespStatus status =
     (if status = BlkRespStatus_OK then ret ()
      else if status = BlkRespStatus_IO_ERR then throw IoError
      else if status = BlkRespStatus_UNSUPPORTED then throw Unsupported
      else if status = BlkRespStatus_NOT_READY then throw NotReady
      else throw IoError)"

text \<open>The offsets of the two configuration registers the driver reads.\<close>

definition BlkConfig_capacity_low :: usize where
  "BlkConfig_capacity_low = CONFIG_OFFSET"

definition BlkConfig_capacity_high :: usize where
  "BlkConfig_capacity_high = CONFIG_OFFSET + 0x4"

section \<open>The driver (mod.rs)\<close>

definition blk_SUPPORTED_FEATURES :: u64 where
  "blk_SUPPORTED_FEATURES = BlkFeature_FLUSH"

definition blk_QUEUE_SIZE :: nat where
  "blk_QUEUE_SIZE = 16"

definition SECTOR_SIZE :: usize where
  "SECTOR_SIZE = 512"

record virtio_blk =
  blk_queue :: virtio_queue
  blk_capacity :: u64
  blk_negotiated_features :: u64

record blk_frame =
  fr_request :: usize
  fr_resp :: usize

type_synonym ('d, 'a) bprog = "(virtio_blk \<times> 'd world, virtio_error, 'a) prog"

definition on_blk_queue :: "('d, 'a) qwprog \<Rightarrow> ('d, 'a) bprog" where
  "on_blk_queue = zoom (\<lambda>(b, w). (blk_queue b, w)) (\<lambda>(q, w) (b, _). (b\<lparr>blk_queue := q\<rparr>, w))"

definition VirtIOBlk_new :: "'d platform \<Rightarrow> 'd transport \<Rightarrow> ('d, virtio_blk) wprog" where
  "VirtIOBlk_new P T =
     owning T
     (bind (begin_init T BlkFeature_all blk_SUPPORTED_FEATURES) (\<lambda>negotiated_features.
      bind (ReadWrite_read_u32 P BlkConfig_capacity_high) (\<lambda>high.
      bind (ReadWrite_read_u32 P BlkConfig_capacity_low) (\<lambda>low.
      let capacity = or (push_bit 32 (ucast high)) (ucast low)
      in bind (VirtIoQueue_new P T blk_QUEUE_SIZE 0) (\<lambda>queue.
         andthen (finish_init T)
         (ret \<lparr>blk_queue = queue, blk_capacity = capacity,
               blk_negotiated_features = negotiated_features\<rparr>))))))"

definition VirtIOBlk_capacity :: "virtio_blk \<Rightarrow> u64" where
  "VirtIOBlk_capacity b = blk_capacity b"

definition VirtIOBlk_readonly :: "virtio_blk \<Rightarrow> bool" where
  "VirtIOBlk_readonly b \<longleftrightarrow> contains (blk_negotiated_features b) BlkFeature_RO"

definition VirtIOBlk_ack_interrupt :: "'d transport \<Rightarrow> ('d, bool) bprog" where
  "VirtIOBlk_ack_interrupt T = zoom snd (\<lambda>w (b, _). (b, w)) (t_ack_interrupt T)"

text \<open>The two locals of a request come into being in memory.\<close>

definition put_request :: "'d platform \<Rightarrow> blk_frame \<Rightarrow> BlkReq \<Rightarrow> ('d, unit) bprog" where
  "put_request P fr request =
     modify (\<lambda>(b, w). (b, w\<lparr>mem :=
       store_bytes P (fr_resp fr) [BlkRespStatus_default]
         (store_bytes P (fr_request fr) (BlkReq_bytes request) (mem w))\<rparr>))"

definition get_resp :: "'d platform \<Rightarrow> blk_frame \<Rightarrow> ('d, u8) bprog" where
  "get_resp P fr = gets (\<lambda>(b, w). mem w (to_paddr (hal P) (fr_resp fr)))"

definition VirtIOBlk_request_read ::
  "'d platform \<Rightarrow> 'd transport \<Rightarrow> blk_frame \<Rightarrow> BlkReq \<Rightarrow> usize \<Rightarrow> usize \<Rightarrow> ('d, unit) bprog" where
  "VirtIOBlk_request_read P T fr request data_ptr data_len =
     andthen (put_request P fr request)
     (let req = Descriptor_new P (fr_request fr) 16 NEXT;
          data = Descriptor_new P data_ptr (ucast data_len) (or NEXT WRITE);
          res = Descriptor_new P (fr_resp fr) 1 WRITE
      in bind (on_blk_queue
                 (VirtIoQueue_add_notify_wait_pop P T blk_QUEUE_SIZE [req, data, res])) (\<lambda>_.
         bind (get_resp P fr) (\<lambda>resp.
         andthen (debug_assert (debug P) (resp = BlkRespStatus_OK))
         (VirtIoResult_from_BlkRespStatus resp))))"

definition VirtIOBlk_request_write ::
  "'d platform \<Rightarrow> 'd transport \<Rightarrow> blk_frame \<Rightarrow> BlkReq \<Rightarrow> usize \<Rightarrow> usize \<Rightarrow> ('d, unit) bprog" where
  "VirtIOBlk_request_write P T fr request data_ptr data_len =
     andthen (put_request P fr request)
     (let req = Descriptor_new P (fr_request fr) 16 NEXT;
          data = Descriptor_new P data_ptr (ucast data_len) NEXT;
          res = Descriptor_new P (fr_resp fr) 1 WRITE
      in bind (on_blk_queue
                 (VirtIoQueue_add_notify_wait_pop P T blk_QUEUE_SIZE [req, data, res])) (\<lambda>len.
         bind (get_resp P fr) (\<lambda>resp.
         andthen (debug_assert (debug P) (resp = BlkRespStatus_OK))
         (VirtIoResult_from_BlkRespStatus resp))))"

definition VirtIOBlk_request ::
  "'d platform \<Rightarrow> 'd transport \<Rightarrow> blk_frame \<Rightarrow> BlkReq \<Rightarrow> ('d, unit) bprog" where
  "VirtIOBlk_request P T fr request =
     andthen (put_request P fr request)
     (let desc_vec = [Descriptor_new P (fr_request fr) 16 NEXT, Descriptor_new P (fr_resp fr) 1 WRITE]
      in bind (on_blk_queue (VirtIoQueue_add_notify_wait_pop P T blk_QUEUE_SIZE desc_vec)) (\<lambda>_.
         bind (get_resp P fr) (\<lambda>resp.
         andthen (debug_assert (debug P) (resp = BlkRespStatus_OK))
         (VirtIoResult_from_BlkRespStatus resp))))"

text \<open>\<^verbatim>\<open>position\<close>: the index of the first element that satisfies the test.\<close>

fun position :: "('a \<Rightarrow> bool) \<Rightarrow> 'a list \<Rightarrow> nat option" where
  "position p [] = None"
| "position p (x # xs) = (if p x then Some 0 else map_option Suc (position p xs))"

definition VirtIOBlk_device_id ::
  "'d platform \<Rightarrow> 'd transport \<Rightarrow> blk_frame \<Rightarrow> usize \<Rightarrow> ('d, usize) bprog" where
  "VirtIOBlk_device_id P T fr id_ptr =
     andthen (VirtIOBlk_request_read P T fr (BlkReq_new GetId 0) id_ptr 20)
     (bind (gets (\<lambda>(b, w). load_bytes P id_ptr 20 (mem w))) (\<lambda>bytes.
      ret (case position (\<lambda>x. x = 0) bytes of None \<Rightarrow> 20 | Some i \<Rightarrow> of_nat i)))"

definition VirtIOBlk_read_blocks ::
  "'d platform \<Rightarrow> 'd transport \<Rightarrow> blk_frame \<Rightarrow> usize \<Rightarrow> usize \<Rightarrow> usize \<Rightarrow> ('d, unit) bprog" where
  "VirtIOBlk_read_blocks P T fr sector buf_ptr buf_len =
     andthen (assert_that (buf_len \<noteq> 0))
     (andthen (assert_that (buf_len mod SECTOR_SIZE = 0))
     (VirtIOBlk_request_read P T fr (BlkReq_new In sector) buf_ptr buf_len))"

definition VirtIOBlk_write_blocks ::
  "'d platform \<Rightarrow> 'd transport \<Rightarrow> blk_frame \<Rightarrow> usize \<Rightarrow> usize \<Rightarrow> usize \<Rightarrow> ('d, unit) bprog" where
  "VirtIOBlk_write_blocks P T fr sector buf_ptr buf_len =
     andthen (assert_that (buf_len \<noteq> 0))
     (andthen (assert_that (buf_len mod SECTOR_SIZE = 0))
     (VirtIOBlk_request_write P T fr (BlkReq_new Out sector) buf_ptr buf_len))"

definition VirtIOBlk_flush :: "'d platform \<Rightarrow> 'd transport \<Rightarrow> blk_frame \<Rightarrow> ('d, unit) bprog" where
  "VirtIOBlk_flush P T fr =
     bind (gets (\<lambda>(b, w). contains (blk_negotiated_features b) BlkFeature_FLUSH)) (\<lambda>supported.
     if supported then VirtIOBlk_request P T fr (BlkReq_new Flush 0) else ret ())"

definition VirtIOBlk_drop :: "'d transport \<Rightarrow> ('d, unit) bprog" where
  "VirtIOBlk_drop T =
     zoom snd (\<lambda>w (b, _). (b, w)) (andthen (expect (t_queue_unset T 0)) (t_drop T))"

section \<open>The device's view of a block request\<close>

text \<open>What the device makes of a chain: a header, data buffers, a status byte.\<close>

record blk_view =
  bv_type :: u32
  bv_sector :: u64
  bv_data :: "(u64 \<times> u32 \<times> bool) list"
  bv_status :: u64

definition blk_decode :: "(u64 \<times> u32 \<times> u16) list \<Rightarrow> memory \<Rightarrow> blk_view option" where
  "blk_decode ds m =
     (case ds of
        (a, n, f) # d # ds' \<Rightarrow>
          let h = phys_bytes m a 16
          in Some \<lparr>bv_type = of_le_bytes (take 4 h), bv_sector = of_le_bytes (drop 8 h),
               bv_data = map (\<lambda>(a, n, f). (a, n, and f WRITE \<noteq> 0)) (butlast (d # ds')),
               bv_status = fst (last (d # ds'))\<rparr>
      | _ \<Rightarrow> None)"

text \<open>What the device does with a request, on a disk of bytes: reads, writes and flushes.\<close>

definition blk_serve :: "blk_view \<Rightarrow> (nat \<Rightarrow> u8) \<times> memory \<Rightarrow> (nat \<Rightarrow> u8) \<times> memory" where
  "blk_serve rq s =
     (case s of (disk, m) \<Rightarrow>
        let start = unat (bv_sector rq) * 512; st = bv_status rq
        in (case bv_data rq of
              [(a, n, writable)] \<Rightarrow>
                if bv_type rq = 0 \<and> writable
                then (disk, (write_phys m a (map (\<lambda>i. disk (start + i)) [0..<unat n]))(st := 0))
                else if bv_type rq = 1 \<and> \<not> writable
                then (\<lambda>j. if start \<le> j \<and> j < start + unat n then m (a + of_nat (j - start))
                          else disk j,
                      m(st := 0))
                else (disk, m(st := 2))
            | [] \<Rightarrow> (disk, m(st := (if bv_type rq = 4 then 0 else 2)))
            | _ \<Rightarrow> (disk, m(st := 1))))"

text \<open>The header, the response byte and the buffer are contiguous and do not overlap.\<close>

definition blk_objects_ok :: "'d platform \<Rightarrow> blk_frame \<Rightarrow> usize \<Rightarrow> nat \<Rightarrow> bool" where
  "blk_objects_ok P fr buf n \<longleftrightarrow>
     contiguous P (fr_request fr) 16 \<and> contiguous P buf n \<and>
     to_paddr (hal P) (fr_resp fr) \<notin> phys P (fr_request fr) 16 \<and>
     to_paddr (hal P) (fr_resp fr) \<notin> phys P buf n \<and>
     phys P (fr_request fr) 16 \<inter> phys P buf n = {}"

text \<open>The world in which the two locals of a request have been initialised.\<close>

definition with_request :: "'d platform \<Rightarrow> blk_frame \<Rightarrow> BlkReq \<Rightarrow> 'd world \<Rightarrow> 'd world" where
  "with_request P fr request w =
     w\<lparr>mem := store_bytes P (fr_resp fr) [BlkRespStatus_default]
         (store_bytes P (fr_request fr) (BlkReq_bytes request) (mem w))\<rparr>"

text \<open>The common shape of the three kinds of request.\<close>

definition request_body ::
  "'d platform \<Rightarrow> 'd transport \<Rightarrow> blk_frame \<Rightarrow> BlkReq \<Rightarrow> descriptor list \<Rightarrow> ('d, unit) bprog" where
  "request_body P T fr request ds =
     andthen (put_request P fr request)
     (bind (on_blk_queue (VirtIoQueue_add_notify_wait_pop P T blk_QUEUE_SIZE ds)) (\<lambda>_.
      bind (get_resp P fr) (\<lambda>resp.
      andthen (debug_assert (debug P) (resp = BlkRespStatus_OK))
      (VirtIoResult_from_BlkRespStatus resp))))"

definition blk_descs :: "'d platform \<Rightarrow> blk_frame \<Rightarrow> (usize \<times> usize \<times> u16) option \<Rightarrow> descriptor list" where
  "blk_descs P fr buf =
     Descriptor_new P (fr_request fr) 16 NEXT #
     (case buf of None \<Rightarrow> [] | Some (a, n, f) \<Rightarrow> [Descriptor_new P a (ucast n) f]) @
     [Descriptor_new P (fr_resp fr) 1 WRITE]"

text \<open>The result of a request by the status byte; builds with debug assertions panic on an error.\<close>

definition blk_outcome :: "bool \<Rightarrow> u8 \<Rightarrow> (virtio_error, unit) outcome" where
  "blk_outcome dbg v =
     (if v = 0 then Ok () else if dbg then Panic
      else if v = 2 then Err Unsupported else if v = 3 then Err NotReady else Err IoError)"

text \<open>The device reports the chain at poll \<open>k\<close>, having served the request it decodes from it.\<close>

definition serves_blk ::
  "'d platform \<Rightarrow> virtio_queue \<times> 'd world \<Rightarrow> u16 \<Rightarrow> nat \<Rightarrow> (nat \<Rightarrow> u8) \<Rightarrow> (nat \<Rightarrow> u8) \<Rightarrow> bool" where
  "serves_blk P t tok k disk disk' \<longleftrightarrow>
     (\<exists>len. device_serves P 16 t tok k len) \<and>
     (case blk_decode (map payload (chain_of 16 (table (fst t)) tok)) (mem (snd t)) of
        None \<Rightarrow> True
      | Some rq \<Rightarrow> (disk', mem (snd ((device_step P ^^ k) t))) = blk_serve rq (disk, mem (snd t)))"

section \<open>Requests\<close>

lemma BlkReq_bytes_decode:
  "of_le_bytes (take 4 (BlkReq_bytes r)) = BlkReqType_discriminant (br_type r)"
  "of_le_bytes (drop 8 (BlkReq_bytes r)) = br_sector r"
  "length (BlkReq_bytes r) = 16"
  by (simp_all add: BlkReq_bytes_def of_le_bytes_exact)

lemma put_request_eq: "put_request P fr request (b, w) = (Ok (), (b, with_request P fr request w))"
  by (simp add: put_request_def with_request_def)

lemma with_request_header:
  assumes "blk_objects_ok P fr buf n"
  shows "phys_bytes (mem (with_request P fr request w)) (to_paddr (hal P) (fr_request fr)) 16 =
    BlkReq_bytes request"
proof -
  have c: "contiguous P (fr_request fr) 16"
    and r: "to_paddr (hal P) (fr_resp fr) \<notin> phys P (fr_request fr) 16"
    using assms by (simp_all add: blk_objects_ok_def)
  have "load_bytes P (fr_request fr) 16 (mem (with_request P fr request w)) =
      load_bytes P (fr_request fr) 16
        (store_bytes P (fr_request fr) (BlkReq_bytes request) (mem w))"
    using r by (intro load_bytes_cong) (auto simp: with_request_def)
  also have "\<dots> = BlkReq_bytes request"
    using load_store_bytes [of P "fr_request fr" "BlkReq_bytes request" "mem w"]
      contiguous_mapped [OF c] by (simp add: BlkReq_bytes_decode(3))
  finally show ?thesis
    by (simp add: contiguous_load [OF c])
qed

lemma with_request_buffer:
  assumes "blk_objects_ok P fr buf n"
  shows "phys_bytes (mem (with_request P fr request w)) (to_paddr (hal P) buf) n =
    load_bytes P buf n (mem w)"
proof -
  have c: "contiguous P buf n"
    using assms by (simp add: blk_objects_ok_def)
  have "store_bytes P (fr_request fr) (BlkReq_bytes request) (mem w) p = mem w p"
    if "p \<in> phys P buf n" for p
    using assms that
    by (intro store_bytes_other) (auto simp: blk_objects_ok_def BlkReq_bytes_decode(3))
  then have "load_bytes P buf n (mem (with_request P fr request w)) = load_bytes P buf n (mem w)"
    using assms by (intro load_bytes_cong) (auto simp: with_request_def blk_objects_ok_def)
  then show ?thesis
    by (simp add: contiguous_load [OF c])
qed

lemma request_bodies:
  "VirtIOBlk_request_read P T fr request a n =
     request_body P T fr request (blk_descs P fr (Some (a, n, or NEXT WRITE)))"
  "VirtIOBlk_request_write P T fr request a n =
     request_body P T fr request (blk_descs P fr (Some (a, n, NEXT)))"
  "VirtIOBlk_request P T fr request = request_body P T fr request (blk_descs P fr None)"
  by (simp_all add: VirtIOBlk_request_read_def VirtIOBlk_request_write_def VirtIOBlk_request_def
      request_body_def blk_descs_def Let_def)

lemma blk_status_outcome:
  "andthen (debug_assert dbg (v = BlkRespStatus_OK)) (VirtIoResult_from_BlkRespStatus v) s =
     (blk_outcome dbg v, s)"
  by (simp add: blk_outcome_def VirtIoResult_from_BlkRespStatus_def debug_assert_def
      assert_that_def BlkRespStatus_OK_def BlkRespStatus_IO_ERR_def BlkRespStatus_UNSUPPORTED_def
      BlkRespStatus_NOT_READY_def)

lemma blk_request_run:
  assumes q: "quiet 16 (blk_queue b)" and fl: "chain_flags ds" and len: "length ds \<le> 16"
    and sub: "submitted T 16 ds (blk_queue b, with_request P fr request w) tok t"
    and srv: "device_serves P 16 t tok k n"
  shows "\<exists>q'. request_body P T fr request ds (b, w) =
      (blk_outcome (debug P) (mem (snd ((device_step P ^^ k) t)) (to_paddr (hal P) (fr_resp fr))),
       (b\<lparr>blk_queue := q'\<rparr>, snd ((device_step P ^^ k) t))) \<and>
    quiet 16 q' \<and> queue_idx q' = queue_idx (blk_queue b)"
proof -
  let ?w = "snd ((device_step P ^^ k) t)"
  obtain q' where run: "VirtIoQueue_add_notify_wait_pop P T 16 ds
      (blk_queue b, with_request P fr request w) = (Ok n, (q', ?w))"
    and q': "quiet 16 q'" "queue_idx q' = queue_idx (blk_queue b)"
    using add_notify_wait_pop_Ok [OF _ fl len sub srv] q by auto
  have "on_blk_queue (VirtIoQueue_add_notify_wait_pop P T 16 ds)
      (b, with_request P fr request w) = (Ok n, (b\<lparr>blk_queue := q'\<rparr>, ?w))"
    using run by (simp add: on_blk_queue_def zoom_def)
  then have "request_body P T fr request ds (b, w) =
      (blk_outcome (debug P) (mem ?w (to_paddr (hal P) (fr_resp fr))),
       (b\<lparr>blk_queue := q'\<rparr>, ?w))"
    unfolding request_body_def andthen_def [of "put_request P fr request"]
    by (simp add: put_request_eq bind_Ok blk_QUEUE_SIZE_def get_resp_def blk_status_outcome
        del: andthen_ret andthen_panic)
  then show ?thesis
    using q' by auto
qed

lemma blk_descs_ok:
  assumes "\<And>a n f. buf = Some (a, n, f) \<Longrightarrow> f = NEXT \<or> f = or NEXT WRITE"
  shows "chain_flags (blk_descs P fr buf)" and "length (blk_descs P fr buf) \<le> 16"
proof -
  have bits: "and NEXT NEXT \<noteq> 0" "and (or NEXT WRITE) NEXT \<noteq> 0" "and WRITE NEXT = 0"
    by (simp_all add: NEXT_def WRITE_def)
  show "chain_flags (blk_descs P fr buf)"
    using assms bits
    by (cases buf) (auto simp: blk_descs_def chain_flags_def Descriptor_new_def)
  show "length (blk_descs P fr buf) \<le> 16"
    by (simp add: blk_descs_def split: option.splits prod.splits)
qed

context transport_contract
begin

lemma blk_submitted_view:
  assumes q: "quiet 16 q" and ok: "blk_objects_ok P fr buf m"
    and f: "f = NEXT \<or> f = or NEXT WRITE"
    and sub: "submitted T 16 (blk_descs P fr (Some (buf, n, f)))
      (q, with_request P fr request w) tok t"
  shows "blk_decode (map payload (chain_of 16 (table (fst t)) tok)) (mem (snd t)) =
    Some \<lparr>bv_type = BlkReqType_discriminant (br_type request), bv_sector = br_sector request,
      bv_data = [(to_paddr (hal P) buf, ucast n, and f WRITE \<noteq> 0)],
      bv_status = to_paddr (hal P) (fr_resp fr)\<rparr>"
proof -
  let ?ds = "blk_descs P fr (Some (buf, n, f))"
  have fl: "chain_flags ?ds" "length ?ds \<le> 16"
    using f by (auto intro: blk_descs_ok)
  have run: "VirtIoQueue_add 16 ?ds q = (Ok tok, fst t)"
    using sub by (simp add: submitted_def)
  have chain: "map payload (chain_of 16 (table (fst t)) tok) = map payload ?ds"
    using quiet_submit_chain [OF q fl run] .
  have mem: "mem (snd t) = mem (with_request P fr request w)"
    using submitted_mem [OF sub] by simp
  show ?thesis
    unfolding chain mem
    by (simp add: blk_decode_def blk_descs_def payload_def Descriptor_new_def Let_def
        with_request_header [OF ok] BlkReq_bytes_decode)
qed

end

lemma phys_bytes_status:
  assumes "contiguous P buf n" and "to_paddr (hal P) r \<notin> phys P buf n"
  shows "phys_bytes (m(to_paddr (hal P) r := v)) (to_paddr (hal P) buf) n =
    phys_bytes m (to_paddr (hal P) buf) n"
proof -
  have "to_paddr (hal P) buf + of_nat i \<noteq> to_paddr (hal P) r" if "i < n" for i
    using assms that by (metis image_eqI lessThan_iff phys_contiguous)
  then show ?thesis
    by (intro phys_bytes_cong) simp
qed

text \<open>The outcome of a whole transfer, for any transport that meets the contract.\<close>

context transport_contract
begin

lemma blk_read_effect:
  assumes q: "quiet 16 q" and ok: "blk_objects_ok P fr buf (unat n)"
    and n: "unat n < 2 ^ 32"
    and sub: "submitted T 16 (blk_descs P fr (Some (buf, n, or NEXT WRITE)))
      (q, with_request P fr (BlkReq_new In sector) w) tok t"
    and srv: "serves_blk P t tok k disk disk'"
  shows "disk' = disk"
    and "mem (snd ((device_step P ^^ k) t)) = (write_phys (mem (snd t)) (to_paddr (hal P) buf)
       (map (\<lambda>i. disk (unat sector * 512 + i)) [0..<unat n]))(to_paddr (hal P) (fr_resp fr) := 0)"
proof -
  have "unat (ucast n :: u32) = unat n" "and (or NEXT WRITE) WRITE \<noteq> 0"
    using n by (simp_all add: unsigned_ucast_eq take_bit_nat_eq_self NEXT_def WRITE_def)
  then show "disk' = disk"
    and "mem (snd ((device_step P ^^ k) t)) = (write_phys (mem (snd t)) (to_paddr (hal P) buf)
       (map (\<lambda>i. disk (unat sector * 512 + i)) [0..<unat n]))(to_paddr (hal P) (fr_resp fr) := 0)"
    using srv blk_submitted_view [OF q ok disjI2 [OF refl] sub]
    by (simp_all add: serves_blk_def blk_serve_def BlkReq_new_def Let_def)
qed

lemma blk_write_effect:
  assumes q: "quiet 16 q" and ok: "blk_objects_ok P fr buf (unat n)"
    and n: "unat n < 2 ^ 32"
    and sub: "submitted T 16 (blk_descs P fr (Some (buf, n, NEXT)))
      (q, with_request P fr (BlkReq_new Out sector) w) tok t"
    and srv: "serves_blk P t tok k disk disk'"
  shows "disk' = (\<lambda>j. if unat sector * 512 \<le> j \<and> j < unat sector * 512 + unat n
        then mem (snd t) (to_paddr (hal P) buf + of_nat (j - unat sector * 512)) else disk j)"
    and "mem (snd ((device_step P ^^ k) t)) = (mem (snd t))(to_paddr (hal P) (fr_resp fr) := 0)"
proof -
  have "unat (ucast n :: u32) = unat n" "and NEXT WRITE = 0"
    using n by (simp_all add: unsigned_ucast_eq take_bit_nat_eq_self NEXT_def WRITE_def)
  then show "disk' = (\<lambda>j. if unat sector * 512 \<le> j \<and> j < unat sector * 512 + unat n
        then mem (snd t) (to_paddr (hal P) buf + of_nat (j - unat sector * 512)) else disk j)"
    and "mem (snd ((device_step P ^^ k) t)) = (mem (snd t))(to_paddr (hal P) (fr_resp fr) := 0)"
    using srv blk_submitted_view [OF q ok disjI1 [OF refl] sub]
    by (simp_all add: serves_blk_def blk_serve_def BlkReq_new_def Let_def)
qed

lemma blk_flush_effect:
  assumes q: "quiet 16 q" and ok: "blk_objects_ok P fr buf n"
    and sub: "submitted T 16 (blk_descs P fr None) (q, with_request P fr (BlkReq_new Flush sector) w) tok t"
    and srv: "serves_blk P t tok k disk disk'"
  shows "mem (snd ((device_step P ^^ k) t)) = (mem (snd t))(to_paddr (hal P) (fr_resp fr) := 0)"
proof -
  have fl: "chain_flags (blk_descs P fr None)" "length (blk_descs P fr None) \<le> 16"
    by (auto intro: blk_descs_ok)
  have run: "VirtIoQueue_add 16 (blk_descs P fr None) q = (Ok tok, fst t)"
    using sub by (simp add: submitted_def)
  have "blk_decode (map payload (chain_of 16 (table (fst t)) tok)) (mem (snd t)) =
      Some \<lparr>bv_type = 4, bv_sector = sector, bv_data = [], bv_status = to_paddr (hal P) (fr_resp fr)\<rparr>"
    using submitted_mem [OF sub] unfolding quiet_submit_chain [OF q fl run]
    by (simp add: blk_decode_def blk_descs_def payload_def Descriptor_new_def Let_def
        with_request_header [OF ok] BlkReq_bytes_decode BlkReq_new_def)
  then show ?thesis
    using srv by (simp add: serves_blk_def blk_serve_def Let_def)
qed

lemma blk_read_transfer:
  assumes q: "quiet 16 (blk_queue b)" and ok: "blk_objects_ok P fr buf (unat n)"
    and n: "unat n < 2 ^ 32"
    and sub: "submitted T 16 (blk_descs P fr (Some (buf, n, or NEXT WRITE)))
      (blk_queue b, with_request P fr (BlkReq_new In sector) w) tok t"
    and srv: "serves_blk P t tok k disk disk'"
  shows "\<exists>q'. VirtIOBlk_request_read P T fr (BlkReq_new In sector) buf n (b, w) =
      (Ok (), (b\<lparr>blk_queue := q'\<rparr>, snd ((device_step P ^^ k) t))) \<and> quiet 16 q' \<and>
    load_bytes P buf (unat n) (mem (snd ((device_step P ^^ k) t))) =
      map (\<lambda>i. disk (unat sector * 512 + i)) [0..<unat n] \<and> disk' = disk"
proof -
  let ?w = "snd ((device_step P ^^ k) t)" and ?ds = "blk_descs P fr (Some (buf, n, or NEXT WRITE))"
  have c: "contiguous P buf (unat n)"
    and r: "to_paddr (hal P) (fr_resp fr) \<notin> phys P buf (unat n)"
    using ok by (simp_all add: blk_objects_ok_def)
  note eff = blk_read_effect [OF q ok n sub srv]
  obtain len where "device_serves P 16 t tok k len"
    using srv by (auto simp: serves_blk_def)
  moreover have "chain_flags ?ds" "length ?ds \<le> 16"
    by (auto intro: blk_descs_ok)
  ultimately obtain q' where run: "request_body P T fr (BlkReq_new In sector) ?ds (b, w) =
      (blk_outcome (debug P) (mem ?w (to_paddr (hal P) (fr_resp fr))), (b\<lparr>blk_queue := q'\<rparr>, ?w))"
    and q': "quiet 16 q'"
    using blk_request_run [OF q _ _ sub] by blast
  have "load_bytes P buf (unat n) (mem ?w) = phys_bytes (mem ?w) (to_paddr (hal P) buf) (unat n)"
    using c by (rule contiguous_load)
  also have "\<dots> = map (\<lambda>i. disk (unat sector * 512 + i)) [0..<unat n]"
    using phys_bytes_write_phys [of "map (\<lambda>i. disk (unat sector * 512 + i)) [0..<unat n]"
        "mem (snd t)" "to_paddr (hal P) buf"] n
    unfolding eff(2) phys_bytes_status [OF c r] by simp
  finally show ?thesis
    using run q' eff by (intro exI [of _ q']) (simp add: request_bodies blk_outcome_def)
qed

lemma blk_write_transfer:
  assumes q: "quiet 16 (blk_queue b)" and ok: "blk_objects_ok P fr buf (unat n)"
    and n: "unat n < 2 ^ 32"
    and sub: "submitted T 16 (blk_descs P fr (Some (buf, n, NEXT)))
      (blk_queue b, with_request P fr (BlkReq_new Out sector) w) tok t"
    and srv: "serves_blk P t tok k disk disk'"
  shows "\<exists>q'. VirtIOBlk_request_write P T fr (BlkReq_new Out sector) buf n (b, w) =
      (Ok (), (b\<lparr>blk_queue := q'\<rparr>, snd ((device_step P ^^ k) t))) \<and> quiet 16 q' \<and>
    map (\<lambda>i. disk' (unat sector * 512 + i)) [0..<unat n] = load_bytes P buf (unat n) (mem w) \<and>
    (\<forall>j. j < unat sector * 512 \<or> unat sector * 512 + unat n \<le> j \<longrightarrow> disk' j = disk j)"
proof -
  let ?w = "snd ((device_step P ^^ k) t)" and ?ds = "blk_descs P fr (Some (buf, n, NEXT))"
  note eff = blk_write_effect [OF q ok n sub srv]
  obtain len where "device_serves P 16 t tok k len"
    using srv by (auto simp: serves_blk_def)
  moreover have "chain_flags ?ds" "length ?ds \<le> 16"
    by (auto intro: blk_descs_ok)
  ultimately obtain q' where run: "request_body P T fr (BlkReq_new Out sector) ?ds (b, w) =
      (blk_outcome (debug P) (mem ?w (to_paddr (hal P) (fr_resp fr))), (b\<lparr>blk_queue := q'\<rparr>, ?w))"
    and q': "quiet 16 q'"
    using blk_request_run [OF q _ _ sub] by blast
  have "map (\<lambda>i. disk' (unat sector * 512 + i)) [0..<unat n] =
      phys_bytes (mem (snd t)) (to_paddr (hal P) buf) (unat n)"
    by (simp add: eff phys_bytes_def)
  also have "\<dots> = load_bytes P buf (unat n) (mem w)"
    using with_request_buffer [OF ok] submitted_mem [OF sub] by simp
  finally show ?thesis
    using run q' eff by (intro exI [of _ q']) (simp add: request_bodies blk_outcome_def)
qed

text \<open>
  A block driver that has been constructed: the device is live, holds exactly the features the
  driver reports, and has one queue, the driver's, with all descriptors free.
\<close>

lemma VirtIOBlk_new_view:
  assumes run: "VirtIOBlk_new P T w = (Ok b, w')" and ok: "hal_queue_ok P 16"
  shows "view w' = \<lparr>v_status = 15, v_features = blk_negotiated_features b,
      v_queues = [0 \<mapsto> \<lparr>qc_size = 16, qc_desc = pg_paddr (queue_page (blk_queue b)),
        qc_driver = pg_paddr (queue_page (blk_queue b)) + AVAIL_RING_OFFSET 16,
        qc_device = pg_paddr (queue_page (blk_queue b)) + USED_RING_OFFSET 16\<rparr>],
      v_notified = v_notified (view w')\<rparr>"
    and "quiet 16 (blk_queue b)" and "queue_idx (blk_queue b) = 0"
    and "and (blk_negotiated_features b) (not BlkFeature_FLUSH) = 0"
    and "\<exists>hi lo. R32 0x104 hi \<in> set (trace w') \<and> R32 0x100 lo \<in> set (trace w') \<and>
      blk_capacity b = or (push_bit 32 (ucast hi)) (ucast lo)"
proof -
  obtain f w1 hi w2 lo w3 q w4 where
    init: "begin_init T BlkFeature_all blk_SUPPORTED_FEATURES w = (Ok f, w1)" and
    hi: "io_read_u32 P 0x104 w1 = (Ok hi, w2)" and
    lo: "io_read_u32 P 0x100 w2 = (Ok lo, w3)" and
    nq: "VirtIoQueue_new P T 16 0 w3 = (Ok q, w4)" and
    fin: "finish_init T w4 = (Ok (), w')" and
    b: "b = \<lparr>blk_queue = q, blk_capacity = or (push_bit 32 (ucast hi)) (ucast lo),
          blk_negotiated_features = f\<rparr>"
    using run
    by (auto simp: VirtIOBlk_new_def owning_Ok_iff prog_Ok_iffs Let_def volatile_defs
        BlkConfig_capacity_high_def BlkConfig_capacity_low_def CONFIG_OFFSET_def blk_QUEUE_SIZE_def)
  note bi = begin_init_Ok [OF init]
  have v3: "view w3 = view w1" "ready w3"
    using keepsD [OF config_read_keeps(1) hi] keepsD [OF config_read_keeps(2) hi]
      keepsD [OF config_read_keeps(1) lo] keepsD [OF config_read_keeps(2) lo] bi(4) by simp_all
  note v4 = VirtIoQueue_new_view [OF nq v3(2) ok]
  show "view w' = \<lparr>v_status = 15, v_features = blk_negotiated_features b,
      v_queues = [0 \<mapsto> \<lparr>qc_size = 16, qc_desc = pg_paddr (queue_page (blk_queue b)),
        qc_driver = pg_paddr (queue_page (blk_queue b)) + AVAIL_RING_OFFSET 16,
        qc_device = pg_paddr (queue_page (blk_queue b)) + USED_RING_OFFSET 16\<rparr>],
      v_notified = v_notified (view w')\<rparr>"
    using finish_init_Ok [OF fin] v4(1) v3(1) bi(2,3) b
    by (intro transport_view.equality) simp_all
  show "quiet 16 (blk_queue b)" "queue_idx (blk_queue b) = 0"
    using VirtIoQueue_new_quiet [OF nq ok] b by simp_all
  have "and f (not (and BlkFeature_all blk_SUPPORTED_FEATURES)) = 0"
    by (rule bi(5))
  then show "and (blk_negotiated_features b) (not BlkFeature_FLUSH) = 0"
    using b by (simp add: BlkFeature_all_def blk_SUPPORTED_FEATURES_def BlkFeature_FLUSH_def)
  show "\<exists>hi lo. R32 0x104 hi \<in> set (trace w') \<and> R32 0x100 lo \<in> set (trace w') \<and>
      blk_capacity b = or (push_bit 32 (ucast hi)) (ucast lo)"
  proof -
    obtain e4 where "trace w4 = trace w3 @ e4"
      using VirtIoQueue_new_emits nq by (rule emitsE)
    moreover obtain e5 where "trace w' = trace w4 @ e5"
      using init_memory_frame(2) fin by (rule emitsE)
    ultimately show ?thesis
      using io_read_u32_Ok [OF hi] io_read_u32_Ok [OF lo] b by auto
  qed
qed

end

lemma blk_not_readonly:
  assumes "and (blk_negotiated_features b) (not BlkFeature_FLUSH) = 0"
  shows "\<not> VirtIOBlk_readonly b"
proof
  assume "VirtIOBlk_readonly b"
  then have "bit (and (blk_negotiated_features b) BlkFeature_RO) 5"
    by (simp add: VirtIOBlk_readonly_def contains_def BlkFeature_RO_def bit_simps)
  then have "bit (and (blk_negotiated_features b) (not BlkFeature_FLUSH)) 5"
    by (simp add: BlkFeature_RO_def BlkFeature_FLUSH_def bit_simps)
  then show False
    using assms by simp
qed

end
