(* ===== verification/BlkProps.thy ===== *)
theory BlkProps
  imports Blk Sample
begin

text \<open>
  The properties of the block driver over the MMIO transport: what a constructed driver has
  set up, that a failed construction leaves the device reset, that reads and writes transfer
  the right bytes to and from the right sectors of a device that follows the specification,
  and how each error of the device surfaces.
\<close>

section \<open>Instances for the witnesses\<close>

definition sample_disk :: "nat \<Rightarrow> u8" where
  "sample_disk j = of_nat (j div 512)"

definition blk_eff :: "(u64 \<times> u32 \<times> u16) list \<Rightarrow> memory \<Rightarrow> memory" where
  "blk_eff ch m = (case blk_decode ch m of None \<Rightarrow> m | Some rq \<Rightarrow> snd (blk_serve rq (sample_disk, m)))"

abbreviation blk_platform :: "unit platform" where
  "blk_platform \<equiv> sample sample_regs 1 blk_eff"

definition sample_frame :: blk_frame where
  "sample_frame = \<lparr>fr_request = 0x1000, fr_resp = 0x1800\<rparr>"

definition sample_blk :: virtio_blk where
  "sample_blk = \<lparr>blk_queue = fresh_queue 16 0, blk_capacity = 64, blk_negotiated_features = 0\<rparr>"

text \<open>The state in which the driver begins to wait for a request.\<close>

definition blk_waiting :: "descriptor list \<Rightarrow> BlkReq \<Rightarrow> virtio_queue \<times> unit world" where
  "blk_waiting ds rq =
     (snd (VirtIoQueue_add 16 ds (fresh_queue 16 0)),
      (with_request blk_platform sample_frame rq sample_world)\<lparr>trace := [W32 0x50 0]\<rparr>)"

lemma sample_blk_quiet: "quiet 16 (blk_queue sample_blk)"
  using fresh_quiet_sizes(3) by (simp add: sample_blk_def)

lemma sample_objects_ok: "blk_objects_ok blk_platform sample_frame 0x2000 512"
proof -
  have phys: "phys blk_platform va n = (\<lambda>i. va + of_nat i) ` {..<n}" for va n
    by (simp add: phys_def)
  have lo: "x < 0x1010" if "x \<in> phys blk_platform 0x1000 16" for x
    using that by (auto simp: phys word_less_nat_alt unat_word_ariths unat_of_nat)
  have hi: "0x2000 \<le> x" if "x \<in> phys blk_platform 0x2000 512" for x
    using that by (auto simp: phys word_le_nat_alt unat_word_ariths unat_of_nat)
  have "0x1800 \<notin> phys blk_platform 0x1000 16" "0x1800 \<notin> phys blk_platform 0x2000 512"
    using lo [of "0x1800"] hi [of "0x1800"] by auto
  moreover have "x \<notin> phys blk_platform 0x2000 512" if "x \<in> phys blk_platform 0x1000 16" for x
  proof
    assume x: "x \<in> phys blk_platform 0x2000 512"
    have "(0x2000 :: usize) < 0x1010"
      using hi [OF x] lo [OF that] by (rule order_le_less_trans)
    then show False
      by simp
  qed
  ultimately show ?thesis
    by (auto simp: blk_objects_ok_def sample_frame_def contiguous_sample)
qed

lemma sample_blk_submitted:
  assumes fl: "chain_flags ds" and len: "length ds \<le> 16"
  shows "submitted (mmio_transport blk_platform Modern) 16 ds
    (blk_queue sample_blk, with_request blk_platform sample_frame rq sample_world)
    (hd (new_chain ds (fresh_queue 16 0))) (blk_waiting ds rq)"
proof -
  obtain tok q1 where add: "VirtIoQueue_add 16 ds (fresh_queue 16 0) = (Ok tok, q1)"
    "tok = hd (new_chain ds (fresh_queue 16 0))" "queue_idx q1 = 0"
    "used q1 = used (fresh_queue 16 0)"
    using quiet_add [OF fresh_quiet_sizes(3) fl len, of 0] by (metis fresh_queue_def virtio_queue.select_convs(6))
  then show ?thesis
    by (simp add: submitted_def blk_waiting_def sample_blk_def should_notify_def fresh_queue_def
        zero_queue_def mmio_transport_def MmioTransport_notify_def volatile_defs sample_world_def
        with_request_def)
qed

lemma sample_serves_blk:
  assumes fl: "chain_flags ds" and len: "length ds \<le> 16"
  shows "\<exists>disk'. serves_blk blk_platform (blk_waiting ds rq)
    (hd (new_chain ds (fresh_queue 16 0))) 1 sample_disk disk'"
proof -
  note sub = sample_blk_submitted [OF fl len, of rq]
  note srv = sample_serves(1) [OF _ fl len sub, of sample_regs 1 "\<lambda>ch. on_memory (blk_eff ch)"]
    sample_serves_mem [OF _ fl len sub, of sample_regs 1 blk_eff]
  show ?thesis
    using srv sample_blk_quiet
    by (auto simp: serves_blk_def blk_eff_def split: option.splits) (metis prod.collapse)
qed

section \<open>Construction\<close>

text \<open>
  C13: A block driver constructed over MMIO has made the device live (DRIVER_OK), with exactly
  the features the driver remembers, at most FLUSH among them; the device has one queue, the
  driver's, of 16 entries at the true addresses, with all descriptors free; and the capacity is
  the 64-bit value of the two capacity registers, as read from the device.
\<close>

theorem blk_new_ready:
  assumes "VirtIOBlk_new P (mmio_transport P ver) w = (Ok b, w')" and "hal_queue_ok P 16"
  shows "mmio_view ver w' = \<lparr>v_status = 15, v_features = blk_negotiated_features b,
      v_queues = [0 \<mapsto> \<lparr>qc_size = 16, qc_desc = pg_paddr (queue_page (blk_queue b)),
        qc_driver = pg_paddr (queue_page (blk_queue b)) + AVAIL_RING_OFFSET 16,
        qc_device = pg_paddr (queue_page (blk_queue b)) + USED_RING_OFFSET 16\<rparr>],
      v_notified = v_notified (mmio_view ver w')\<rparr> \<and>
    quiet 16 (blk_queue b) \<and> and (blk_negotiated_features b) (not BlkFeature_FLUSH) = 0 \<and>
    (\<exists>hi lo. R32 0x104 hi \<in> set (trace w') \<and> R32 0x100 lo \<in> set (trace w') \<and>
      VirtIOBlk_capacity b = or (push_bit 32 (ucast hi)) (ucast lo))"
  using mmio.VirtIOBlk_new_view [OF assms] by (simp add: VirtIOBlk_capacity_def)

lemma sample_blk_new:
  "\<exists>b w'. VirtIOBlk_new blk_platform (mmio_transport blk_platform Modern) sample_world = (Ok b, w')"
  by (simp add: VirtIOBlk_new_def mmio.owning_Ok_iff begin_init_def finish_init_def
      VirtIoQueue_new_def mmio_transport_def mmio_defs volatile_defs bind_def andthen_def Let_def
      sample_regs_def is_power_of_two.simps add_ov_def BlkConfig_capacity_high_def
      BlkConfig_capacity_low_def CONFIG_OFFSET_def blk_QUEUE_SIZE_def owning_def)

lemma sample_hal_16: "hal_queue_ok blk_platform 16"
  by (rule sample_hal_ok; simp add: is_power_of_two.simps)

theorem blk_new_ready_witness:
  "\<exists>b w'. VirtIOBlk_new blk_platform (mmio_transport blk_platform Modern) sample_world = (Ok b, w') \<and>
     v_status (mmio_view Modern w') = 15 \<and> quiet 16 (blk_queue b)"
proof -
  obtain b w' where run:
    "VirtIOBlk_new blk_platform (mmio_transport blk_platform Modern) sample_world = (Ok b, w')"
    using sample_blk_new by blast
  have "v_status (mmio_view Modern w') = 15"
    using blk_new_ready [OF run sample_hal_16] by (metis transport_view.select_convs(1))
  then show ?thesis
    using blk_new_ready [OF run sample_hal_16] run by blast
qed

text \<open>
  C14: A construction that returns an error, at whatever step, leaves the device reset: status
  zero, no features, no queues, so the device does not use memory the failed driver gave up.
\<close>

theorem blk_new_error_resets:
  assumes "VirtIOBlk_new P (mmio_transport P ver) w = (Err e, w')"
  shows "v_status (mmio_view ver w') = 0 \<and> v_features (mmio_view ver w') = 0 \<and>
    (\<forall>q. v_queues (mmio_view ver w') q = None)"
  using mmio.owning_Err [OF assms [unfolded VirtIOBlk_new_def]] by simp

theorem blk_new_error_resets_witness:
  "\<exists>w'. VirtIOBlk_new (sample (\<lambda>_. 0) 1 blk_eff) (mmio_transport (sample (\<lambda>_. 0) 1 blk_eff) Modern)
       sample_world = (Err InvalidParam, w') \<and> v_status (mmio_view Modern w') = 0"
proof -
  have "\<exists>w'. VirtIOBlk_new (sample (\<lambda>_. 0) 1 blk_eff)
      (mmio_transport (sample (\<lambda>_. 0) 1 blk_eff) Modern) sample_world = (Err InvalidParam, w')"
    by (simp add: VirtIOBlk_new_def owning_def begin_init_def finish_init_def expect_def
        VirtIoQueue_new_def mmio_transport_def mmio_defs volatile_defs bind_def andthen_def Let_def
        is_power_of_two.simps blk_QUEUE_SIZE_def MmioTransport_drop_def)
  then show ?thesis
    using blk_new_error_resets by blast
qed

text \<open>
  A constructed driver never reports the device as read-only, whatever the device offers:
  the read-only feature is not among the features the driver negotiates.
\<close>

theorem blk_never_readonly:
  assumes "VirtIOBlk_new P (mmio_transport P ver) w = (Ok b, w')" and "hal_queue_ok P 16"
  shows "\<not> VirtIOBlk_readonly b"
  using mmio.VirtIOBlk_new_view(4) [OF assms] by (rule blk_not_readonly)

theorem blk_never_readonly_witness:
  "\<exists>b w'. VirtIOBlk_new blk_platform (mmio_transport blk_platform Modern) sample_world = (Ok b, w') \<and>
     \<not> VirtIOBlk_readonly b"
  using sample_blk_new blk_never_readonly [OF _ sample_hal_16] by blast

section \<open>Transfers\<close>

text \<open>
  C4: Reading blocks from a device that serves requests as the specification says returns
  success, and the caller's buffer then holds exactly the bytes of the disk from the requested
  sector on; the queue is free again. (The buffer is shorter than 4 GiB, physically contiguous
  and disjoint from the request, and the device completes the request at some poll.)
\<close>

theorem read_blocks_correct:
  assumes "quiet 16 (blk_queue b)" and "blk_objects_ok P fr buf (unat n)"
    and "n \<noteq> 0" and "n mod SECTOR_SIZE = 0" and "unat n < 2 ^ 32"
    and "submitted (mmio_transport P ver) 16 (blk_descs P fr (Some (buf, n, or NEXT WRITE)))
      (blk_queue b, with_request P fr (BlkReq_new In sector) w) tok t"
    and "serves_blk P t tok k disk disk'"
  shows "\<exists>q' w'. VirtIOBlk_read_blocks P (mmio_transport P ver) fr sector buf n (b, w) =
      (Ok (), (b\<lparr>blk_queue := q'\<rparr>, w')) \<and> quiet 16 q' \<and>
    load_bytes P buf (unat n) (mem w') =
      map (\<lambda>i. disk (unat sector * unat SECTOR_SIZE + i)) [0..<unat n]"
  using mmio.blk_read_transfer [OF assms(1,2,5,6,7)] assms(3,4)
  by (auto simp: VirtIOBlk_read_blocks_def SECTOR_SIZE_def)

lemma blk_descs_flags:
  "chain_flags (blk_descs P fr (Some (a, n, or NEXT WRITE)))"
  "chain_flags (blk_descs P fr (Some (a, n, NEXT)))" "chain_flags (blk_descs P fr None)"
  "length (blk_descs P fr (Some (a, n, f))) \<le> 16" "length (blk_descs P fr None) \<le> 16"
  by (rule blk_descs_ok(1), simp)+ (simp_all add: blk_descs_def)

theorem read_blocks_correct_witness:
  "\<exists>q' w'. VirtIOBlk_read_blocks blk_platform (mmio_transport blk_platform Modern) sample_frame 3
       0x2000 512 (sample_blk, sample_world) = (Ok (), (sample_blk\<lparr>blk_queue := q'\<rparr>, w')) \<and>
     load_bytes blk_platform 0x2000 512 (mem w') = replicate 512 3"
proof -
  let ?ds = "blk_descs blk_platform sample_frame (Some (0x2000, 512, or NEXT WRITE))"
  obtain disk' where srv: "serves_blk blk_platform (blk_waiting ?ds (BlkReq_new In 3))
      (hd (new_chain ?ds (fresh_queue 16 0))) 1 sample_disk disk'"
    using sample_serves_blk [OF blk_descs_flags(1) blk_descs_flags(4)] by blast
  have "map (\<lambda>i. sample_disk (unat (3 :: usize) * unat SECTOR_SIZE + i)) [0..<unat (512 :: usize)] =
      replicate 512 3"
  proof (intro nth_equalityI)
    fix i assume "i < length (map (\<lambda>i. sample_disk (unat (3 :: usize) * unat SECTOR_SIZE + i))
      [0..<unat (512 :: usize)])"
    then have i: "i < 512"
      by simp
    then have "(1536 + i) div 512 = 3"
      by (intro div_nat_eqI) simp_all
    with i show "map (\<lambda>i. sample_disk (unat (3 :: usize) * unat SECTOR_SIZE + i))
        [0..<unat (512 :: usize)] ! i = replicate 512 3 ! i"
      by (simp add: sample_disk_def SECTOR_SIZE_def)
  qed simp
  moreover have "\<exists>q' w'. VirtIOBlk_read_blocks blk_platform (mmio_transport blk_platform Modern)
      sample_frame 3 0x2000 512 (sample_blk, sample_world) =
        (Ok (), (sample_blk\<lparr>blk_queue := q'\<rparr>, w')) \<and> quiet 16 q' \<and>
      load_bytes blk_platform 0x2000 (unat (512 :: usize)) (mem w') =
        map (\<lambda>i. sample_disk (unat (3 :: usize) * unat SECTOR_SIZE + i)) [0..<unat (512 :: usize)]"
    by (rule read_blocks_correct [OF sample_blk_quiet _ _ _ _
          sample_blk_submitted [OF blk_descs_flags(1) blk_descs_flags(4)] srv])
      (simp_all add: sample_objects_ok SECTOR_SIZE_def)
  ultimately show ?thesis
    by simp blast
qed





text \<open>
  A read or write with an empty buffer, or one whose length is not a multiple of the sector
  size, is stopped by an assertion before anything reaches memory, the queue or the device.
\<close>

theorem blk_bad_length_panics:
  assumes "n = 0 \<or> n mod SECTOR_SIZE \<noteq> 0"
  shows "VirtIOBlk_read_blocks P T fr sector buf n s = (Panic, s) \<and>
    VirtIOBlk_write_blocks P T fr sector buf n s = (Panic, s)"
proof (cases "n = 0")
  case False
  then have "(n mod SECTOR_SIZE = 0) = False"
    using assms by simp
  then show ?thesis
    unfolding VirtIOBlk_read_blocks_def VirtIOBlk_write_blocks_def using False by simp
qed (simp add: VirtIOBlk_read_blocks_def VirtIOBlk_write_blocks_def)

theorem blk_bad_length_panics_witness:
  "VirtIOBlk_read_blocks blk_platform (mmio_transport blk_platform Modern) sample_frame 3 0x2000 100
     (sample_blk, sample_world) = (Panic, (sample_blk, sample_world))"
  using blk_bad_length_panics [of 100 blk_platform] by (simp add: SECTOR_SIZE_def)

end
