(* ===== verification/LentQueue.thy ===== *)
theory LentQueue
  imports VirtQueue
begin

text \<open>
  Receive queues. The input and the network driver lend one buffer to the device under every
  descriptor of a queue and, for each buffer the device fills, take it and lend it again. The
  lemmas show that lending all buffers of a fresh queue hands out the tokens in order, that a
  buffer that is lent again gets the token it had, and that completions by the device do not
  disturb this.
\<close>

section \<open>Queues whose buffers are all with the device\<close>

text \<open>
  Every descriptor but the ones in \<open>back\<close> is in flight as a chain of its own, and descriptor
  \<open>i\<close> describes the buffer \<open>bufs i\<close>.
\<close>

definition lent_except ::
  "nat \<Rightarrow> (nat \<Rightarrow> u64 \<times> u32 \<times> u16) \<Rightarrow> u16 list \<Rightarrow> virtio_queue \<Rightarrow> bool" where
  "lent_except N bufs back q \<longleftrightarrow>
     (\<exists>cs. vq_inv N q cs \<and> poped_used q = {} \<and> avail_desc_index q = back \<and>
       (\<forall>c \<in> set cs. length c = 1)) \<and>
     (\<forall>i < N. payload (table q ! i) = bufs i)"

definition all_lent :: "nat \<Rightarrow> (nat \<Rightarrow> u64 \<times> u32 \<times> u16) \<Rightarrow> virtio_queue \<Rightarrow> bool" where
  "all_lent N bufs q \<longleftrightarrow> lent_except N bufs [] q"

text \<open>The first \<open>k\<close> buffers have been lent, in order.\<close>

definition lent_upto :: "nat \<Rightarrow> (nat \<Rightarrow> u64 \<times> u32 \<times> u16) \<Rightarrow> nat \<Rightarrow> virtio_queue \<Rightarrow> bool" where
  "lent_upto N bufs k q \<longleftrightarrow>
     vq_inv N q (map (\<lambda>i. [of_nat i]) [0..<k]) \<and> poped_used q = {} \<and>
     avail_desc_index q = map of_nat [k..<N] \<and> (\<forall>i < k. payload (table q ! i) = bufs i)"

lemma chain_flags_single: "and (d_flags d) NEXT = 0 \<Longrightarrow> chain_flags [d]"
  by (simp add: chain_flags_def)

lemma add_single_table:
  assumes inv: "vq_inv N q cs" and fr: "avail_desc_index q = t # ts" and d: "and (d_flags d) NEXT = 0"
    and run: "VirtIoQueue_add N [d] q = (r, q')"
  shows "payload (table q' ! unat t) = payload d"
    and "\<And>i. i < N \<Longrightarrow> i \<noteq> unat t \<Longrightarrow> table q' ! i = table q ! i"
    and "queue_idx q' = queue_idx q" and "used q' = used q"
    and "last_seen_used q' = last_seen_used q"
proof -
  have nc: "new_chain [d] q = [t]"
    using fr by (simp add: new_chain_def)
  note add = VirtIoQueue_add_chain [OF inv chain_flags_single [OF d] _ run]
  show "payload (table q' ! unat t) = payload d" "queue_idx q' = queue_idx q" "used q' = used q"
    "last_seen_used q' = last_seen_used q"
    using add(3,4,6,10) nc fr by simp_all
  fix i assume i: "i < N" "i \<noteq> unat t"
  have "N \<le> 32768"
    using inv by (simp add: vq_inv_def vq_wf_def)
  then have "unat (of_nat i :: u16) = i"
    using i by (intro unat_of_nat_small) simp
  moreover from this have "of_nat i \<notin> set (new_chain [d] q)"
    using nc i by auto
  ultimately show "table q' ! i = table q ! i"
    using add(11) [of "of_nat i"] fr by simp
qed

lemma lent_upto_0:
  assumes "quiet N q" and "avail_desc_index q = map of_nat [0..<N]"
  shows "lent_upto N bufs 0 q"
  using assms by (simp add: lent_upto_def quiet_def)

lemma lent_upto_Suc:
  assumes l: "lent_upto N bufs k q" and k: "k < N" and d: "and (d_flags d) NEXT = 0"
    and b: "payload d = bufs k"
  shows "\<exists>q'. VirtIoQueue_add N [d] q = (Ok (of_nat k), q') \<and> lent_upto N bufs (Suc k) q' \<and>
    queue_idx q' = queue_idx q \<and> used q' = used q \<and> last_seen_used q' = last_seen_used q"
proof -
  have inv: "vq_inv N q (map (\<lambda>i. [of_nat i]) [0..<k])" and pop: "poped_used q = {}"
    and fr: "avail_desc_index q = of_nat k # map of_nat [Suc k..<N]"
    using l k by (simp_all add: lent_upto_def upt_conv_Cons)
  obtain q' where q': "VirtIoQueue_add N [d] q = (Ok (of_nat k), q')"
    "vq_inv N q' (map (\<lambda>i. [of_nat i]) [0..<k] @ [[of_nat k]])" "poped_used q' = {}"
    "avail_desc_index q' = map of_nat [Suc k..<N]"
    using vq.add_single [OF conjI [OF inv pop] chain_flags_single [OF d] fr] by auto
  note tab = add_single_table [OF inv fr d q'(1)]
  have "N \<le> 32768"
    using inv by (simp add: vq_inv_def vq_wf_def)
  then have uk: "unat (of_nat k :: u16) = k"
    using k by (intro unat_of_nat_small) simp
  have "payload (table q' ! i) = bufs i" if "i < Suc k" for i
    using tab(1,2) [unfolded uk] b l k that by (cases "i = k") (simp_all add: lent_upto_def)
  then show ?thesis
    using q' tab(3,4,5) by (simp add: lent_upto_def)
qed

lemma lent_upto_all:
  assumes "lent_upto N bufs N q"
  shows "all_lent N bufs q"
  using assms unfolding lent_upto_def all_lent_def lent_except_def by (intro conjI exI) auto

lemma lend_all:
  assumes "quiet N q" and "avail_desc_index q = map of_nat [0..<N]"
    and "\<And>i. and (d_flags (d i)) NEXT = 0"
  shows "\<exists>q'. lent_upto N (\<lambda>i. payload (d i)) N q' \<and> used q' = used q \<and> last_seen_used q' = last_seen_used q"
proof -
  have "\<exists>q'. lent_upto N (\<lambda>i. payload (d i)) k q' \<and> used q' = used q \<and> last_seen_used q' = last_seen_used q"
    if "k \<le> N" for k
    using that
  proof (induction k)
    case 0
    then show ?case
      using lent_upto_0 [OF assms(1,2)] by blast
  next
    case (Suc k)
    then obtain q1 where "lent_upto N (\<lambda>i. payload (d i)) k q1" "used q1 = used q"
      "last_seen_used q1 = last_seen_used q"
      by auto
    then show ?case
      using lent_upto_Suc [of N "\<lambda>i. payload (d i)" k q1 "d k"] Suc.prems assms(3) by auto
  qed
  then show ?thesis
    by simp
qed

lemma lent_token:
  assumes "lent_except N bufs back q" and "VirtIoQueue_peek_used N q = Some tok"
  shows "unat tok < N"
proof -
  obtain cs where cs: "vq_inv N q cs" "poped_used q = {}"
    using assms(1) by (auto simp: lent_except_def)
  obtain c where c: "c \<in> set cs" "hd c = tok"
    using peek_used_chain(1) [OF cs assms(2)] by auto
  then have "tok \<in> set c"
    using vq_inv_chain(1) [OF cs(1) c(1)] chain_linked_nonempty hd_in_set by blast
  then show ?thesis
    using vq_inv_chain(3) [OF cs(1) c(1)] by blast
qed

lemma lent_peek_None:
  "VirtIoQueue_peek_used N q = None \<Longrightarrow> completions N q = []"
  by (simp add: VirtIoQueue_peek_used_def completions_def pending_def split: if_splits)

lemma lent_distinct: "lent_except N bufs back q \<Longrightarrow> distinct back"
  by (auto simp: lent_except_def vq_inv_def)

text \<open>Taking the next completed buffer.\<close>

lemma lent_pop:
  assumes l: "lent_except N bufs back q" and peek: "VirtIoQueue_peek_used N q = Some tok"
  shows "\<exists>len q1. VirtIoQueue_pop_used N tok q = (Ok len, q1) \<and>
    lent_except N bufs (back @ [tok]) q1 \<and> completions N q = (tok, len) # completions N q1 \<and>
    queue_idx q1 = queue_idx q"
proof -
  obtain cs where cs: "vq_inv N q cs" "poped_used q = {}" "avail_desc_index q = back"
    "\<forall>c \<in> set cs. length c = 1"
    using l by (auto simp: lent_except_def)
  obtain c where c: "c \<in> set cs" "hd c = tok"
    using peek_used_chain(1) [OF cs(1,2) peek] by auto
  moreover have "length c = 1"
    using cs(4) c(1) by blast
  then have "c = [hd c]"
    by (cases c) simp_all
  ultimately have mem: "[tok] \<in> set cs"
    by simp
  have pk: "used_position N q (hd [tok]) = Some (last_seen_used q)" "last_seen_used q \<notin> poped_used q"
    using peek_used_chain(2) [OF cs(1,2) peek] cs(2) by simp_all
  obtain len q1 where run: "VirtIoQueue_pop_used N (hd [tok]) q = (Ok len, q1)"
    using VirtIoQueue_pop_used_inv(1) [OF cs(1) mem pk]
    by (cases "VirtIoQueue_pop_used N (hd [tok]) q") blast
  note pop = VirtIoQueue_pop_used_inv [OF cs(1) mem pk run]
  have "avq_step (abs_vq N (q, cs)) (Take tok len) (abs_vq N (q1, remove1 [tok] cs))"
    using take_simulates [OF cs(1,2) mem] peek run by simp
  then have "completions N q = (tok, len) # completions N q1"
    by (cases rule: avq_step.cases) (simp add: abs_vq_def)
  moreover have "\<forall>c \<in> set (remove1 [tok] cs). length c = 1"
    using cs(4) by (auto dest: notin_set_remove1)
  then have "lent_except N bufs (back @ [tok]) q1"
    using pop cs(2,3) l unfolding lent_except_def by auto
  ultimately show ?thesis
    using run pop by auto
qed

lemma lent_peek_iff:
  assumes "lent_except N bufs back q"
  shows "VirtIoQueue_peek_used N q = None \<longleftrightarrow> completions N q = []"
  using lent_pop [OF assms] lent_peek_None [of N q]
  by (cases "VirtIoQueue_peek_used N q") fastforce+

text \<open>Lending the first of the buffers that are back, in the place of the one before it.\<close>

lemma lent_add:
  assumes l: "lent_except N bufs (t # back) q" and d: "and (d_flags d) NEXT = 0"
    and b: "payload d = bufs (unat t)"
  shows "\<exists>q2. VirtIoQueue_add N [d] q = (Ok t, q2) \<and> lent_except N bufs back q2 \<and>
    completions N q2 = completions N q \<and> queue_idx q2 = queue_idx q"
proof -
  obtain cs where cs: "vq_inv N q cs" "poped_used q = {}" "avail_desc_index q = t # back"
    "\<forall>c \<in> set cs. length c = 1"
    using l by (auto simp: lent_except_def)
  obtain q2 where q2: "VirtIoQueue_add N [d] q = (Ok t, q2)" "vq_inv N q2 (cs @ [[t]])"
    "poped_used q2 = {}" "avail_desc_index q2 = back"
    using vq.add_single [OF conjI [OF cs(1,2)] chain_flags_single [OF d] cs(3)] by auto
  note tab = add_single_table [OF cs(1,3) d q2(1)]
  have "payload (table q2 ! i) = bufs i" if "i < N" for i
    using tab(1,2) b l that by (cases "i = unat t") (simp_all add: lent_except_def)
  then have "lent_except N bufs back q2"
    using q2 cs(4) unfolding lent_except_def by (intro conjI exI [of _ "cs @ [[t]]"]) auto
  moreover have "completions N q2 = completions N q"
    using entry_at_cong [OF tab(4), of N] pending_cong [OF tab(4,5)] q2(3) cs(2)
    by (simp add: completions_def)
  ultimately show ?thesis
    using q2(1) tab(3) by auto
qed

lemma lent_add_any:
  assumes l: "lent_except N bufs (t # back) q" and d: "and (d_flags d) NEXT = 0"
  shows "\<exists>q2. VirtIoQueue_add N [d] q = (Ok t, q2)"
proof -
  obtain cs where cs: "vq_inv N q cs" "poped_used q = {}" "avail_desc_index q = t # back"
    using l by (auto simp: lent_except_def)
  then show ?thesis
    using vq.add_single [OF conjI [OF cs(1,2)] chain_flags_single [OF d] cs(3)] by auto
qed

lemma all_lent_token:
  "all_lent N bufs q \<Longrightarrow> VirtIoQueue_peek_used N q = Some tok \<Longrightarrow> unat tok < N"
  by (auto simp: all_lent_def dest: lent_token)

lemma all_lent_recycle:
  assumes l: "all_lent N bufs q" and peek: "VirtIoQueue_peek_used N q = Some tok"
    and d: "and (d_flags d) NEXT = 0" and b: "payload d = bufs (unat tok)"
  shows "\<exists>len q1 q2. VirtIoQueue_pop_used N tok q = (Ok len, q1) \<and>
    VirtIoQueue_add N [d] q1 = (Ok tok, q2) \<and> all_lent N bufs q2 \<and>
    completions N q = (tok, len) # completions N q2 \<and> queue_idx q2 = queue_idx q"
proof -
  obtain len q1 where pop: "VirtIoQueue_pop_used N tok q = (Ok len, q1)"
    "lent_except N bufs ([] @ [tok]) q1" "completions N q = (tok, len) # completions N q1"
    "queue_idx q1 = queue_idx q"
    using lent_pop [OF l [unfolded all_lent_def] peek] by blast
  obtain q2 where "VirtIoQueue_add N [d] q1 = (Ok tok, q2)" "lent_except N bufs [] q2"
    "completions N q2 = completions N q1" "queue_idx q2 = queue_idx q1"
    using lent_add [of N bufs tok "[]" q1 d] pop(2) d b by auto
  then show ?thesis
    using pop by (auto simp: all_lent_def)
qed

text \<open>A completion by the device keeps every buffer lent.\<close>

lemma all_lent_complete:
  assumes l: "all_lent N bufs q" and tok: "unat tok < N"
    and new: "tok \<notin> fst ` set (completions N q)"
  shows "all_lent N bufs (device_complete N tok len q)"
proof -
  obtain cs where cs: "vq_inv N q cs" "poped_used q = {}" "avail_desc_index q = []"
    "\<forall>c \<in> set cs. length c = 1"
    using l by (auto simp: all_lent_def lent_except_def)
  have "tok \<in> set (concat cs)"
    using cs(1,3) tok by (auto simp: vq_inv_def)
  then obtain c where c: "c \<in> set cs" "tok \<in> set c"
    by auto
  moreover obtain x where "c = [x]"
    using cs(4) c(1) by (metis One_nat_def length_0_conv length_Suc_conv)
  ultimately have hd: "hd c = tok"
    by simp
  have "vq_step N (q, cs) (Complete (hd c) len) (device_complete N (hd c) len q, cs)"
    using new hd by (intro vq_complete c(1)) simp
  then have "vq_inorder N (device_complete N tok len q, cs)"
    using vq_step_inorder cs(1,2) hd by (fastforce simp: vq_inorder_def)
  then show ?thesis
    using l cs(3,4) unfolding all_lent_def lent_except_def vq_inorder_def
    by (auto simp: device_complete_def)
qed

text \<open>Adding a chain does not move the queue.\<close>

lemma add_loop_page: "queue_page (snd (add_loop N ds lst q)) = queue_page q"
  by (induction ds arbitrary: lst q) (auto simp: Let_def split: list.splits)

lemma VirtIoQueue_add_page: "keeps queue_page (VirtIoQueue_add N data)"
proof -
  have "queue_page (snd (VirtIoQueue_add N data q)) = queue_page q" for q
    using add_loop_page [of N "rev data" None q]
    by (auto simp: VirtIoQueue_add_def bind_def split: prod.splits outcome.splits option.splits)
  then show ?thesis
    by (simp add: keeps_def)
qed

lemma add_loop_idx: "queue_idx (snd (add_loop N ds lst q)) = queue_idx q"
  by (induction ds arbitrary: lst q) (auto simp: Let_def split: list.splits)

lemma VirtIoQueue_add_idx: "VirtIoQueue_add N data q = (r, q') \<Longrightarrow> queue_idx q' = queue_idx q"
  using add_loop_idx [of N "rev data" None q]
  by (auto simp: VirtIoQueue_add_def bind_def split: prod.splits outcome.splits option.splits if_splits)

end
