(* ===== verification/Input.thy ===== *)
theory Input
  imports LentQueue Bytes
begin

text \<open>
  The input driver, \<^verbatim>\<open>device/input/mod.rs\<close> and \<^verbatim>\<open>device/input/ty.rs\<close>. The boxed array of event
  buffers is its address, an argument of the constructor; event \<open>i\<close> occupies the eight bytes
  from \<open>event_buf + 8 * i\<close>.
\<close>

section \<open>Types (ty.rs)\<close>

datatype InputConfigSelect = Unset | IdName | IdSerial | IdDevids | PropBits | EvBits | AbsInfo

fun InputConfigSelect_discriminant :: "InputConfigSelect \<Rightarrow> u8" where
  "InputConfigSelect_discriminant Unset = 0x0"
| "InputConfigSelect_discriminant IdName = 0x01"
| "InputConfigSelect_discriminant IdSerial = 0x02"
| "InputConfigSelect_discriminant IdDevids = 0x03"
| "InputConfigSelect_discriminant PropBits = 0x10"
| "InputConfigSelect_discriminant EvBits = 0x11"
| "InputConfigSelect_discriminant AbsInfo = 0x12"

text \<open>The offsets of the configuration registers, as the type parameters of \<^verbatim>\<open>InputConfig\<close> give them.\<close>

definition InputConfig_select :: usize where "InputConfig_select = CONFIG_OFFSET"
definition InputConfig_subsel :: usize where "InputConfig_subsel = CONFIG_OFFSET + 0x1"
definition InputConfig_size :: usize where "InputConfig_size = CONFIG_OFFSET + 0x2"
definition InputConfig_data :: usize where "InputConfig_data = 0x8"

record InputEvent =
  event_type :: u16
  code :: u16
  val :: u32

definition InputEvent_of_bytes :: "u8 list \<Rightarrow> InputEvent" where
  "InputEvent_of_bytes bs =
     \<lparr>event_type = of_le_bytes (take 2 bs), code = of_le_bytes (take 2 (drop 2 bs)),
      val = of_le_bytes (take 4 (drop 4 bs))\<rparr>"

definition InputEvent_bytes :: "InputEvent \<Rightarrow> u8 list" where
  "InputEvent_bytes e = le_bytes 2 (event_type e) @ le_bytes 2 (code e) @ le_bytes 4 (val e)"

definition InputEvent_default :: InputEvent where
  "InputEvent_default = \<lparr>event_type = 0, code = 0, val = 0\<rparr>"

definition InputFeature_all :: u64 where
  "InputFeature_all = foldr (\<lambda>i a. or (push_bit i 1) a)
     [24, 27, 28, 29, 30, 32, 33, 34, 35, 36, 37, 38] 0"

section \<open>The driver (mod.rs)\<close>

definition QUEUE_EVENT :: u16 where "QUEUE_EVENT = 0"
definition QUEUE_STATUS :: u16 where "QUEUE_STATUS = 1"
definition input_SUPPORTED_FEATURES :: u64 where "input_SUPPORTED_FEATURES = 0"
definition input_QUEUE_SIZE :: nat where "input_QUEUE_SIZE = 32"

record virtio_input =
  event_queue :: virtio_queue
  status_queue :: virtio_queue
  event_buf :: usize

type_synonym ('d, 'a) iprog = "(virtio_input \<times> 'd world, virtio_error, 'a) prog"

definition event_descriptor :: "'d platform \<Rightarrow> usize \<Rightarrow> nat \<Rightarrow> descriptor" where
  "event_descriptor P buf i = Descriptor_new P (buf + 8 * of_nat i) 8 WRITE"

fun input_fill_loop :: "'d platform \<Rightarrow> usize \<Rightarrow> nat list \<Rightarrow> unit qprog" where
  "input_fill_loop P buf [] = ret ()"
| "input_fill_loop P buf (i # is) =
     bind (VirtIoQueue_add input_QUEUE_SIZE [event_descriptor P buf i]) (\<lambda>token.
     andthen (assert_that (token = of_nat i)) (input_fill_loop P buf is))"

definition VirtIOInput_new :: "'d platform \<Rightarrow> 'd transport \<Rightarrow> usize \<Rightarrow> ('d, virtio_input) wprog" where
  "VirtIOInput_new P T buf =
     owning T
     (bind (begin_init T InputFeature_all input_SUPPORTED_FEATURES) (\<lambda>_.
      andthen (modify (\<lambda>w. w\<lparr>mem := store_bytes P buf
        (concat (replicate input_QUEUE_SIZE (InputEvent_bytes InputEvent_default))) (mem w)\<rparr>))
     (bind (VirtIoQueue_new P T input_QUEUE_SIZE QUEUE_EVENT) (\<lambda>queue0.
      bind (VirtIoQueue_new P T input_QUEUE_SIZE QUEUE_STATUS) (\<lambda>status.
      bind (with_local (input_fill_loop P buf [0..<input_QUEUE_SIZE]) queue0) (\<lambda>(_, queue).
      andthen (if should_notify queue then t_notify T QUEUE_EVENT else ret ())
      (andthen (finish_init T)
      (ret \<lparr>event_queue = queue, status_queue = status, event_buf = buf\<rparr>))))))))"

definition VirtIOInput_ack_interrupt :: "'d transport \<Rightarrow> ('d, bool) iprog" where
  "VirtIOInput_ack_interrupt T = zoom snd (\<lambda>w (b, _). (b, w)) (t_ack_interrupt T)"

definition on_event_queue :: "'a qprog \<Rightarrow> ('d, 'a) iprog" where
  "on_event_queue = zoom (\<lambda>(s, w). event_queue s) (\<lambda>q (s, w). (s\<lparr>event_queue := q\<rparr>, w))"

definition VirtIOInput_pop_pending_event ::
  "'d platform \<Rightarrow> 'd transport \<Rightarrow> ('d, InputEvent option) iprog" where
  "VirtIOInput_pop_pending_event P T =
     bind (gets (\<lambda>(s, w). VirtIoQueue_peek_used input_QUEUE_SIZE (event_queue s))) (\<lambda>peeked.
     (case peeked of
        None \<Rightarrow> ret None
      | Some token \<Rightarrow>
          bind (on_event_queue (VirtIoQueue_pop_used input_QUEUE_SIZE token)) (\<lambda>_.
          andthen (assert_that (unat token < input_QUEUE_SIZE))
          (bind (gets (\<lambda>(s, w). (event_buf s, InputEvent_of_bytes
             (load_bytes P (event_buf s + 8 * ucast token) 8 (mem w))))) (\<lambda>(buf, event_saved).
           bind (on_event_queue (VirtIoQueue_add input_QUEUE_SIZE
             [event_descriptor P buf (unat token)])) (\<lambda>new_token.
           andthen (assert_that (new_token = token))
           (bind (gets (\<lambda>(s, w). should_notify (event_queue s))) (\<lambda>notify.
            andthen (if notify then zoom snd (\<lambda>w (s, _). (s, w)) (t_notify T QUEUE_EVENT)
                     else ret ())
            (ret (Some event_saved))))))))))"

text \<open>
  The slice \<^verbatim>\<open>out\<close> is its address and length; a size that exceeds it or the 128 bytes read is an
  index out of range.
\<close>

definition VirtIOInput_query_config_select ::
  "'d platform \<Rightarrow> InputConfigSelect \<Rightarrow> u8 \<Rightarrow> usize \<Rightarrow> usize \<Rightarrow> ('d, u8) wprog" where
  "VirtIOInput_query_config_select P select subsel out_ptr out_len =
     andthen (WriteOnly_write_u8 P InputConfig_select (InputConfigSelect_discriminant select))
     (andthen (WriteOnly_write_u8 P InputConfig_subsel subsel)
     (bind (ReadOnly_read_u8 P InputConfig_size) (\<lambda>sz.
      bind (ReadOnly_read_array P InputConfig_data 128) (\<lambda>data.
      andthen (assert_that (ucast sz \<le> out_len))
      (andthen (assert_that (unat sz \<le> 128))
      (andthen (modify (\<lambda>w. w\<lparr>mem := store_bytes P out_ptr (take (unat sz) data) (mem w)\<rparr>))
      (ret sz)))))))"

definition VirtIOInput_drop :: "'d transport \<Rightarrow> ('d, unit) iprog" where
  "VirtIOInput_drop T =
     zoom snd (\<lambda>w (s, _). (s, w))
       (andthen (expect (t_queue_unset T QUEUE_EVENT))
       (andthen (expect (t_queue_unset T QUEUE_STATUS)) (t_drop T)))"

section \<open>Buffers and events\<close>

abbreviation event_bufs :: "'d platform \<Rightarrow> usize \<Rightarrow> nat \<Rightarrow> u64 \<times> u32 \<times> u16" where
  "event_bufs P buf \<equiv> \<lambda>i. payload (event_descriptor P buf i)"

lemma event_descriptor_flags: "and (d_flags (event_descriptor P buf i)) NEXT = 0"
  by (simp add: event_descriptor_def Descriptor_new_def NEXT_def WRITE_def)

lemma InputEvent_roundtrip: "InputEvent_of_bytes (InputEvent_bytes e) = e"
  by (simp add: InputEvent_of_bytes_def InputEvent_bytes_def of_le_bytes_exact)

section \<open>Lending all event buffers\<close>

lemma input_fill_loop_page: "keeps queue_page (input_fill_loop P buf is)"
  by (induction "is") (simp_all only: input_fill_loop.simps keeps_rules VirtIoQueue_add_page)

lemma input_fill_loop_Ok:
  assumes "lent_upto 32 (event_bufs P buf) k q" and "k + m = 32"
  shows "\<exists>q'. input_fill_loop P buf [k..<32] q = (Ok (), q') \<and>
    lent_upto 32 (event_bufs P buf) 32 q' \<and> used q' = used q \<and> queue_idx q' = queue_idx q \<and>
    last_seen_used q' = last_seen_used q"
  using assms
proof (induction m arbitrary: k q)
  case 0
  then show ?case by simp
next
  case (Suc m)
  then have k: "k < 32" "Suc k + m = 32"
    by simp_all
  obtain q1 where q1: "VirtIoQueue_add 32 [event_descriptor P buf k] q = (Ok (of_nat k), q1)"
    "lent_upto 32 (event_bufs P buf) (Suc k) q1" "queue_idx q1 = queue_idx q" "used q1 = used q"
    "last_seen_used q1 = last_seen_used q"
    using lent_upto_Suc [OF Suc.prems(1) k(1) event_descriptor_flags refl] by blast
  then have "input_fill_loop P buf [k..<32] q = input_fill_loop P buf [Suc k..<32] q1"
    using k(1) by (simp add: upt_conv_Cons bind_def input_QUEUE_SIZE_def)
  then show ?case
    using Suc.IH [OF q1(2) k(2)] q1(3,4,5) by simp
qed

section \<open>Events\<close>

lemma pop_pending_event_None:
  "VirtIoQueue_peek_used 32 (event_queue s) = None \<Longrightarrow>
   VirtIOInput_pop_pending_event P T (s, w) = (Ok None, (s, w))"
  by (simp add: VirtIOInput_pop_pending_event_def bind_def input_QUEUE_SIZE_def)

lemma on_event_queue_eq:
  "on_event_queue m (s, w) = (fst (m (event_queue s)), (s\<lparr>event_queue := snd (m (event_queue s))\<rparr>, w))"
  by (simp add: on_event_queue_def zoom_def split: prod.splits)

lemma pop_pending_event_Some:
  assumes l: "all_lent 32 (event_bufs P (event_buf s)) (event_queue s)"
    and peek: "VirtIoQueue_peek_used 32 (event_queue s) = Some tok"
  shows "\<exists>len q2. all_lent 32 (event_bufs P (event_buf s)) q2 \<and>
    completions 32 (event_queue s) = (tok, len) # completions 32 q2 \<and>
    VirtIOInput_pop_pending_event P T (s, w) =
      andthen (if should_notify q2 then zoom snd (\<lambda>w (s, _). (s, w)) (t_notify T QUEUE_EVENT)
               else ret ())
        (ret (Some (InputEvent_of_bytes
          (load_bytes P (event_buf s + 8 * ucast tok) 8 (mem w)))))
        (s\<lparr>event_queue := q2\<rparr>, w)"
proof -
  have tok: "unat tok < 32"
    using all_lent_token [OF l peek] .
  obtain len q1 q2 where r: "VirtIoQueue_pop_used 32 tok (event_queue s) = (Ok len, q1)"
    "VirtIoQueue_add 32 [event_descriptor P (event_buf s) (unat tok)] q1 = (Ok tok, q2)"
    "all_lent 32 (event_bufs P (event_buf s)) q2"
    "completions 32 (event_queue s) = (tok, len) # completions 32 q2"
    using all_lent_recycle [OF l peek event_descriptor_flags refl] by blast
  then show ?thesis
    using peek tok
    by (intro exI [of _ len] exI [of _ q2])
      (simp add: VirtIOInput_pop_pending_event_def bind_def input_QUEUE_SIZE_def on_event_queue_eq
        andthen_def split: prod.splits outcome.splits)
qed

section \<open>Configuration queries\<close>

lemma query_config_trace:
  assumes "VirtIOInput_query_config_select P select subsel out_ptr out_len w = (Ok sz, w')"
  shows "\<exists>data. length data = 128 \<and> unat sz \<le> 128 \<and> ucast sz \<le> out_len \<and>
    trace w' = trace w @ [W8 0x100 (InputConfigSelect_discriminant select), W8 0x101 subsel,
      R8 0x102 sz] @ map (\<lambda>i. R8 (0x8 + of_nat i) (data ! i)) [0..<128] \<and>
    mem w' = store_bytes P out_ptr (take (unat sz) data) (mem w)"
proof -
  obtain w1 w2 w3 data w4 where
    s1: "io_write_u8 P 0x100 (InputConfigSelect_discriminant select) w = (Ok (), w1)" and
    s2: "io_write_u8 P 0x101 subsel w1 = (Ok (), w2)" and
    s3: "io_read_u8 P 0x102 w2 = (Ok sz, w3)" and
    s4: "ReadOnly_read_array P 0x8 128 w3 = (Ok data, w4)" and
    fit: "ucast sz \<le> out_len" "unat sz \<le> 128" and
    w': "w' = w4\<lparr>mem := store_bytes P out_ptr (take (unat sz) data) (mem w4)\<rparr>"
    using assms
    by (auto simp: VirtIOInput_query_config_select_def prog_Ok_iffs volatile_defs
        InputConfig_select_def InputConfig_subsel_def InputConfig_size_def InputConfig_data_def
        CONFIG_OFFSET_def)
  have "mem w4 = mem w"
  proof -
    have "emits (\<lambda>_. True) (io_write_u8 P off b)" "emits (\<lambda>_. True) (io_read_u8 P off)"
      "emits (\<lambda>_. True) (ReadOnly_read_array P off n)" for off b n
      by (auto intro: emits_rules)
    then show ?thesis
      using s1 s2 s3 s4 by (metis emitsE)
  qed
  then show ?thesis
    using io_write_u8_Ok [OF s1] io_write_u8_Ok [OF s2] io_read_u8_Ok [OF s3]
      ReadOnly_read_array_Ok [OF s4] fit w' by (intro exI [of _ data]) simp
qed

context transport_contract
begin

lemma VirtIOInput_new_view:
  assumes run: "VirtIOInput_new P T buf w = (Ok s, w')" and ok: "hal_queue_ok P 32"
  shows "v_status (view w') = 15" and "v_features (view w') = 0"
    and "v_queues (view w') 0 = Some \<lparr>qc_size = 32, qc_desc = pg_paddr (queue_page (event_queue s)),
        qc_driver = pg_paddr (queue_page (event_queue s)) + AVAIL_RING_OFFSET 32,
        qc_device = pg_paddr (queue_page (event_queue s)) + USED_RING_OFFSET 32\<rparr>"
    and "v_queues (view w') 1 = Some \<lparr>qc_size = 32, qc_desc = pg_paddr (queue_page (status_queue s)),
        qc_driver = pg_paddr (queue_page (status_queue s)) + AVAIL_RING_OFFSET 32,
        qc_device = pg_paddr (queue_page (status_queue s)) + USED_RING_OFFSET 32\<rparr>"
    and "all_lent 32 (event_bufs P buf) (event_queue s)" and "quiet 32 (status_queue s)"
    and "event_buf s = buf"
proof -
  let ?init = "store_bytes P buf (concat (replicate 32 (InputEvent_bytes InputEvent_default)))"
  obtain f w1 q0 w2 st w3 q1 w4 where
    init: "begin_init T InputFeature_all 0 w = (Ok f, w1)" and
    nq: "VirtIoQueue_new P T 32 0 (w1\<lparr>mem := ?init (mem w1)\<rparr>) = (Ok q0, w2)" and
    ns: "VirtIoQueue_new P T 32 1 w2 = (Ok st, w3)" and
    fill: "input_fill_loop P buf [0..<32] q0 = (Ok (), q1)" and
    nt: "(if should_notify q1 then t_notify T QUEUE_EVENT else ret ()) w3 = (Ok (), w4)" and
    fin: "finish_init T w4 = (Ok (), w')" and
    s: "s = \<lparr>event_queue = q1, status_queue = st, event_buf = buf\<rparr>"
    using run
    by (auto simp: VirtIOInput_new_def owning_Ok_iff prog_Ok_iffs with_local_Ok_iff QUEUE_EVENT_def
        QUEUE_STATUS_def input_QUEUE_SIZE_def input_SUPPORTED_FEATURES_def split: prod.splits)
  note bi = begin_init_Ok [OF init]
  let ?w = "w1\<lparr>mem := ?init (mem w1)\<rparr>"
  have v1: "view ?w = view w1" "ready ?w"
    using config_frame [of ?w w1 "[]"] bi(4) by simp_all
  note v2 = VirtIoQueue_new_view [OF nq v1(2) ok] and v3 = VirtIoQueue_new_view [OF ns _ ok]
  have q0: "quiet 32 q0" "avail_desc_index q0 = map of_nat [0..<32]"
    using VirtIoQueue_new_quiet [OF nq ok] nq by (auto elim: VirtIoQueue_new_parts)
  obtain q' where q': "input_fill_loop P buf [0..<32] q0 = (Ok (), q')"
    "lent_upto 32 (event_bufs P buf) 32 q'"
    using input_fill_loop_Ok [OF lent_upto_0 [OF q0], where m = 32] by auto
  show "all_lent 32 (event_bufs P buf) (event_queue s)"
    using q' fill s by (simp add: lent_upto_all)
  show "quiet 32 (status_queue s)" "event_buf s = buf"
    using VirtIoQueue_new_quiet [OF ns ok] s by simp_all
  have page: "queue_page q1 = queue_page q0"
    using keepsD [OF input_fill_loop_page fill] .
  have v4: "v_status (view w4) = v_status (view w3) \<and> v_features (view w4) = v_features (view w3) \<and>
      v_queues (view w4) = v_queues (view w3)"
    using nt notify_Ok [of QUEUE_EVENT w3 "()" w4] by (auto split: if_splits)
  note v5 = finish_init_Ok [OF fin]
  have "f = 0"
    using bi(5) by simp
  then show "v_status (view w') = 15" "v_features (view w') = 0"
    using v5 v4 v3(1) v2 v1 bi(2) by simp_all
  show "v_queues (view w') 0 = Some \<lparr>qc_size = 32, qc_desc = pg_paddr (queue_page (event_queue s)),
        qc_driver = pg_paddr (queue_page (event_queue s)) + AVAIL_RING_OFFSET 32,
        qc_device = pg_paddr (queue_page (event_queue s)) + USED_RING_OFFSET 32\<rparr>"
    using v5 v4 v3(1) v2 s page by simp
  show "v_queues (view w') 1 = Some \<lparr>qc_size = 32, qc_desc = pg_paddr (queue_page (status_queue s)),
        qc_driver = pg_paddr (queue_page (status_queue s)) + AVAIL_RING_OFFSET 32,
        qc_device = pg_paddr (queue_page (status_queue s)) + USED_RING_OFFSET 32\<rparr>"
    using v5 v4 v3(1) v2 s by simp
qed
end

end
