(* ===== verification/InputProps.thy ===== *)
theory InputProps
  imports Input Sample
begin

text \<open>
  The properties of the input driver over the MMIO transport: after construction every event
  buffer is with the device, taking events keeps it that way and never trips the assertion on
  the token, and what a configuration query really reads.
\<close>

text \<open>
  C18: An input driver constructed over MMIO has made the device live with no optional
  features, has configured the event queue and the status queue at their true addresses, and
  has lent all 32 event buffers to the device, buffer \<open>i\<close> under token \<open>i\<close>.
\<close>

theorem input_new_ready:
  assumes "VirtIOInput_new P (mmio_transport P ver) buf w = (Ok s, w')" and "hal_queue_ok P 32"
  shows "v_status (mmio_view ver w') = 15 \<and> v_features (mmio_view ver w') = 0 \<and>
    map_option qc_desc (v_queues (mmio_view ver w') QUEUE_EVENT) =
      Some (pg_paddr (queue_page (event_queue s))) \<and>
    map_option qc_desc (v_queues (mmio_view ver w') QUEUE_STATUS) =
      Some (pg_paddr (queue_page (status_queue s))) \<and>
    all_lent 32 (event_bufs P buf) (event_queue s) \<and> quiet 32 (status_queue s)"
  using mmio.VirtIOInput_new_view [OF assms] by (simp add: QUEUE_EVENT_def QUEUE_STATUS_def)

abbreviation input_platform :: "unit platform" where
  "input_platform \<equiv> sample sample_regs 8 (\<lambda>_ m. m)"

lemma sample_filled:
  "\<exists>q'. input_fill_loop input_platform 0x3000 [0..<32] (fresh_queue 32 i) = (Ok (), q') \<and>
     all_lent 32 (event_bufs input_platform 0x3000) q' \<and> used q' = used (fresh_queue 32 i) \<and>
     last_seen_used q' = 0"
proof -
  have "lent_upto 32 (event_bufs input_platform 0x3000) 0 (fresh_queue 32 i)"
    using fresh_quiet_sizes(4) by (rule lent_upto_0) (simp add: fresh_queue_def)
  then show ?thesis
    using input_fill_loop_Ok [of input_platform "0x3000" 0 "fresh_queue 32 i" 32] lent_upto_all
    by (auto simp: fresh_queue_def)
qed

lemma sample_input_new:
  "\<exists>s w'. VirtIOInput_new input_platform (mmio_transport input_platform Modern) 0x3000 sample_world =
     (Ok s, w')"
proof -
  let ?T = "mmio_transport input_platform Modern"
  let ?clear = "\<lambda>w. w\<lparr>mem := store_bytes input_platform 0x3000
    (concat (replicate 32 (InputEvent_bytes InputEvent_default))) (mem w)\<rparr>"
  obtain q' where q': "input_fill_loop input_platform 0x3000 [0..<32] (fresh_queue 32 0) = (Ok (), q')"
    using sample_filled by blast
  obtain f w1 where w1: "begin_init ?T InputFeature_all input_SUPPORTED_FEATURES sample_world = (Ok f, w1)"
    using sample_begin_init by blast
  have queue: "\<exists>w'. VirtIoQueue_new input_platform ?T 32 i w = (Ok (fresh_queue 32 i), w')" for i w
    by (rule sample_new_queue) (simp_all add: is_power_of_two.simps sample_regs_def)
  obtain w2 where w2: "VirtIoQueue_new input_platform ?T 32 0 (?clear w1) = (Ok (fresh_queue 32 0), w2)"
    using queue by blast
  obtain w3 where w3: "VirtIoQueue_new input_platform ?T 32 1 w2 = (Ok (fresh_queue 32 1), w3)"
    using queue by blast
  obtain w4 where w4: "(if should_notify q' then t_notify ?T QUEUE_EVENT else ret ()) w3 = (Ok (), w4)"
    using sample_notify [of sample_regs 8 "\<lambda>_. on_memory (\<lambda>m. m)" QUEUE_EVENT w3] by (cases "should_notify q'") auto
  obtain w5 where w5: "finish_init ?T w4 = (Ok (), w5)"
    using sample_finish_init by blast
  show ?thesis
    using w1 w2 w3 w4 w5 q'
    by (simp add: VirtIOInput_new_def owning_def bind_def andthen_def with_local_def
        QUEUE_EVENT_def QUEUE_STATUS_def input_QUEUE_SIZE_def)
qed

theorem input_new_ready_witness:
  "\<exists>s w'. VirtIOInput_new input_platform (mmio_transport input_platform Modern) 0x3000 sample_world =
     (Ok s, w') \<and> v_status (mmio_view Modern w') = 15"
proof -
  have "hal_queue_ok input_platform 32"
    by (rule sample_hal_ok; simp add: is_power_of_two.simps)
  then show ?thesis
    using sample_input_new input_new_ready by blast
qed



text \<open>
  C19: A configuration query selects through the registers at 0x100 and 0x101 and takes the
  size from 0x102, but reads the 128 data bytes from offset 0x8 of the device, that is from its
  identification registers, and not from offset 0x108, where the configuration space has them;
  it copies as many of them as the size says.
\<close>

theorem query_config_reads_identification:
  assumes "VirtIOInput_query_config_select P select subsel out_ptr out_len w = (Ok sz, w')"
  shows "\<exists>data. length data = 128 \<and> unat sz \<le> 128 \<and> ucast sz \<le> out_len \<and>
    trace w' = trace w @ [W8 0x100 (InputConfigSelect_discriminant select), W8 0x101 subsel,
      R8 0x102 sz] @ map (\<lambda>i. R8 (0x8 + of_nat i) (data ! i)) [0..<128] \<and>
    mem w' = store_bytes P out_ptr (take (unat sz) data) (mem w)"
  using assms by (rule query_config_trace)

theorem query_config_reads_identification_witness:
  "\<exists>w'. VirtIOInput_query_config_select input_platform IdName 0 0x4000 16 sample_world = (Ok 0, w') \<and>
     (\<exists>v. R8 0x8 v \<in> set (trace w'))"
proof -
  obtain bs h where "\<And>w. ReadOnly_read_array input_platform 0x8 128 w = (Ok (bs w), h w)"
    using sample_read_array by metis
  then obtain w' where run:
    "VirtIOInput_query_config_select input_platform IdName 0 0x4000 16 sample_world = (Ok 0, w')"
    by (simp add: VirtIOInput_query_config_select_def bind_def andthen_def volatile_defs
        InputConfig_select_def InputConfig_subsel_def InputConfig_size_def InputConfig_data_def
        CONFIG_OFFSET_def sample_regs_def)
  obtain data :: "u8 list" where "trace w' = trace sample_world @
      [W8 0x100 (InputConfigSelect_discriminant IdName), W8 0x101 0, R8 0x102 0] @
      map (\<lambda>i. R8 (0x8 + of_nat i) (data ! i)) [0..<128]"
    using query_config_reads_identification [OF run] by blast
  then have "R8 0x8 (data ! 0) \<in> set (trace w')"
    by (auto intro!: rev_image_eqI [of 0])
  then show ?thesis
    using run by blast
qed

text \<open>
  A construction of the input driver that returns an error leaves the device reset, so
  that it does not write events into buffers the failed driver gave up.
\<close>

theorem input_new_error_resets:
  assumes "VirtIOInput_new P (mmio_transport P ver) buf w = (Err e, w')"
  shows "v_status (mmio_view ver w') = 0 \<and> v_features (mmio_view ver w') = 0 \<and>
    (\<forall>q. v_queues (mmio_view ver w') q = None)"
  using mmio.owning_Err [OF assms [unfolded VirtIOInput_new_def]] by simp

theorem input_new_error_resets_witness:
  "\<exists>w'. VirtIOInput_new (sample (\<lambda>_. 0) 8 (\<lambda>_ m. m)) (mmio_transport (sample (\<lambda>_. 0) 8 (\<lambda>_ m. m)) Modern)
       0x3000 sample_world = (Err InvalidParam, w') \<and> v_status (mmio_view Modern w') = 0"
proof -
  have "\<exists>w'. VirtIOInput_new (sample (\<lambda>_. 0) 8 (\<lambda>_ m. m))
      (mmio_transport (sample (\<lambda>_. 0) 8 (\<lambda>_ m. m)) Modern) 0x3000 sample_world = (Err InvalidParam, w')"
    by (simp add: VirtIOInput_new_def owning_def begin_init_def finish_init_def expect_def
        VirtIoQueue_new_def mmio_transport_def mmio_defs volatile_defs bind_def andthen_def Let_def
        is_power_of_two.simps input_QUEUE_SIZE_def MmioTransport_drop_def)
  then show ?thesis
    using input_new_error_resets by blast
qed

end
