(* ===== verification/Net.thy ===== *)
theory Net
  imports LentQueue Bytes
begin

text \<open>
  The network driver: \<^verbatim>\<open>device/net/ty.rs\<close>, the raw driver \<^verbatim>\<open>device/net/raw.rs\<close> and the driver with
  receive buffers \<^verbatim>\<open>device/net/mod.rs\<close>. A slice is its address and length. The receive buffers
  are allocated by the constructor, so their addresses are an argument of it. The size of the
  queues, a type parameter of the driver, is the argument \<open>N\<close>.
\<close>

section \<open>Types (ty.rs)\<close>

definition MIN_BUFFER_LEN :: usize where "MIN_BUFFER_LEN = 1526"
definition NET_HDR_SIZE :: usize where "NET_HDR_SIZE = 10"

definition NetFeatures_MAC :: u64 where "NetFeatures_MAC = push_bit 5 1"
definition NetFeatures_STATUS :: u64 where "NetFeatures_STATUS = push_bit 16 1"

definition NetFeatures_all :: u64 where
  "NetFeatures_all = foldr (\<lambda>i a. or (push_bit i 1) a)
     [0, 1, 2, 3, 5, 6, 7, 8, 9, 10, 11, 12, 13, 14, 15, 16, 17, 18, 19, 20, 21, 22, 23, 28, 29, 32] 0"

definition NetConfig_mac :: usize where "NetConfig_mac = CONFIG_OFFSET"
definition NetConfig_status :: usize where "NetConfig_status = CONFIG_OFFSET + 6"

record VirtioNetHdr =
  hdr_flags :: u8
  hdr_gso_type :: u8
  hdr_hdr_len :: u16
  hdr_gso_size :: u16
  hdr_csum_start :: u16
  hdr_csum_offset :: u16

definition VirtioNetHdr_default :: VirtioNetHdr where
  "VirtioNetHdr_default = \<lparr>hdr_flags = 0, hdr_gso_type = 0, hdr_hdr_len = 0, hdr_gso_size = 0,
     hdr_csum_start = 0, hdr_csum_offset = 0\<rparr>"

definition VirtioNetHdr_write_to :: "VirtioNetHdr \<Rightarrow> (u8 list, virtio_error, unit) prog" where
  "VirtioNetHdr_write_to h target =
     (if length target \<ge> 10 then
        (Ok (), target[0 := hdr_flags h, 1 := hdr_gso_type h,
           2 := ucast (hdr_hdr_len h), 3 := ucast (drop_bit 8 (hdr_hdr_len h)),
           4 := ucast (hdr_gso_size h), 5 := ucast (drop_bit 8 (hdr_gso_size h)),
           6 := ucast (hdr_csum_start h), 7 := ucast (drop_bit 8 (hdr_csum_start h)),
           8 := ucast (hdr_csum_offset h), 9 := ucast (drop_bit 8 (hdr_csum_offset h))])
      else (Panic, target))"

definition VirtioNetHdr_equal :: "VirtioNetHdr \<Rightarrow> u8 list \<Rightarrow> ('s, virtio_error, bool) prog" where
  "VirtioNetHdr_equal h target =
     andthen (assert_that (length target \<ge> 10))
     (ret (target ! 0 = hdr_flags h \<and> target ! 1 = hdr_gso_type h \<and>
        target ! 2 = ucast (hdr_hdr_len h) \<and> target ! 3 = ucast (drop_bit 8 (hdr_hdr_len h)) \<and>
        target ! 4 = ucast (hdr_gso_size h) \<and> target ! 5 = ucast (drop_bit 8 (hdr_gso_size h)) \<and>
        target ! 6 = ucast (hdr_csum_start h) \<and> target ! 7 = ucast (drop_bit 8 (hdr_csum_start h)) \<and>
        target ! 8 = ucast (hdr_csum_offset h) \<and> target ! 9 = ucast (drop_bit 8 (hdr_csum_offset h))))"

definition QUEUE_RECEIVE :: u16 where "QUEUE_RECEIVE = 0"
definition QUEUE_TRANSMIT :: u16 where "QUEUE_TRANSMIT = 1"

definition net_SUPPORTED_FEATURES :: u64 where
  "net_SUPPORTED_FEATURES = or NetFeatures_MAC NetFeatures_STATUS"

section \<open>The raw driver (raw.rs)\<close>

record net_raw =
  mac :: "u8 list"
  recv_queue :: virtio_queue
  send_queue :: virtio_queue

type_synonym ('d, 'a) nprog = "(net_raw \<times> 'd world, virtio_error, 'a) prog"

definition on_recv :: "('d, 'a) qwprog \<Rightarrow> ('d, 'a) nprog" where
  "on_recv = zoom (\<lambda>(s, w). (recv_queue s, w)) (\<lambda>(q, w) (s, _). (s\<lparr>recv_queue := q\<rparr>, w))"

definition on_send :: "('d, 'a) qwprog \<Rightarrow> ('d, 'a) nprog" where
  "on_send = zoom (\<lambda>(s, w). (send_queue s, w)) (\<lambda>(q, w) (s, _). (s\<lparr>send_queue := q\<rparr>, w))"

definition on_io :: "('d, 'a) wprog \<Rightarrow> ('d, 'a) nprog" where
  "on_io = zoom snd (\<lambda>w (s, _). (s, w))"

text \<open>
  The result of the feature negotiation is only logged, so an error of it does not stop the
  construction. The status register is read to be logged, when the log level \<open>log_debug\<close> of the
  application asks for it, and the result is not looked at.
\<close>

definition ignore :: "('s, 'e, 'a) prog \<Rightarrow> ('s, 'e, unit) prog" where
  "ignore m s = (case m s of (Ok _, s') \<Rightarrow> (Ok (), s') | (Err _, s') \<Rightarrow> (Ok (), s')
     | (Panic, s') \<Rightarrow> (Panic, s') | (Hang, s') \<Rightarrow> (Hang, s'))"

definition VirtIONetRaw_new ::
  "'d platform \<Rightarrow> 'd transport \<Rightarrow> nat \<Rightarrow> bool \<Rightarrow> ('d, net_raw) wprog" where
  "VirtIONetRaw_new P T N log_debug =
     owning T
     (andthen (ignore (begin_init T NetFeatures_all net_SUPPORTED_FEATURES))
     (bind (ReadOnly_read_array P NetConfig_mac 6) (\<lambda>mac.
      andthen (if log_debug then ignore (ReadOnly_read_u16 P NetConfig_status) else ret ())
     (bind (VirtIoQueue_new P T N QUEUE_RECEIVE) (\<lambda>recv_queue.
      bind (VirtIoQueue_new P T N QUEUE_TRANSMIT) (\<lambda>send_queue.
      andthen (finish_init T)
      (ret \<lparr>mac = mac, recv_queue = recv_queue, send_queue = send_queue\<rparr>)))))))"

definition VirtIONetRaw_ack_interrupt :: "'d transport \<Rightarrow> ('d, bool) nprog" where
  "VirtIONetRaw_ack_interrupt T = on_io (t_ack_interrupt T)"

definition VirtIONetRaw_mac_address :: "('d, u8 list) nprog" where
  "VirtIONetRaw_mac_address = gets (\<lambda>(s, w). mac s)"

definition VirtIONetRaw_can_send :: "('d, bool) nprog" where
  "VirtIONetRaw_can_send = gets (\<lambda>(s, w). available_desc (send_queue s) \<ge> 2)"

definition VirtIONetRaw_can_recv :: "nat \<Rightarrow> ('d, (u16 \<times> usize) option) nprog" where
  "VirtIONetRaw_can_recv N =
     bind (gets (\<lambda>(s, w). VirtIoQueue_peek_used N (recv_queue s))) (\<lambda>peeked.
     (case peeked of
        None \<Rightarrow> ret None
      | Some token \<Rightarrow>
          bind (on_recv (on_q (VirtIoQueue_get_desc_len token))) (\<lambda>len.
          ret (Some (token, len)))))"

definition check_rx_buf_len :: "usize \<Rightarrow> ('s, virtio_error, unit) prog" where
  "check_rx_buf_len rx_len = (if rx_len < MIN_BUFFER_LEN then throw InvalidParam else ret ())"

definition check_tx_buf_header :: "u8 list \<Rightarrow> ('s, virtio_error, unit) prog" where
  "check_tx_buf_header tx_buf =
     (if length tx_buf < unat NET_HDR_SIZE then throw InvalidParam
      else bind (VirtioNetHdr_equal VirtioNetHdr_default tx_buf) (\<lambda>eq.
        if eq then ret () else throw InvalidParam))"

definition fill_buffer_header :: "'d platform \<Rightarrow> usize \<Rightarrow> usize \<Rightarrow> ('d, usize) nprog" where
  "fill_buffer_header P buf_ptr buf_len =
     (if buf_len < NET_HDR_SIZE then throw InvalidParam
      else bind (gets (\<lambda>(s, w). load_bytes P buf_ptr 10 (mem w))) (\<lambda>head.
        bind (with_local (VirtioNetHdr_write_to VirtioNetHdr_default) head) (\<lambda>(_, head').
        andthen (modify (\<lambda>(s, w). (s, w\<lparr>mem := store_bytes P buf_ptr head' (mem w)\<rparr>)))
        (ret NET_HDR_SIZE))))"

definition transmit_begin ::
  "'d platform \<Rightarrow> 'd transport \<Rightarrow> nat \<Rightarrow> usize \<Rightarrow> usize \<Rightarrow> ('d, u16) nprog" where
  "transmit_begin P T N tx_ptr tx_len =
     bind (gets (\<lambda>(s, w). load_bytes P tx_ptr (unat tx_len) (mem w))) (\<lambda>tx_buf.
     andthen (check_tx_buf_header tx_buf)
     (let desc = Descriptor_new P tx_ptr (ucast tx_len) EMPTY
      in bind (on_send (on_q (VirtIoQueue_add N [desc]))) (\<lambda>token.
         bind (gets (\<lambda>(s, w). should_notify (send_queue s))) (\<lambda>notify.
         andthen (if notify then on_io (t_notify T QUEUE_TRANSMIT) else ret ())
         (ret token)))))"

definition poll_transmit :: "nat \<Rightarrow> u16 \<Rightarrow> ('d, bool) nprog" where
  "poll_transmit N token = on_send (on_q (VirtIoQueue_can_pop N token))"

definition transmit_complete :: "nat \<Rightarrow> u16 \<Rightarrow> ('d, usize) nprog" where
  "transmit_complete N token =
     bind (on_send (on_q (VirtIoQueue_pop_used N token))) (\<lambda>len. ret (ucast len))"

definition rx_descriptor :: "'d platform \<Rightarrow> usize \<Rightarrow> usize \<Rightarrow> descriptor" where
  "rx_descriptor P rx_ptr rx_len = Descriptor_new P rx_ptr (ucast rx_len) WRITE"

definition receive_begin ::
  "'d platform \<Rightarrow> 'd transport \<Rightarrow> nat \<Rightarrow> usize \<Rightarrow> usize \<Rightarrow> ('d, u16) nprog" where
  "receive_begin P T N rx_ptr rx_len =
     andthen (check_rx_buf_len rx_len)
     (bind (on_recv (on_q (VirtIoQueue_add N [rx_descriptor P rx_ptr rx_len]))) (\<lambda>token.
      bind (gets (\<lambda>(s, w). should_notify (recv_queue s))) (\<lambda>notify.
      andthen (if notify then on_io (t_notify T QUEUE_RECEIVE) else ret ())
      (ret token))))"

definition poll_receive :: "nat \<Rightarrow> u16 \<Rightarrow> ('d, bool) nprog" where
  "poll_receive N token = on_recv (on_q (VirtIoQueue_can_pop N token))"

definition receive_complete :: "nat \<Rightarrow> u16 \<Rightarrow> ('d, usize \<times> usize) nprog" where
  "receive_complete N token =
     bind (on_recv (on_q (VirtIoQueue_pop_used N token))) (\<lambda>l.
     let len = ucast l
     in if len < NET_HDR_SIZE then throw IoError else ret (NET_HDR_SIZE, len - NET_HDR_SIZE))"

text \<open>The header of \<^verbatim>\<open>send\<close> is a local array at \<open>hdr_ptr\<close>.\<close>

definition send_descriptors :: "'d platform \<Rightarrow> usize \<Rightarrow> usize \<Rightarrow> usize \<Rightarrow> descriptor list" where
  "send_descriptors P hdr_ptr tx_ptr tx_len =
     (let header_desc = Descriptor_new P hdr_ptr 10 (if tx_len = 0 then EMPTY else NEXT)
      in if tx_len \<noteq> 0
         then [header_desc, Descriptor_new P tx_ptr (ucast tx_len) EMPTY]
         else [header_desc])"

definition VirtIONetRaw_send ::
  "'d platform \<Rightarrow> 'd transport \<Rightarrow> nat \<Rightarrow> usize \<Rightarrow> usize \<Rightarrow> usize \<Rightarrow> ('d, unit) nprog" where
  "VirtIONetRaw_send P T N hdr_ptr tx_ptr tx_len =
     bind (with_local (VirtioNetHdr_write_to VirtioNetHdr_default) (replicate 10 0))
       (\<lambda>(_, header_buf).
     andthen (modify (\<lambda>(s, w). (s, w\<lparr>mem := store_bytes P hdr_ptr header_buf (mem w)\<rparr>)))
     (bind (on_send (VirtIoQueue_add_notify_wait_pop P T N
        (send_descriptors P hdr_ptr tx_ptr tx_len))) (\<lambda>_.
      ret ())))"

text \<open>Between two polls the device may act on the receive queue.\<close>

definition recv_device_step :: "'d platform \<Rightarrow> net_raw \<times> 'd world \<Rightarrow> net_raw \<times> 'd world" where
  "recv_device_step P sw =
     (case sw of (s, w) \<Rightarrow>
        (case device_step P (recv_queue s, w) of (q, w') \<Rightarrow> (s\<lparr>recv_queue := q\<rparr>, w')))"

definition receive_wait ::
  "'d platform \<Rightarrow> 'd transport \<Rightarrow> nat \<Rightarrow> usize \<Rightarrow> usize \<Rightarrow> ('d, usize \<times> usize) nprog" where
  "receive_wait P T N rx_ptr rx_len =
     bind (receive_begin P T N rx_ptr rx_len) (\<lambda>token.
     andthen
       (while_prog (bind (poll_receive N token) (\<lambda>b. ret (\<not> b))) (recv_device_step P))
     (receive_complete N token))"

section \<open>The driver with receive buffers (mod.rs)\<close>

record virtio_net =
  inner :: net_raw
  rx_buffers :: "(usize \<times> usize) list"

type_synonym ('d, 'a) vnprog = "(virtio_net \<times> 'd world, virtio_error, 'a) prog"

definition on_inner :: "('d, 'a) nprog \<Rightarrow> ('d, 'a) vnprog" where
  "on_inner = zoom (\<lambda>(s, w). (inner s, w)) (\<lambda>(r, w) (s, _). (s\<lparr>inner := r\<rparr>, w))"

fun net_fill_loop ::
  "'d platform \<Rightarrow> 'd transport \<Rightarrow> nat \<Rightarrow> (nat \<Rightarrow> usize) \<Rightarrow> usize \<Rightarrow> nat list \<Rightarrow> ('d, unit) nprog" where
  "net_fill_loop P T N rx_addr buf_len [] = ret ()"
| "net_fill_loop P T N rx_addr buf_len (i # is) =
     andthen (modify (\<lambda>(s, w). (s, w\<lparr>mem :=
        store_bytes P (rx_addr i) (replicate (unat buf_len) 0) (mem w)\<rparr>)))
     (bind (receive_begin P T N (rx_addr i) buf_len) (\<lambda>token.
      andthen (assert_that (token = of_nat i)) (net_fill_loop P T N rx_addr buf_len is)))"

definition VirtIONet_new ::
  "'d platform \<Rightarrow> 'd transport \<Rightarrow> nat \<Rightarrow> bool \<Rightarrow> (nat \<Rightarrow> usize) \<Rightarrow> usize \<Rightarrow> ('d, virtio_net) wprog" where
  "VirtIONet_new P T N log_debug rx_addr buf_len =
     bind (VirtIONetRaw_new P T N log_debug) (\<lambda>raw.
     owning T (\<lambda>w.
       (case net_fill_loop P T N rx_addr buf_len [0..<N] (raw, w) of
          (Ok _, (raw', w')) \<Rightarrow>
            (Ok \<lparr>inner = raw', rx_buffers = map (\<lambda>i. (rx_addr i, buf_len)) [0..<N]\<rparr>, w')
        | (Err e, (raw', w')) \<Rightarrow> (Err e, w')
        | (Panic, (raw', w')) \<Rightarrow> (Panic, w')
        | (Hang, (raw', w')) \<Rightarrow> (Hang, w'))))"

definition VirtIONet_ack_interrupt :: "'d transport \<Rightarrow> ('d, bool) vnprog" where
  "VirtIONet_ack_interrupt T = on_inner (VirtIONetRaw_ack_interrupt T)"

definition VirtIONet_mac_address :: "('d, u8 list) vnprog" where
  "VirtIONet_mac_address = on_inner VirtIONetRaw_mac_address"

definition VirtIONet_can_send :: "('d, bool) vnprog" where
  "VirtIONet_can_send = on_inner VirtIONetRaw_can_send"

definition VirtIONet_can_recv :: "nat \<Rightarrow> ('d, (u16 \<times> usize) option) vnprog" where
  "VirtIONet_can_recv N = on_inner (VirtIONetRaw_can_recv N)"

definition VirtIONet_receive ::
  "'d platform \<Rightarrow> 'd transport \<Rightarrow> nat \<Rightarrow> usize \<Rightarrow> usize \<Rightarrow> ('d, usize) vnprog" where
  "VirtIONet_receive P T N data_ptr data_len =
     bind (on_inner (VirtIONetRaw_can_recv N)) (\<lambda>ready.
     (case ready of
        None \<Rightarrow> throw NotReady
      | Some (token, _) \<Rightarrow>
          bind (gets (\<lambda>(s, w). rx_buffers s)) (\<lambda>bufs.
          andthen (assert_that (unat token < length bufs))
          (case bufs ! unat token of (rx_ptr, rx_len) \<Rightarrow>
             bind (on_inner (receive_complete N token)) (\<lambda>(hdr_len, pkt_len).
             andthen (assert_that (pkt_len \<le> data_len))
             (andthen (assert_that (hdr_len + pkt_len \<le> rx_len))
             (andthen (modify (\<lambda>(s, w). (s, w\<lparr>mem := store_bytes P data_ptr
                 (load_bytes P (rx_ptr + hdr_len) (unat pkt_len) (mem w)) (mem w)\<rparr>)))
             (bind (on_inner (receive_begin P T N rx_ptr rx_len)) (\<lambda>new_token.
              andthen (assert_that (new_token = token))
              (ret pkt_len))))))))))"

definition VirtIONet_send ::
  "'d platform \<Rightarrow> 'd transport \<Rightarrow> nat \<Rightarrow> usize \<Rightarrow> usize \<Rightarrow> usize \<Rightarrow> ('d, unit) vnprog" where
  "VirtIONet_send P T N hdr_ptr tx_ptr tx_len =
     on_inner (VirtIONetRaw_send P T N hdr_ptr tx_ptr tx_len)"

section \<open>Notions of the specification\<close>

definition VirtioNetHdr_bytes :: "VirtioNetHdr \<Rightarrow> u8 list" where
  "VirtioNetHdr_bytes h =
     [hdr_flags h, hdr_gso_type h] @ le_bytes 2 (hdr_hdr_len h) @ le_bytes 2 (hdr_gso_size h) @
     le_bytes 2 (hdr_csum_start h) @ le_bytes 2 (hdr_csum_offset h)"

text \<open>
  The invariant of the receive side: receive buffer \<open>i\<close> is long enough and is lent to the device
  under token \<open>i\<close>, except for the tokens in \<open>back\<close>.
\<close>

definition rx_bufs :: "'d platform \<Rightarrow> virtio_net \<Rightarrow> nat \<Rightarrow> u64 \<times> u32 \<times> u16" where
  "rx_bufs P v i = payload (rx_descriptor P (fst (rx_buffers v ! i)) (snd (rx_buffers v ! i)))"

definition rx_inv :: "'d platform \<Rightarrow> nat \<Rightarrow> u16 list \<Rightarrow> virtio_net \<Rightarrow> bool" where
  "rx_inv P N back v \<longleftrightarrow>
     length (rx_buffers v) = N \<and> (\<forall>b \<in> set (rx_buffers v). MIN_BUFFER_LEN \<le> snd b) \<and>
     lent_except N (rx_bufs P v) back (recv_queue (inner v))"

text \<open>The common beginning of a reception: the completion is taken from the queue.\<close>

definition receive_rest ::
  "'d platform \<Rightarrow> 'd transport \<Rightarrow> nat \<Rightarrow> usize \<Rightarrow> usize \<Rightarrow> u16 \<Rightarrow> usize \<times> usize \<Rightarrow> usize \<Rightarrow>
    ('d, usize) vnprog" where
  "receive_rest P T N data_ptr data_len tok buf pkt_len =
     andthen (assert_that (pkt_len \<le> data_len))
     (andthen (assert_that (10 + pkt_len \<le> snd buf))
     (andthen (modify (\<lambda>(s, w). (s, w\<lparr>mem := store_bytes P data_ptr
         (load_bytes P (fst buf + 10) (unat pkt_len) (mem w)) (mem w)\<rparr>)))
     (bind (on_inner (receive_begin P T N (fst buf) (snd buf))) (\<lambda>new_token.
      andthen (assert_that (new_token = tok))
      (ret pkt_len)))))"

text \<open>The bytes of a chain of buffers as the device reads them, if it may read all of them.\<close>

definition tx_frame :: "(u64 \<times> u32 \<times> u16) list \<Rightarrow> memory \<Rightarrow> u8 list option" where
  "tx_frame ds m =
     (if list_all (\<lambda>(a, n, f). and f WRITE = 0) ds
      then Some (concat (map (\<lambda>(a, n, f). phys_bytes m a (unat n)) ds)) else None)"

definition with_header :: "'d platform \<Rightarrow> usize \<Rightarrow> 'd world \<Rightarrow> 'd world" where
  "with_header P hdr_ptr w = w\<lparr>mem := store_bytes P hdr_ptr (replicate 10 0) (mem w)\<rparr>"

text \<open>The header and the packet are contiguous in physical memory and do not overlap.\<close>

definition tx_objects_ok :: "'d platform \<Rightarrow> usize \<Rightarrow> usize \<Rightarrow> usize \<Rightarrow> bool" where
  "tx_objects_ok P hdr_ptr tx_ptr tx_len \<longleftrightarrow>
     contiguous P hdr_ptr 10 \<and> contiguous P tx_ptr (unat tx_len) \<and>
     phys P hdr_ptr 10 \<inter> phys P tx_ptr (unat tx_len) = {} \<and> unat tx_len < 2 ^ 32"

section \<open>Running on a part of the driver\<close>

lemma on_net_eq:
  "on_recv m (s, w) = (case m (recv_queue s, w) of (r, (q, w')) \<Rightarrow> (r, (s\<lparr>recv_queue := q\<rparr>, w')))"
  "on_send m (s, w) = (case m (send_queue s, w) of (r, (q, w')) \<Rightarrow> (r, (s\<lparr>send_queue := q\<rparr>, w')))"
  "on_io n (s, w) = (case n w of (r, w') \<Rightarrow> (r, (s, w')))"
  "on_inner k (v, w) = (case k (inner v, w) of (r, (s', w')) \<Rightarrow> (r, (v\<lparr>inner := s'\<rparr>, w')))"
  by (simp_all add: on_recv_def on_send_def on_io_def on_inner_def zoom_def split: prod.splits)

section \<open>The packet header\<close>

lemma le_bytes_2: "le_bytes 2 x = [ucast x, ucast (drop_bit 8 x)]"
  by (simp add: le_bytes_def upt_conv_Cons)

lemma list_10:
  assumes "10 \<le> length xs"
  obtains a b c d e f g h i j ys where "xs = [a, b, c, d, e, f, g, h, i, j] @ ys"
proof -
  have "length (take 10 xs) = Suc (Suc (Suc (Suc (Suc (Suc (Suc (Suc (Suc (Suc 0)))))))))"
    using assms by simp
  then obtain a b c d e f g h i j where "take 10 xs = [a, b, c, d, e, f, g, h, i, j]"
    by (auto simp only: length_Suc_conv length_0_conv)
  then show ?thesis
    using that [of a b c d e f g h i j "drop 10 xs"] by (metis append_take_drop_id)
qed

lemma write_to_eq:
  "VirtioNetHdr_write_to h target =
     (if 10 \<le> length target then (Ok (), VirtioNetHdr_bytes h @ drop 10 target) else (Panic, target))"
  by (auto simp: VirtioNetHdr_write_to_def VirtioNetHdr_bytes_def le_bytes_2 elim!: list_10)

lemma equal_eq:
  "VirtioNetHdr_equal h target s =
     (if 10 \<le> length target then (Ok (take 10 target = VirtioNetHdr_bytes h), s) else (Panic, s))"
  by (auto simp: VirtioNetHdr_equal_def VirtioNetHdr_bytes_def le_bytes_2 andthen_def bind_def
      elim!: list_10)

lemma VirtioNetHdr_bytes_length [simp]: "length (VirtioNetHdr_bytes h) = 10"
  by (simp add: VirtioNetHdr_bytes_def)

lemma VirtioNetHdr_bytes_default: "VirtioNetHdr_bytes VirtioNetHdr_default = replicate 10 0"
  by (simp add: VirtioNetHdr_bytes_def VirtioNetHdr_default_def le_bytes_2)
    (simp add: numeral_eq_Suc)

lemma VirtioNetHdr_bytes_inj: "VirtioNetHdr_bytes h = VirtioNetHdr_bytes h' \<longleftrightarrow> h = h'"
proof
  assume eq: "VirtioNetHdr_bytes h = VirtioNetHdr_bytes h'"
  have dec: "of_le_bytes (le_bytes 2 x) = x" for x :: u16
    by (simp add: of_le_bytes_exact)
  have "le_bytes 2 (hdr_hdr_len h) = le_bytes 2 (hdr_hdr_len h')"
    "le_bytes 2 (hdr_gso_size h) = le_bytes 2 (hdr_gso_size h')"
    "le_bytes 2 (hdr_csum_start h) = le_bytes 2 (hdr_csum_start h')"
    "le_bytes 2 (hdr_csum_offset h) = le_bytes 2 (hdr_csum_offset h')"
    using eq by (simp_all add: VirtioNetHdr_bytes_def le_bytes_2)
  then have "hdr_hdr_len h = hdr_hdr_len h'" "hdr_gso_size h = hdr_gso_size h'"
    "hdr_csum_start h = hdr_csum_start h'" "hdr_csum_offset h = hdr_csum_offset h'"
    by (metis dec)+
  then show "h = h'"
    using eq by (simp add: VirtioNetHdr_bytes_def)
qed simp

lemma check_tx_buf_header_eq:
  "check_tx_buf_header tx s =
     (if 10 \<le> length tx \<and> take 10 tx = replicate 10 0 then (Ok (), s) else (Err InvalidParam, s))"
  by (auto simp: check_tx_buf_header_def NET_HDR_SIZE_def bind_def equal_eq VirtioNetHdr_bytes_default)

section \<open>Receiving\<close>

lemma rx_descriptor_flags: "and (d_flags (rx_descriptor P a n)) NEXT = 0"
  by (simp add: rx_descriptor_def Descriptor_new_def NEXT_def WRITE_def)

lemma rx_bufs_inner [simp]: "rx_bufs P (v\<lparr>inner := x\<rparr>) = rx_bufs P v"
  by (rule ext) (simp add: rx_bufs_def)

lemma rx_table_length: "lent_except N bufs back q \<Longrightarrow> length (table q) = N"
  by (auto simp: lent_except_def vq_inv_def vq_wf_def)

lemma can_recv_eq:
  assumes "lent_except N bufs back (recv_queue s)"
  shows "VirtIONetRaw_can_recv N (s, w) =
    (Ok (map_option (\<lambda>tok. (tok, ucast (fst (snd (bufs (unat tok))))))
      (VirtIoQueue_peek_used N (recv_queue s))), (s, w))"
proof (cases "VirtIoQueue_peek_used N (recv_queue s)")
  case (Some tok)
  have "unat tok < N"
    using lent_token [OF assms Some] .
  then have "payload (table (recv_queue s) ! unat tok) = bufs (unat tok)"
    using assms by (simp add: lent_except_def)
  from this [symmetric] have "d_len (table (recv_queue s) ! unat tok) = fst (snd (bufs (unat tok)))"
    by (simp add: payload_def)
  then show ?thesis
    using Some \<open>unat tok < N\<close> rx_table_length [OF assms]
    by (simp add: VirtIONetRaw_can_recv_def bind_def on_net_eq on_q_def zoom_def
        VirtIoQueue_get_desc_len_def)
qed (simp add: VirtIONetRaw_can_recv_def bind_def)

lemma receive_None:
  assumes "rx_inv P N back v" and "VirtIoQueue_peek_used N (recv_queue (inner v)) = None"
  shows "VirtIONet_receive P T N data_ptr data_len (v, w) = (Err NotReady, (v, w))"
  using assms can_recv_eq [of N "rx_bufs P v" "back" "inner v" w]
  by (simp add: VirtIONet_receive_def bind_def on_net_eq rx_inv_def)

lemma receive_taken:
  assumes inv: "rx_inv P N back v"
    and next_c: "completions N (recv_queue (inner v)) = (tok, len) # rest"
  shows "\<exists>q1. lent_except N (rx_bufs P v) (back @ [tok]) q1 \<and> completions N q1 = rest \<and> unat tok < N \<and>
    (\<forall>T data_ptr data_len w. VirtIONet_receive P T N data_ptr data_len (v, w) =
      (if ucast len < (10 :: usize) then throw IoError
       else receive_rest P T N data_ptr data_len tok (rx_buffers v ! unat tok) (ucast len - 10))
        (v\<lparr>inner := (inner v)\<lparr>recv_queue := q1\<rparr>\<rparr>, w))"
proof -
  have l: "lent_except N (rx_bufs P v) back (recv_queue (inner v))" and n: "length (rx_buffers v) = N"
    using inv by (simp_all add: rx_inv_def)
  obtain tok' where peek: "VirtIoQueue_peek_used N (recv_queue (inner v)) = Some tok'"
    using lent_peek_None next_c by (cases "VirtIoQueue_peek_used N (recv_queue (inner v))") auto
  obtain n q1 where pop: "VirtIoQueue_pop_used N tok' (recv_queue (inner v)) = (Ok n, q1)"
    "lent_except N (rx_bufs P v) (back @ [tok']) q1"
    "completions N (recv_queue (inner v)) = (tok', n) # completions N q1"
    using lent_pop [OF l peek] by blast
  have eq: "tok' = tok" "n = len" "completions N q1 = rest"
    using pop(3) next_c by simp_all
  have tok: "unat tok < N"
    using lent_token [OF l peek] eq by simp
  have "VirtIONet_receive P T N data_ptr data_len (v, w) =
      (if ucast len < (10 :: usize) then throw IoError
       else receive_rest P T N data_ptr data_len tok (rx_buffers v ! unat tok) (ucast len - 10))
        (v\<lparr>inner := (inner v)\<lparr>recv_queue := q1\<rparr>\<rparr>, w)" for T data_ptr data_len w
    using can_recv_eq [OF l, of w] peek tok \<open>length (rx_buffers v) = N\<close> pop(1)
    by (cases "rx_buffers v ! unat tok") (simp add: VirtIONet_receive_def bind_def on_net_eq eq
        receive_complete_def on_q_def zoom_def NET_HDR_SIZE_def receive_rest_def)
  then show ?thesis
    using pop(2) eq tok by blast
qed

lemma receive_begin_run:
  assumes "VirtIoQueue_add N [rx_descriptor P a n] (recv_queue s) = (Ok t, q2)"
    and "MIN_BUFFER_LEN \<le> n"
  shows "receive_begin P T N a n (s, w) =
    andthen (if should_notify q2 then on_io (t_notify T QUEUE_RECEIVE) else ret ()) (ret t)
      (s\<lparr>recv_queue := q2\<rparr>, w)"
  using assms
  by (simp add: receive_begin_def check_rx_buf_len_def bind_def on_net_eq on_q_def zoom_def
      not_less [symmetric])

lemma rx_len_arith:
  fixes len :: u32
  assumes "10 \<le> len"
  shows "\<not> ucast len < (10 :: usize)" and "unat (ucast len - 10 :: usize) = unat len - 10"
    and "10 + (ucast len - 10) = (ucast len :: usize)"
proof -
  have "10 \<le> unat len"
    using assms by (simp add: word_le_nat_alt)
  then show "\<not> ucast len < (10 :: usize)"
    by (simp add: word_less_nat_alt unat_ucast_up)
  then show "unat (ucast len - 10 :: usize) = unat len - 10"
    by (simp add: unat_sub not_less unat_ucast_up)
qed simp

lemma receive_rest_bad:
  assumes "\<not> (pkt_len \<le> data_len \<and> 10 + pkt_len \<le> snd buf)"
  shows "receive_rest P T N data_ptr data_len tok buf pkt_len sw = (Panic, sw)"
  using assms by (auto simp: receive_rest_def assert_that_def)

lemma receive_rest_run:
  assumes fit: "pkt_len \<le> data_len" "10 + pkt_len \<le> snd buf" and min: "MIN_BUFFER_LEN \<le> snd buf"
    and add: "VirtIoQueue_add N [rx_descriptor P (fst buf) (snd buf)] q1 = (Ok t, q2)"
  shows "receive_rest P T N data_ptr data_len tok buf pkt_len
      (v\<lparr>inner := (inner v)\<lparr>recv_queue := q1\<rparr>\<rparr>, w) =
    (let w1 = w\<lparr>mem := store_bytes P data_ptr (load_bytes P (fst buf + 10) (unat pkt_len) (mem w)) (mem w)\<rparr>;
         (r, w2) = (if should_notify q2 then t_notify T QUEUE_RECEIVE w1 else (Ok (), w1))
     in (case r of Ok _ \<Rightarrow> if t = tok then Ok pkt_len else Panic
         | Err e \<Rightarrow> Err e | Panic \<Rightarrow> Panic | Hang \<Rightarrow> Hang,
         (v\<lparr>inner := (inner v)\<lparr>recv_queue := q2\<rparr>\<rparr>, w2)))"
  using fit
  by (simp add: receive_rest_def assert_that_def bind_def andthen_def on_net_eq Let_def
      receive_begin_run [OF _ min, of N P "fst buf" _ t q2] add
      split: prod.splits outcome.splits)

lemma receive_outcome:
  assumes inv: "rx_inv P N [] v"
    and run: "VirtIONet_receive P (mmio_transport P ver) N data_ptr data_len (v, w) = (r, (v', w'))"
    and next_c: "completions N (recv_queue (inner v)) = (tok, len) # rest"
    and fit: "10 \<le> len" "ucast len - 10 \<le> data_len" "ucast len \<le> snd (rx_buffers v ! unat tok)"
  shows "r = Ok (ucast len - 10) \<or> (\<exists>e. r = Err e)"
    and "mem w' = store_bytes P data_ptr
      (load_bytes P (fst (rx_buffers v ! unat tok) + 10) (unat len - 10) (mem w)) (mem w)"
    and "rx_inv P N [] v'" and "completions N (recv_queue (inner v')) = rest"
proof -
  let ?buf = "rx_buffers v ! unat tok"
  obtain q1 where q1: "lent_except N (rx_bufs P v) [tok] q1" "completions N q1 = rest"
    and tok: "unat tok < N"
    and r0: "VirtIONet_receive P (mmio_transport P ver) N data_ptr data_len (v, w) =
      (if ucast len < (10 :: usize) then throw IoError
       else receive_rest P (mmio_transport P ver) N data_ptr data_len tok ?buf (ucast len - 10))
        (v\<lparr>inner := (inner v)\<lparr>recv_queue := q1\<rparr>\<rparr>, w)"
    using receive_taken [OF inv next_c] by auto
  have min: "MIN_BUFFER_LEN \<le> snd ?buf"
    using inv tok by (auto simp: rx_inv_def)
  have b: "payload (rx_descriptor P (fst ?buf) (snd ?buf)) = rx_bufs P v (unat tok)"
    by (simp add: rx_bufs_def)
  obtain q2 where q2: "VirtIoQueue_add N [rx_descriptor P (fst ?buf) (snd ?buf)] q1 = (Ok tok, q2)"
    "lent_except N (rx_bufs P v) [] q2" "completions N q2 = completions N q1"
    using lent_add [of N "rx_bufs P v" tok "[]" q1 "rx_descriptor P (fst ?buf) (snd ?buf)"]
      rx_descriptor_flags b q1(1) by auto
  have big: "\<not> ucast len < (10 :: usize)" and pl: "unat (ucast len - 10 :: usize) = unat len - 10"
    and tot: "10 + (ucast len - 10) \<le> snd ?buf"
    using rx_len_arith [OF fit(1)] fit(3) by simp_all
  let ?w = "w\<lparr>mem := store_bytes P data_ptr (load_bytes P (fst ?buf + 10) (unat len - 10) (mem w)) (mem w)\<rparr>"
  obtain r1 w1 where nt: "(if should_notify q2 then t_notify (mmio_transport P ver) QUEUE_RECEIVE ?w
      else (Ok (), ?w)) = (r1, w1)"
    by (metis prod.collapse)
  have n1: "(r1 = Ok () \<or> (\<exists>e. r1 = Err e)) \<and> mem w1 = mem ?w"
    using nt mmio_notify_outcome [of P ver QUEUE_RECEIVE ?w r1 w1] by (auto split: if_splits)
  have res: "r = (case r1 of Ok _ \<Rightarrow> Ok (ucast len - 10) | Err e \<Rightarrow> Err e | Panic \<Rightarrow> Panic | Hang \<Rightarrow> Hang)"
    "v' = v\<lparr>inner := (inner v)\<lparr>recv_queue := q2\<rparr>\<rparr>" "w' = w1"
    using run r0 big receive_rest_run [OF fit(2) tot min q2(1), where T = "mmio_transport P ver" and
        tok = tok and v = v and w = w and data_ptr = data_ptr] nt
    by (auto simp: pl Let_def split: outcome.splits)
  show "r = Ok (ucast len - 10) \<or> (\<exists>e. r = Err e)"
    using res(1) n1 by auto
  show "mem w' = store_bytes P data_ptr
      (load_bytes P (fst (rx_buffers v ! unat tok) + 10) (unat len - 10) (mem w)) (mem w)"
    using res(3) n1 by simp
  show "rx_inv P N [] v'" "completions N (recv_queue (inner v')) = rest"
    using res(2) q2(2,3) q1(2) inv by (simp_all add: rx_inv_def)
qed

lemma receive_short:
  assumes inv: "rx_inv P N back v"
    and next_c: "completions N (recv_queue (inner v)) = (tok, len) # rest" and short: "len < 10"
  shows "\<exists>v'. (\<forall>T data_ptr data_len w.
      VirtIONet_receive P T N data_ptr data_len (v, w) = (Err IoError, (v', w))) \<and>
    rx_inv P N (back @ [tok]) v' \<and> completions N (recv_queue (inner v')) = rest \<and>
    rx_buffers v' = rx_buffers v"
proof -
  have "unat len < 10"
    using short by (simp add: word_less_nat_alt)
  then have "ucast len < (10 :: usize)"
    by (simp add: word_less_nat_alt unat_ucast_up)
  then show ?thesis
    using receive_taken [OF inv next_c] inv by (auto simp: rx_inv_def)
qed

lemma receive_too_long:
  assumes inv: "rx_inv P N back v"
    and next_c: "completions N (recv_queue (inner v)) = (tok, len) # rest" and long: "10 \<le> len"
    and bad: "\<not> (ucast len - 10 \<le> data_len \<and> ucast len \<le> snd (rx_buffers v ! unat tok))"
  shows "fst (VirtIONet_receive P T N data_ptr data_len (v, w)) = Panic"
proof -
  obtain q1 where "VirtIONet_receive P T N data_ptr data_len (v, w) =
      (if ucast len < (10 :: usize) then throw IoError
       else receive_rest P T N data_ptr data_len tok (rx_buffers v ! unat tok) (ucast len - 10))
        (v\<lparr>inner := (inner v)\<lparr>recv_queue := q1\<rparr>\<rparr>, w)"
    using receive_taken [OF inv next_c] by blast
  moreover have "\<not> (ucast len - 10 \<le> data_len \<and> 10 + (ucast len - 10) \<le> snd (rx_buffers v ! unat tok))"
    using rx_len_arith(3) [OF long] bad by simp
  ultimately show ?thesis
    using rx_len_arith(1) [OF long] by (simp add: receive_rest_bad)
qed

text \<open>A buffer that was not lent again shifts the tokens of all later ones.\<close>

lemma receive_shifted:
  assumes inv: "rx_inv P N (a # back) v"
    and next_c: "completions N (recv_queue (inner v)) = (b, len) # rest"
    and fit: "10 \<le> len" "ucast len - 10 \<le> data_len" "ucast len \<le> snd (rx_buffers v ! unat b)"
  shows "\<exists>r. fst (VirtIONet_receive P (mmio_transport P ver) N data_ptr data_len (v, w)) = r \<and>
    (r = Panic \<or> (\<exists>e. r = Err e))"
proof -
  let ?buf = "rx_buffers v ! unat b" and ?T = "mmio_transport P ver"
  obtain q1 where q1: "lent_except N (rx_bufs P v) (a # back @ [b]) q1" "unat b < N"
    and run: "VirtIONet_receive P ?T N data_ptr data_len (v, w) =
      (if ucast len < (10 :: usize) then throw IoError
       else receive_rest P ?T N data_ptr data_len b ?buf (ucast len - 10))
        (v\<lparr>inner := (inner v)\<lparr>recv_queue := q1\<rparr>\<rparr>, w)"
    using receive_taken [OF inv next_c] by auto
  have ne: "a \<noteq> b"
    using lent_distinct [OF q1(1)] by simp
  have min: "MIN_BUFFER_LEN \<le> snd ?buf"
    using inv q1(2) by (auto simp: rx_inv_def)
  obtain q2 where add: "VirtIoQueue_add N [rx_descriptor P (fst ?buf) (snd ?buf)] q1 = (Ok a, q2)"
    using lent_add_any [OF q1(1) rx_descriptor_flags] by blast
  note ar = rx_len_arith [OF fit(1)]
  have tot: "10 + (ucast len - 10) \<le> snd ?buf"
    using ar fit(3) by simp
  show ?thesis
    using run ar ne receive_rest_run [OF fit(2) tot min add, where T = ?T and tok = b and v = v
        and w = w and data_ptr = data_ptr]
    by (auto simp: Let_def split: prod.splits if_splits dest: mmio_notify_outcome)
qed

section \<open>Blocking reception\<close>

lemma receive_wait_eq:
  assumes idx: "queue_idx (recv_queue s) = QUEUE_RECEIVE" and min: "MIN_BUFFER_LEN \<le> rx_len"
  shows "receive_wait P T N rx_ptr rx_len (s, w) =
    bind (on_recv (VirtIoQueue_add_notify_wait_pop P T N [rx_descriptor P rx_ptr rx_len])) (\<lambda>l.
      if ucast l < NET_HDR_SIZE then throw IoError
      else ret (NET_HDR_SIZE, ucast l - NET_HDR_SIZE)) (s, w)"
proof -
  let ?f = "\<lambda>t. (s\<lparr>recv_queue := fst t\<rparr>, snd t)"
  have loop: "while_prog (bind (poll_receive N tok) (\<lambda>b. ret (\<not> b))) (recv_device_step P)
      (s\<lparr>recv_queue := q\<rparr>, w1) =
    map_prod id ?f (while_prog (bind (on_q (VirtIoQueue_can_pop N tok)) (\<lambda>b. ret (\<not> b))) (device_step P)
      (q, w1) :: (virtio_error, unit) outcome \<times> _)" for tok q w1
    using while_prog_sim [where f = ?f and t = "(q, w1)" and
        c' = "bind (poll_receive N tok) (\<lambda>b. ret (\<not> b))" and
        c = "bind (on_q (VirtIoQueue_can_pop N tok)) (\<lambda>b. ret (\<not> b))" and
        body' = "recv_device_step P" and body = "device_step P"]
    by (auto simp: poll_receive_def on_net_eq bind_def recv_device_step_def
        split: prod.splits outcome.splits)
  obtain r q1 where add: "VirtIoQueue_add N [rx_descriptor P rx_ptr rx_len] (recv_queue s) = (r, q1)"
    by (metis prod.collapse)
  show ?thesis
  proof (cases r)
    case (Ok tok)
    have i: "queue_idx q1 = QUEUE_RECEIVE"
      using VirtIoQueue_add_idx [OF add] idx by simp
    show ?thesis
      using receive_begin_run [OF add [unfolded Ok] min, where T = T and w = w] add Ok i
      by (simp add: receive_wait_def VirtIoQueue_add_notify_wait_pop_def on_net_eq zoom_on bind_def
        andthen_def loop receive_complete_def Let_def
        split: prod.splits outcome.splits)
  qed (use add min in \<open>simp_all add: receive_wait_def receive_begin_def check_rx_buf_len_def on_net_eq
      zoom_on bind_def VirtIoQueue_add_notify_wait_pop_def not_less [symmetric]\<close>)
qed

section \<open>Sending\<close>

lemma send_descriptors_ok:
  "chain_flags (send_descriptors P hdr_ptr tx_ptr tx_len)"
  "length (send_descriptors P hdr_ptr tx_ptr tx_len) \<le> 2"
  by (simp_all add: send_descriptors_def chain_flags_def Descriptor_new_def EMPTY_def NEXT_def Let_def)

lemma send_start:
  "VirtIONetRaw_send P T N hdr_ptr tx_ptr tx_len (s, w) =
     bind (on_send (VirtIoQueue_add_notify_wait_pop P T N (send_descriptors P hdr_ptr tx_ptr tx_len)))
       (\<lambda>_. ret ()) (s, with_header P hdr_ptr w)"
  by (simp add: VirtIONetRaw_send_def with_local_def write_to_eq VirtioNetHdr_bytes_default bind_def
      andthen_def with_header_def split: prod.splits outcome.splits)

lemma send_run:
  assumes q: "quiet N (send_queue s)" and N: "2 \<le> N"
    and sub: "submitted T N (send_descriptors P hdr_ptr tx_ptr tx_len)
      (send_queue s, with_header P hdr_ptr w) tok t"
    and srv: "device_serves P N t tok k n"
  shows "\<exists>q'. VirtIONetRaw_send P T N hdr_ptr tx_ptr tx_len (s, w) =
      (Ok (), (s\<lparr>send_queue := q'\<rparr>, snd ((device_step P ^^ k) t))) \<and> quiet N q'"
proof -
  let ?ds = "send_descriptors P hdr_ptr tx_ptr tx_len"
  have "length ?ds \<le> N"
    using send_descriptors_ok(2) N by (rule order_trans)
  then obtain q' where "VirtIoQueue_add_notify_wait_pop P T N ?ds
      (send_queue s, with_header P hdr_ptr w) = (Ok n, (q', snd ((device_step P ^^ k) t)))" "quiet N q'"
    using add_notify_wait_pop_Ok [OF _ send_descriptors_ok(1) _ sub srv] q by auto
  then show ?thesis
    by (intro exI [of _ q']) (simp add: send_start bind_def on_net_eq)
qed

lemma with_header_bytes:
  assumes ok: "tx_objects_ok P hdr_ptr tx_ptr tx_len"
  shows "phys_bytes (mem (with_header P hdr_ptr w)) (to_paddr (hal P) hdr_ptr) 10 = replicate 10 0"
    and "phys_bytes (mem (with_header P hdr_ptr w)) (to_paddr (hal P) tx_ptr) (unat tx_len) =
      load_bytes P tx_ptr (unat tx_len) (mem w)"
proof -
  have c: "contiguous P hdr_ptr 10" "contiguous P tx_ptr (unat tx_len)"
    and d: "phys P hdr_ptr 10 \<inter> phys P tx_ptr (unat tx_len) = {}"
    using ok by (simp_all add: tx_objects_ok_def)
  show "phys_bytes (mem (with_header P hdr_ptr w)) (to_paddr (hal P) hdr_ptr) 10 = replicate 10 0"
    using load_store_bytes [of P hdr_ptr "replicate 10 0" "mem w"] contiguous_mapped [OF c(1)]
    by (simp add: with_header_def contiguous_load [OF c(1), symmetric])
  have "store_bytes P hdr_ptr (replicate 10 0) (mem w) p = mem w p" if "p \<in> phys P tx_ptr (unat tx_len)" for p
    using d that by (intro store_bytes_other) auto
  then have "load_bytes P tx_ptr (unat tx_len) (mem (with_header P hdr_ptr w)) =
      load_bytes P tx_ptr (unat tx_len) (mem w)"
    by (intro load_bytes_cong) (simp add: with_header_def)
  then show "phys_bytes (mem (with_header P hdr_ptr w)) (to_paddr (hal P) tx_ptr) (unat tx_len) =
      load_bytes P tx_ptr (unat tx_len) (mem w)"
    by (simp add: contiguous_load [OF c(2)])
qed

section \<open>Construction\<close>

lemma receive_begin_small:
  "n < MIN_BUFFER_LEN \<Longrightarrow> receive_begin P T N a n sw = (Err InvalidParam, sw)"
  by (simp add: receive_begin_def check_rx_buf_len_def andthen_def)

lemma net_fill_loop_lent:
  assumes "lent_upto N (\<lambda>i. payload (rx_descriptor P (rx_addr i) buf_len)) k (recv_queue s)"
    and "k + m = N" and "net_fill_loop P T N rx_addr buf_len [k..<N] (s, w) = (Ok (), (s', w'))"
  shows "lent_upto N (\<lambda>i. payload (rx_descriptor P (rx_addr i) buf_len)) N (recv_queue s')"
    and "send_queue s' = send_queue s" and "mac s' = mac s"
    and "k < N \<Longrightarrow> MIN_BUFFER_LEN \<le> buf_len"
proof -
  let ?b = "\<lambda>i. payload (rx_descriptor P (rx_addr i) buf_len)"
  have "lent_upto N ?b N (recv_queue s') \<and> send_queue s' = send_queue s \<and> mac s' = mac s \<and>
      (k < N \<longrightarrow> MIN_BUFFER_LEN \<le> buf_len)"
    using assms
  proof (induction m arbitrary: k s w)
    case 0
    then show ?case by simp
  next
    case (Suc m)
    then have k: "k < N" "Suc k + m = N"
      by simp_all
    let ?w = "w\<lparr>mem := store_bytes P (rx_addr k) (replicate (unat buf_len) 0) (mem w)\<rparr>"
    obtain q1 where q1: "VirtIoQueue_add N [rx_descriptor P (rx_addr k) buf_len] (recv_queue s) =
        (Ok (of_nat k), q1)" "lent_upto N ?b (Suc k) q1"
      using lent_upto_Suc [OF Suc.prems(1) k(1) rx_descriptor_flags refl] by blast
    have min: "MIN_BUFFER_LEN \<le> buf_len"
      using Suc.prems(3) k(1)
      by (cases "buf_len < MIN_BUFFER_LEN")
        (auto simp: upt_conv_Cons andthen_def bind_def receive_begin_small simp del: upt_Suc)
    obtain w1 where "net_fill_loop P T N rx_addr buf_len [Suc k..<N] (s\<lparr>recv_queue := q1\<rparr>, w1) =
        (Ok (), (s', w'))"
      using Suc.prems(3) k(1) receive_begin_run [OF q1(1) min, where T = T and w = ?w]
      by (auto simp: upt_conv_Cons prog_Ok_iffs bind_Ok_iff andthen_Ok_iff on_net_eq
          split: if_splits prod.splits simp del: upt_Suc)
    then show ?case
      using Suc.IH [OF _ k(2), of "s\<lparr>recv_queue := q1\<rparr>"] q1(2) min by auto
  qed
  then show "lent_upto N ?b N (recv_queue s')" "send_queue s' = send_queue s" "mac s' = mac s"
    "k < N \<Longrightarrow> MIN_BUFFER_LEN \<le> buf_len"
    by blast+
qed

context transport_contract
begin

lemma send_submitted_frame:
  assumes q: "quiet N q" and N: "2 \<le> N" and ok: "tx_objects_ok P hdr_ptr tx_ptr tx_len"
    and sub: "submitted T N (send_descriptors P hdr_ptr tx_ptr tx_len)
      (q, with_header P hdr_ptr w) tok t"
  shows "tx_frame (map payload (chain_of N (table (fst t)) tok)) (mem (snd t)) =
    Some (replicate 10 0 @ load_bytes P tx_ptr (unat tx_len) (mem w))"
proof -
  let ?ds = "send_descriptors P hdr_ptr tx_ptr tx_len"
  have run: "VirtIoQueue_add N ?ds q = (Ok tok, fst t)"
    using sub by (simp add: submitted_def)
  have "length ?ds \<le> N"
    using send_descriptors_ok(2) N by (rule order_trans)
  then have chain: "map payload (chain_of N (table (fst t)) tok) = map payload ?ds"
    using quiet_submit_chain [OF q send_descriptors_ok(1) _ run] by simp
  have mem: "mem (snd t) = mem (with_header P hdr_ptr w)"
    using submitted_mem [OF sub] by simp
  have un: "unat (ucast tx_len :: u32) = unat tx_len"
    using ok by (simp add: tx_objects_ok_def unsigned_ucast_eq take_bit_nat_eq_self)
  show ?thesis
    unfolding chain mem
    by (simp add: tx_frame_def send_descriptors_def payload_def Descriptor_new_def Let_def
        EMPTY_def NEXT_def WRITE_def with_header_bytes [OF ok] un load_bytes_def [of P tx_ptr 0])
qed

end

lemma emits_ignore: "emits S m \<Longrightarrow> emits S (ignore m)"
  unfolding emits_def ignore_def
  by (auto split: prod.splits outcome.splits) (metis snd_conv)+

context transport_contract
begin

lemma net_fill_loop_status:
  "keeps (\<lambda>(s, w). v_status (view w)) (net_fill_loop P T N rx_addr buf_len is)"
proof (induction "is")
  case (Cons i "is")
  have "view (w\<lparr>mem := m\<rparr>) = view w" for w m
    using config_frame [of "w\<lparr>mem := m\<rparr>" w "[]"] by simp
  then have store: "keeps (\<lambda>(s, w). v_status (view w))
      (modify (\<lambda>(s, w). (s, w\<lparr>mem := f (mem w)\<rparr>)) :: ('d, unit) nprog)" for f
    by (simp add: keeps_def split_beta)
  have rq: "keeps (\<lambda>(s, w). v_status (view w)) (on_recv (on_q m))" for m :: "'x qprog"
    by (auto simp: keeps_def on_net_eq zoom_on split: prod.splits)
  have io: "keeps (\<lambda>(s, w). v_status (view w)) (on_io (t_notify T q))" for q
    by (auto simp: keeps_def on_net_eq split: prod.splits dest: status_frame(4))
  show ?case
    unfolding net_fill_loop.simps receive_begin_def check_rx_buf_len_def
    by (intro keeps_rules store rq io Cons.IH)
qed (simp only: net_fill_loop.simps keeps_rules)

lemma VirtIONetRaw_new_parts:
  assumes run: "VirtIONetRaw_new P T N lg w = (Ok s, w')" and ok: "hal_queue_ok P N"
  shows "v_status (view w') = 15" and "length (mac s) = 6"
    and "\<forall>i < 6. R8 (0x100 + of_nat i) (mac s ! i) \<in> set (trace w')"
    and "quiet N (recv_queue s)" and "quiet N (send_queue s)"
    and "avail_desc_index (recv_queue s) = map of_nat [0..<N]"
    and "queue_idx (recv_queue s) = QUEUE_RECEIVE" and "queue_idx (send_queue s) = QUEUE_TRANSMIT"
proof -
  obtain w1 m w2 w3 rq w4 sq w5 where
    mac: "ReadOnly_read_array P 0x100 6 w1 = (Ok m, w2)" and
    st: "(if lg then ignore (ReadOnly_read_u16 P NetConfig_status) else ret ()) w2 = (Ok (), w3)" and
    rq: "VirtIoQueue_new P T N QUEUE_RECEIVE w3 = (Ok rq, w4)" and
    sq: "VirtIoQueue_new P T N QUEUE_TRANSMIT w4 = (Ok sq, w5)" and
    fin: "finish_init T w5 = (Ok (), w')" and
    s: "s = \<lparr>mac = m, recv_queue = rq, send_queue = sq\<rparr>"
    using run
    by (auto simp: VirtIONetRaw_new_def owning_Ok_iff prog_Ok_iffs NetConfig_mac_def CONFIG_OFFSET_def)
  show "v_status (view w') = 15"
    using finish_init_Ok [OF fin] by simp
  show "length (mac s) = 6"
    using ReadOnly_read_array_Ok(1) [OF mac] s by simp
  show "quiet N (recv_queue s)" "quiet N (send_queue s)"
    "queue_idx (recv_queue s) = QUEUE_RECEIVE" "queue_idx (send_queue s) = QUEUE_TRANSMIT"
    using VirtIoQueue_new_quiet [OF rq ok] VirtIoQueue_new_quiet [OF sq ok] s by simp_all
  show "avail_desc_index (recv_queue s) = map of_nat [0..<N]"
    using rq s by (auto elim: VirtIoQueue_new_parts)
  have "emits (\<lambda>_. True) (if lg then ignore (ReadOnly_read_u16 P NetConfig_status) else ret ())"
    by (auto simp: volatile_defs intro!: emits_rules emits_ignore)
  then obtain e3 where e3: "trace w3 = trace w2 @ e3"
    using st by (rule emitsE)
  obtain e4 where e4: "trace w4 = trace w3 @ e4"
    using VirtIoQueue_new_emits rq by (rule emitsE)
  obtain e5 where e5: "trace w5 = trace w4 @ e5"
    using VirtIoQueue_new_emits sq by (rule emitsE)
  obtain e6 where "trace w' = trace w5 @ e6"
    using init_memory_frame(2) fin by (rule emitsE)
  with e3 e4 e5 show "\<forall>i < 6. R8 (0x100 + of_nat i) (mac s ! i) \<in> set (trace w')"
    using ReadOnly_read_array_Ok [OF mac] s by auto
qed

lemma VirtIONet_new_parts:
  assumes run: "VirtIONet_new P T N lg rx_addr buf_len w = (Ok v, w')" and ok: "hal_queue_ok P N"
  shows "v_status (view w') = 15" and "rx_inv P N [] v" and "quiet N (send_queue (inner v))"
    and "length (mac (inner v)) = 6"
    and "rx_buffers v = map (\<lambda>i. (rx_addr i, buf_len)) [0..<N]"
proof -
  obtain s w1 where raw: "VirtIONetRaw_new P T N lg w = (Ok s, w1)" and
    rest: "(case net_fill_loop P T N rx_addr buf_len [0..<N] (s, w1) of
          (Ok _, (raw', w')) \<Rightarrow>
            (Ok \<lparr>inner = raw', rx_buffers = map (\<lambda>i. (rx_addr i, buf_len)) [0..<N]\<rparr>, w')
        | (Err e, (raw', w')) \<Rightarrow> (Err e, w')
        | (Panic, (raw', w')) \<Rightarrow> (Panic, w')
        | (Hang, (raw', w')) \<Rightarrow> (Hang, w')) = (Ok v, w')"
    using run unfolding VirtIONet_new_def bind_Ok_iff owning_Ok_iff by blast
  obtain r s' w2 where loop: "net_fill_loop P T N rx_addr buf_len [0..<N] (s, w1) = (r, (s', w2))"
    by (metis prod.collapse)
  then have fill: "net_fill_loop P T N rx_addr buf_len [0..<N] (s, w1) = (Ok (), (s', w'))" and
    v: "v = \<lparr>inner = s', rx_buffers = map (\<lambda>i. (rx_addr i, buf_len)) [0..<N]\<rparr>"
    using rest by (cases r; simp)+
  note r = VirtIONetRaw_new_parts [OF raw ok]
  note f = net_fill_loop_lent [OF lent_upto_0 [OF r(4,6)] _ fill, where m = N, simplified]
  show "v_status (view w') = 15"
    using keepsD [OF net_fill_loop_status fill] r(1) by simp
  have "payload (rx_descriptor P (rx_addr i) buf_len) = rx_bufs P v i" if "i < N" for i
    using that v by (simp add: rx_bufs_def)
  then have "lent_except N (rx_bufs P v) [] (recv_queue s')"
    using lent_upto_all [OF f(1)] by (simp add: all_lent_def lent_except_def)
  moreover have "\<forall>b \<in> set (rx_buffers v). MIN_BUFFER_LEN \<le> snd b"
    using f(4) v by auto
  ultimately show "rx_inv P N [] v"
    using v by (simp add: rx_inv_def)
  show "quiet N (send_queue (inner v))" "length (mac (inner v)) = 6"
    "rx_buffers v = map (\<lambda>i. (rx_addr i, buf_len)) [0..<N]"
    using f(2,3) r v by simp_all
qed

end

end
