(* ===== verification/NetProps.thy ===== *)
theory NetProps
  imports Net Sample
begin

text \<open>
  The properties of the network driver over the MMIO transport: what a constructed driver has
  set up, that packets are received into the caller's buffer and receive buffers are lent
  again, that the device gets header and packet on sending, how blocking reception ends, and
  the ways in which errors of the device and of the negotiation surface.
\<close>

section \<open>Instances for the witnesses\<close>

abbreviation net_platform :: "unit platform" where
  "net_platform \<equiv> sample sample_regs 100 (\<lambda>_ m. m)"

definition sample_net :: "virtio_queue \<Rightarrow> virtio_net" where
  "sample_net q = \<lparr>inner = \<lparr>mac = replicate 6 0, recv_queue = q, send_queue = fresh_queue 2 1\<rparr>,
     rx_buffers = [(0x10000, 1526), (0x20000, 1526)]\<rparr>"

text \<open>A device whose feature register cannot be written.\<close>

definition deaf_platform :: "unit platform" where
  "deaf_platform = net_platform\<lparr>io := (sample_io sample_regs)\<lparr>write_volatile_u32_at :=
     (\<lambda>off v d. if off = 0x20 then (Inl IoError, d) else (Inr (), d))\<rparr>\<rparr>"

lemma sample_rx:
  "\<exists>q. rx_inv net_platform 2 [] (sample_net q) \<and> used q = used (fresh_queue 2 0) \<and> last_seen_used q = 0"
proof -
  let ?d = "\<lambda>i. rx_descriptor net_platform (fst (rx_buffers (sample_net undefined) ! i))
    (snd (rx_buffers (sample_net undefined) ! i))"
  have "avail_desc_index (fresh_queue 2 0) = map of_nat [0..<2]"
    by (simp add: fresh_queue_def)
  then obtain q where q: "lent_upto 2 (\<lambda>i. payload (?d i)) 2 q"
    "used q = used (fresh_queue 2 0)" "last_seen_used q = last_seen_used (fresh_queue 2 0)"
    using lend_all [where d = ?d, OF fresh_quiet_sizes(1) _ rx_descriptor_flags] by blast
  have "(\<lambda>i. payload (?d i)) = rx_bufs net_platform (sample_net q)"
    by (rule ext) (simp add: rx_bufs_def sample_net_def)
  then show ?thesis
    using q lent_upto_all [OF q(1)]
    by (intro exI [of _ q])
      (simp add: rx_inv_def sample_net_def MIN_BUFFER_LEN_def all_lent_def fresh_queue_def)
qed

lemma sample_tx_ok: "tx_objects_ok net_platform 0x1000 0x2000 60"
  using sample_phys_disjoint [of "0x1000" 10 "0x2000" 60]
  by (simp add: tx_objects_ok_def contiguous_sample)

lemma short_spans: "span 0 1 = [0]" "span 0 2 = [0, 1]"
  by (simp_all add: span_def upt_conv_Cons)

lemma replicate_2: "replicate 2 x = [x, x]"
  by (simp add: numeral_2_eq_2)

lemma sample_completed:
  assumes "rx_inv net_platform 2 [] (sample_net q)" and "used q = used (fresh_queue 2 0)"
    and "last_seen_used q = 0"
  shows "rx_inv net_platform 2 [] (sample_net (device_complete 2 0 n q))"
    and "completions 2 (device_complete 2 0 n q) = [(0, n)]"
    and "rx_inv net_platform 2 [] (sample_net (device_complete 2 1 m (device_complete 2 0 n q)))"
    and "completions 2 (device_complete 2 1 m (device_complete 2 0 n q)) = [(0, n), (1, m)]"
proof -
  have bufs: "rx_bufs net_platform (sample_net x) = rx_bufs net_platform (sample_net q)" for x
    by (rule ext) (simp add: rx_bufs_def sample_net_def)
  have l: "all_lent 2 (rx_bufs net_platform (sample_net q)) q" and p: "poped_used q = {}"
    using assms(1) by (auto simp: rx_inv_def all_lent_def sample_net_def lent_except_def)
  have c0: "completions 2 q = []"
    using assms p by (simp add: completions_def pending_def fresh_queue_def zero_queue_def)
  show c1: "completions 2 (device_complete 2 0 n q) = [(0, n)]"
    using assms p
    by (simp add: completions_def pending_def fresh_queue_def zero_queue_def device_complete_def
        entry_at_def short_spans replicate_2)
  show "completions 2 (device_complete 2 1 m (device_complete 2 0 n q)) = [(0, n), (1, m)]"
    using assms p
    by (simp add: completions_def pending_def fresh_queue_def zero_queue_def device_complete_def
        entry_at_def short_spans replicate_2)
  have l1: "all_lent 2 (rx_bufs net_platform (sample_net q)) (device_complete 2 0 n q)"
    using l c0 by (intro all_lent_complete) simp_all
  have l2: "all_lent 2 (rx_bufs net_platform (sample_net q)) (device_complete 2 1 m (device_complete 2 0 n q))"
    using all_lent_complete [OF l1, of 1 m] c1 by simp
  show "rx_inv net_platform 2 [] (sample_net (device_complete 2 0 n q))"
    "rx_inv net_platform 2 [] (sample_net (device_complete 2 1 m (device_complete 2 0 n q)))"
    using l1 l2 assms(1) unfolding rx_inv_def bufs [of "device_complete _ _ _ _"] all_lent_def
    by (simp_all add: sample_net_def)
qed



section \<open>Receiving\<close>



text \<open>
  A completion shorter than the packet header makes \<^verbatim>\<open>receive\<close> return IoError without
  lending the buffer again. From then on the tokens are out of step: the next completed packet,
  however valid, is not returned, but runs into the assertion on the token (or the
  notification fails before it).
\<close>

theorem short_packet_shifts_tokens:
  assumes "rx_inv P N [] v"
    and "completions N (recv_queue (inner v)) = (a, la) # (b, lb) # rest" and "la < 10"
    and "10 \<le> lb" and "ucast lb - 10 \<le> data_len" and "ucast lb \<le> snd (rx_buffers v ! unat b)"
  shows "\<exists>v1 r2. VirtIONet_receive P (mmio_transport P ver) N data_ptr data_len (v, w) =
      (Err IoError, (v1, w)) \<and>
    fst (VirtIONet_receive P (mmio_transport P ver) N data_ptr data_len (v1, w)) = r2 \<and>
    (r2 = Panic \<or> (\<exists>e. r2 = Err e))"
proof -
  obtain v1 where v1: "VirtIONet_receive P (mmio_transport P ver) N data_ptr data_len (v, w) =
      (Err IoError, (v1, w))" "rx_inv P N [a] v1"
    "completions N (recv_queue (inner v1)) = (b, lb) # rest" "rx_buffers v1 = rx_buffers v"
    using receive_short [OF assms(1,2,3)] by auto
  then show ?thesis
    using receive_shifted [OF v1(2,3) assms(4,5), of ver data_ptr w] assms(6) by auto
qed

theorem short_packet_shifts_tokens_witness:
  "\<exists>q v1. VirtIONet_receive net_platform (mmio_transport net_platform Modern) 2 0x30000 2000
       (sample_net (device_complete 2 1 100 (device_complete 2 0 5 q)), sample_world) =
     (Err IoError, (v1, sample_world))"
proof -
  obtain q where q: "rx_inv net_platform 2 [] (sample_net q)" "used q = used (fresh_queue 2 0)"
    "last_seen_used q = 0"
    using sample_rx by blast
  let ?v = "sample_net (device_complete 2 1 100 (device_complete 2 0 5 q))"
  have c: "completions 2 (recv_queue (inner ?v)) = [(0, 5), (1, 100)]"
    using sample_completed(4) [OF q] by (simp add: sample_net_def)
  have "ucast (100 :: u32) - 10 \<le> (2000 :: usize)"
    "ucast (100 :: u32) \<le> snd (rx_buffers ?v ! unat (1 :: u16))"
    by (simp_all add: sample_net_def)
  then show ?thesis
    using short_packet_shifts_tokens [OF sample_completed(3) [OF q] c] by fastforce
qed

text \<open>
  C22: A blocking reception into a buffer that is long enough, on an idle receive queue whose
  device completes the buffer at poll \<open>k\<close> with \<open>len\<close> bytes, returns: the lengths of the header
  and of the packet, or IoError if the device wrote less than a header. The queue is idle again.
\<close>

theorem receive_wait_returns:
  assumes "quiet N (recv_queue s)" and "0 < N" and "queue_idx (recv_queue s) = QUEUE_RECEIVE"
    and "MIN_BUFFER_LEN \<le> rx_len"
    and "submitted (mmio_transport P ver) N [rx_descriptor P rx_ptr rx_len] (recv_queue s, w) tok t"
    and "device_serves P N t tok k len"
  shows "\<exists>q'. receive_wait P (mmio_transport P ver) N rx_ptr rx_len (s, w) =
      (if len < 10 then Err IoError else Ok (10, ucast len - 10),
       (s\<lparr>recv_queue := q'\<rparr>, snd ((device_step P ^^ k) t))) \<and> quiet N q'"
proof -
  obtain q' where "VirtIoQueue_add_notify_wait_pop P (mmio_transport P ver) N
      [rx_descriptor P rx_ptr rx_len] (recv_queue s, w) =
      (Ok len, (q', snd ((device_step P ^^ k) t)))" "quiet N q'"
    using add_notify_wait_pop_Ok [OF _ chain_flags_single [OF rx_descriptor_flags] _ assms(5,6)]
      assms(1,2) by auto
  moreover have "ucast len < NET_HDR_SIZE \<longleftrightarrow> len < 10"
    by (simp add: NET_HDR_SIZE_def word_less_nat_alt unat_ucast_up)
  ultimately show ?thesis
    using receive_wait_eq [OF assms(3,4), of P "mmio_transport P ver" N rx_ptr w]
    by (intro exI [of _ q']) (simp add: bind_def on_net_eq NET_HDR_SIZE_def)
qed

theorem receive_wait_returns_witness:
  "\<exists>q' w'. receive_wait net_platform (mmio_transport net_platform Modern) 2 0x10000 1526
       (inner (sample_net (fresh_queue 2 0)), sample_world) =
     (Ok (10, 90), ((inner (sample_net (fresh_queue 2 0)))\<lparr>recv_queue := q'\<rparr>, w'))"
proof -
  let ?s = "inner (sample_net (fresh_queue 2 0))" and ?ds = "[rx_descriptor net_platform 0x10000 1526]"
  have s: "recv_queue ?s = fresh_queue 2 0"
    by (simp add: sample_net_def)
  have fl: "chain_flags ?ds"
    by (rule chain_flags_single [OF rx_descriptor_flags])
  have le: "length ?ds \<le> 2"
    by simp
  obtain tok t where sub: "submitted (mmio_transport net_platform Modern) 2 ?ds
      (recv_queue ?s, sample_world) tok t"
    unfolding s using sample_submits [OF fresh_quiet_sizes(1) fl le] by blast
  have srv: "device_serves net_platform 2 t tok 1 100"
    using sample_serves(1) [OF _ fl _ sub] fresh_quiet_sizes(1) s by simp
  have q: "quiet 2 (recv_queue ?s)" "queue_idx (recv_queue ?s) = QUEUE_RECEIVE"
    using fresh_quiet_sizes(1) by (simp_all add: s, simp add: fresh_queue_def QUEUE_RECEIVE_def)
  show ?thesis
    using receive_wait_returns [OF q(1) _ q(2) _ sub srv] by (auto simp: MIN_BUFFER_LEN_def)
qed

section \<open>Sending\<close>

text \<open>
  C21: Sending a packet hands the device one chain it may only read, made of a ten-byte header
  of zeros followed by the bytes of the packet (nothing, for the empty packet), and returns when
  the device has completed it, with the send queue idle again.
\<close>

theorem send_transmits_frame:
  assumes "quiet N (send_queue s)" and "2 \<le> N" and "tx_objects_ok P hdr_ptr tx_ptr tx_len"
    and "submitted (mmio_transport P ver) N (send_descriptors P hdr_ptr tx_ptr tx_len)
      (send_queue s, with_header P hdr_ptr w) tok t"
    and "device_serves P N t tok k n"
  shows "(\<exists>q'. VirtIONetRaw_send P (mmio_transport P ver) N hdr_ptr tx_ptr tx_len (s, w) =
      (Ok (), (s\<lparr>send_queue := q'\<rparr>, snd ((device_step P ^^ k) t))) \<and> quiet N q') \<and>
    tx_frame (map payload (chain_of N (table (fst t)) tok)) (mem (snd t)) =
      Some (replicate 10 0 @ load_bytes P tx_ptr (unat tx_len) (mem w))"
  using send_run [OF assms(1,2,4,5)] mmio.send_submitted_frame [OF assms(1,2,3,4)] by simp

theorem send_transmits_frame_witness:
  "\<exists>q' w'. VirtIONetRaw_send net_platform (mmio_transport net_platform Modern) 2 0x1000 0x2000 60
       (inner (sample_net (fresh_queue 2 0)), sample_world) =
     (Ok (), ((inner (sample_net (fresh_queue 2 0)))\<lparr>send_queue := q'\<rparr>, w'))"
proof -
  let ?s = "inner (sample_net (fresh_queue 2 0))"
  let ?ds = "send_descriptors net_platform 0x1000 0x2000 60"
  have s: "send_queue ?s = fresh_queue 2 1"
    by (simp add: sample_net_def)
  obtain tok t where sub: "submitted (mmio_transport net_platform Modern) 2 ?ds
      (send_queue ?s, with_header net_platform 0x1000 sample_world) tok t"
    unfolding s using sample_submits [OF fresh_quiet_sizes(1) send_descriptors_ok] by blast
  have srv: "device_serves net_platform 2 t tok 1 100"
    using sample_serves(1) [OF _ send_descriptors_ok sub] fresh_quiet_sizes(1) s by simp
  show ?thesis
    using send_transmits_frame [OF _ _ sample_tx_ok sub srv] fresh_quiet_sizes(1) s by auto
qed

section \<open>Headers\<close>

text \<open>
  A packet header can be written into a slice exactly when the slice has ten bytes, and
  then changes those ten bytes only; comparing the slice with any header afterwards answers
  whether it is the header that was written.
\<close>

theorem header_roundtrip:
  "(fst (VirtioNetHdr_write_to h target) = Ok () \<longleftrightarrow> 10 \<le> length target) \<and>
   (VirtioNetHdr_write_to h target = (Ok (), written) \<longrightarrow>
     length written = length target \<and> drop 10 written = drop 10 target \<and>
     VirtioNetHdr_equal h' written s = (Ok (h' = h), s))"
  by (auto simp: write_to_eq equal_eq VirtioNetHdr_bytes_inj)

theorem header_roundtrip_witness:
  "VirtioNetHdr_equal VirtioNetHdr_default (replicate 12 0) () = (Ok True, ())"
  using header_roundtrip [of VirtioNetHdr_default "replicate 12 0" "replicate 12 0" VirtioNetHdr_default "()"]
  by (simp add: write_to_eq VirtioNetHdr_bytes_default flip: replicate_add)

section \<open>Construction\<close>



lemma deaf_io:
  "io_write_u32 deaf_platform off v w = (if off = 0x20 then (Err IoError, w)
     else (Ok (), w\<lparr>trace := trace w @ [W32 off v]\<rparr>))"
  "io_read_u32 deaf_platform off w =
     (Ok (sample_regs off), w\<lparr>trace := trace w @ [R32 off (sample_regs off)]\<rparr>)"
  "io_read_u8 deaf_platform off w =
     (Ok (ucast (sample_regs off)), w\<lparr>trace := trace w @ [R8 off (ucast (sample_regs off))]\<rparr>)"
  "hal_dma_alloc deaf_platform n w = (Ok sample_page, w)" "debug deaf_platform = False"
  by (simp_all add: deaf_platform_def io_write_u32_def io_read_u32_def io_read_u8_def
      hal_dma_alloc_def sample_st_def sample_io_def sample_hal_def)

lemma deaf_begin_init:
  "begin_init (mmio_transport deaf_platform Modern) all_bits supp w =
     (Err IoError, w\<lparr>trace := trace w @ [W32 0x70 0, W32 0x70 3, W32 0x14 0, R32 0x10 0xffffffff,
        W32 0x14 1, R32 0x10 0xffffffff, W32 0x24 0]\<rparr>)"
  by (simp add: begin_init_def mmio_transport_def mmio_defs volatile_defs bind_def andthen_def
      Let_def deaf_io sample_regs_def ACKNOWLEDGE_def DRIVER_def)

lemma deaf_mac: "\<exists>m. ReadOnly_read_array deaf_platform 0x100 6 w =
   (Ok m, w\<lparr>trace := trace w @ map (\<lambda>i. R8 (0x100 + of_nat i) 0) [0..<6]\<rparr>)"
  by (simp add: ReadOnly_read_array_def upt_conv_Cons bind_def deaf_io sample_regs_def)

lemma deaf_new_queue:
  "\<exists>q a b c d. VirtIoQueue_new deaf_platform (mmio_transport deaf_platform Modern) 2 i w =
     (Ok q, w\<lparr>trace := trace w @ [W32 0x30 (ucast i), R32 0x44 0, W32 0x30 (ucast i), R32 0x34 1024,
       W32 0x30 (ucast i), W32 0x38 2, W32 0x80 0x80001000, W32 0x84 0,
       W32 0x90 a, W32 0x94 b, W32 0xa0 c, W32 0xa4 d, W32 0x44 1]\<rparr>)"
  by (simp add: VirtIoQueue_new_def mmio_transport_def mmio_defs volatile_defs bind_def
      andthen_def Let_def is_power_of_two.simps add_ov_def deaf_io sample_regs_def sample_page_def)
    blast

lemma deaf_finish_init:
  "finish_init (mmio_transport deaf_platform Modern) w = (Ok (), w\<lparr>trace := trace w @ [W32 0x70 15]\<rparr>)"
  by (simp add: finish_init_def mmio_transport_def mmio_defs volatile_defs deaf_io ACKNOWLEDGE_def
      DRIVER_def FEATURES_OK_def DRIVER_OK_def)

text \<open>
  The network driver ignores the outcome of the feature negotiation. There is a device
  whose feature register cannot be written, so that the negotiation fails, and the
  construction succeeds all the same and makes the device live with no features negotiated.
\<close>

theorem net_new_ignores_negotiation_error:
  "\<exists>e w1 s w2. begin_init (mmio_transport deaf_platform Modern) NetFeatures_all net_SUPPORTED_FEATURES
       sample_world = (Err e, w1) \<and>
     VirtIONetRaw_new deaf_platform (mmio_transport deaf_platform Modern) 2 False sample_world = (Ok s, w2) \<and>
     v_status (mmio_view Modern w2) = 15 \<and> (\<forall>f. W32 0x20 f \<notin> set (trace w2))"
proof -
  let ?T = "mmio_transport deaf_platform Modern"
  obtain w1 where w1: "begin_init ?T NetFeatures_all net_SUPPORTED_FEATURES sample_world = (Err IoError, w1)"
    "\<forall>f. W32 0x20 f \<notin> set (trace w1)"
    using deaf_begin_init [of NetFeatures_all net_SUPPORTED_FEATURES sample_world]
    by (simp add: sample_world_def)
  have "W32 0x20 f \<notin> set (map (\<lambda>i. R8 (0x100 + of_nat i) 0) [0..<6])" for f
    by auto
  then obtain m w2 where w2: "ReadOnly_read_array deaf_platform NetConfig_mac 6 w1 = (Ok m, w2)"
    "\<forall>f. W32 0x20 f \<notin> set (trace w2)"
    using deaf_mac [of w1] w1(2) by (fastforce simp: NetConfig_mac_def CONFIG_OFFSET_def)
  obtain q3 w3 where w3: "VirtIoQueue_new deaf_platform ?T 2 QUEUE_RECEIVE w2 = (Ok q3, w3)"
    "\<forall>f. W32 0x20 f \<notin> set (trace w3)"
    using deaf_new_queue [of QUEUE_RECEIVE w2] w2(2) by auto
  obtain q4 w4 where w4: "VirtIoQueue_new deaf_platform ?T 2 QUEUE_TRANSMIT w3 = (Ok q4, w4)"
    "\<forall>f. W32 0x20 f \<notin> set (trace w4)"
    using deaf_new_queue [of QUEUE_TRANSMIT w3] w3(2) by auto
  obtain w5 where w5: "finish_init ?T w4 = (Ok (), w5)" "\<forall>f. W32 0x20 f \<notin> set (trace w5)"
    using deaf_finish_init [of w4] w4(2) by auto
  have "VirtIONetRaw_new deaf_platform ?T 2 False sample_world =
      (Ok \<lparr>mac = m, recv_queue = q3, send_queue = q4\<rparr>, w5)"
    using w1(1) w2(1) w3(1) w4(1) w5(1)
    by (simp add: VirtIONetRaw_new_def owning_def andthen_def bind_def ignore_def)
  moreover have "v_status (mmio_view Modern w5) = 15"
    using mmio.finish_init_Ok [OF w5(1)] by simp
  ultimately show ?thesis
    using w1(1) w5(2) by blast
qed

end
