(* ===== verification/Console.thy ===== *)
theory Console
  imports VirtQueue Bytes
begin

text \<open>
  The console driver, \<^verbatim>\<open>device/console/mod.rs\<close> and \<^verbatim>\<open>device/console/ty.rs\<close>. The boxed receive
  buffer is its address, an argument of the constructor; the one-byte local of \<^verbatim>\<open>send\<close> is an
  address too.
\<close>

section \<open>Types (ty.rs)\<close>

definition ConsoleConfig_cols :: usize where "ConsoleConfig_cols = CONFIG_OFFSET"
definition ConsoleConfig_rows :: usize where "ConsoleConfig_rows = CONFIG_OFFSET + 2"
definition ConsoleConfig_max_nr_ports :: usize where "ConsoleConfig_max_nr_ports = CONFIG_OFFSET + 4"

record ConsoleInfo =
  ci_rows :: u16
  ci_columns :: u16
  ci_max_ports :: u32

definition ConsoleFeatures_all :: u64 where
  "ConsoleFeatures_all = foldr (\<lambda>i a. or (push_bit i 1) a)
     [0, 1, 2, 24, 27, 28, 29, 30, 32, 33, 34, 35, 36, 37, 38] 0"

section \<open>The driver (mod.rs)\<close>

definition QUEUE_RECEIVEQ_PORT_0 :: u16 where "QUEUE_RECEIVEQ_PORT_0 = 0"
definition QUEUE_TRANSMITQ_PORT_0 :: u16 where "QUEUE_TRANSMITQ_PORT_0 = 1"
definition console_QUEUE_SIZE :: nat where "console_QUEUE_SIZE = 2"
definition console_SUPPORTED_FEATURES :: u64 where "console_SUPPORTED_FEATURES = 0"

record virtio_console =
  receiveq :: virtio_queue
  transmitq :: virtio_queue
  queue_buf_rx :: usize
  cursor :: usize
  pending_len :: usize
  receive_token :: "u16 option"

type_synonym ('d, 'a) cprog = "(virtio_console \<times> 'd world, virtio_error, 'a) prog"

definition on_receiveq :: "('d, 'a) qwprog \<Rightarrow> ('d, 'a) cprog" where
  "on_receiveq = zoom (\<lambda>(c, w). (receiveq c, w)) (\<lambda>(q, w) (c, _). (c\<lparr>receiveq := q\<rparr>, w))"

definition on_transmitq :: "('d, 'a) qwprog \<Rightarrow> ('d, 'a) cprog" where
  "on_transmitq = zoom (\<lambda>(c, w). (transmitq c, w)) (\<lambda>(q, w) (c, _). (c\<lparr>transmitq := q\<rparr>, w))"

definition on_console_io :: "('d, 'a) wprog \<Rightarrow> ('d, 'a) cprog" where
  "on_console_io = zoom snd (\<lambda>w (c, _). (c, w))"

definition VirtIOConsole_new :: "'d platform \<Rightarrow> 'd transport \<Rightarrow> usize \<Rightarrow> ('d, virtio_console) wprog" where
  "VirtIOConsole_new P T buf =
     owning T
     (bind (begin_init T ConsoleFeatures_all console_SUPPORTED_FEATURES) (\<lambda>_.
      bind (VirtIoQueue_new P T console_QUEUE_SIZE QUEUE_RECEIVEQ_PORT_0) (\<lambda>receiveq.
      bind (VirtIoQueue_new P T console_QUEUE_SIZE QUEUE_TRANSMITQ_PORT_0) (\<lambda>transmitq.
      andthen (finish_init T)
      (andthen (modify (\<lambda>w. w\<lparr>mem := store_bytes P buf (replicate (unat PAGE_SIZE) 0) (mem w)\<rparr>))
      (ret \<lparr>receiveq = receiveq, transmitq = transmitq, queue_buf_rx = buf, cursor = 0,
            pending_len = 0, receive_token = None\<rparr>))))))"

definition VirtIOConsole_info :: "'d platform \<Rightarrow> ('d, ConsoleInfo) wprog" where
  "VirtIOConsole_info P =
     bind (ReadOnly_read_u16 P ConsoleConfig_cols) (\<lambda>columns.
     bind (ReadOnly_read_u16 P ConsoleConfig_rows) (\<lambda>rows.
     bind (ReadOnly_read_u32 P ConsoleConfig_max_nr_ports) (\<lambda>max_ports.
     ret \<lparr>ci_rows = rows, ci_columns = columns, ci_max_ports = max_ports\<rparr>)))"

definition poll_retrieve :: "'d platform \<Rightarrow> 'd transport \<Rightarrow> ('d, unit) cprog" where
  "poll_retrieve P T =
     bind (gets (\<lambda>(c, w). (receive_token c = None \<and> cursor c = pending_len c, queue_buf_rx c)))
       (\<lambda>(wanted, buf).
     if wanted then
       let req = Descriptor_new P buf (ucast PAGE_SIZE) WRITE
       in bind (on_receiveq (VirtIoQueue_add_notify_wait_pop P T console_QUEUE_SIZE [req])) (\<lambda>l.
          modify (\<lambda>(c, w). (c\<lparr>receive_token := Some 0\<rparr>, w)))
     else ret ())"

definition finish_receive :: "('d, bool) cprog" where
  "finish_receive =
     bind (gets (\<lambda>(c, w). (receive_token c, VirtIoQueue_peek_used console_QUEUE_SIZE (receiveq c))))
       (\<lambda>(tok, peeked).
     (case tok of
        None \<Rightarrow> ret False
      | Some receive_token' \<Rightarrow>
          if tok = peeked then
            bind (on_receiveq (on_q (VirtIoQueue_pop_used console_QUEUE_SIZE receive_token'))) (\<lambda>len.
            andthen (assert_that (len \<noteq> 0))
            (andthen (modify (\<lambda>(c, w).
               (c\<lparr>cursor := 0, pending_len := ucast len, receive_token := None\<rparr>, w)))
            (ret True)))
          else ret False))"

text \<open>Indexing the receive buffer.\<close>

definition rx_char :: "'d platform \<Rightarrow> ('d, u8) cprog" where
  "rx_char P =
     bind (gets (\<lambda>(c, w). cursor c)) (\<lambda>i.
     andthen (assert_that (i < PAGE_SIZE))
     (gets (\<lambda>(c, w). mem w (to_paddr (hal P) (queue_buf_rx c + i)))))"

definition advance_cursor :: "'d platform \<Rightarrow> ('d, unit) cprog" where
  "advance_cursor P =
     bind (gets (\<lambda>(c, w). cursor c)) (\<lambda>i.
     bind (add_ov (debug P) i 1) (\<lambda>i'. modify (\<lambda>(c, w). (c\<lparr>cursor := i'\<rparr>, w))))"

definition VirtIOConsole_recv :: "'d platform \<Rightarrow> 'd transport \<Rightarrow> bool \<Rightarrow> ('d, u8 option) cprog" where
  "VirtIOConsole_recv P T pop =
     bind finish_receive (\<lambda>_.
     bind (gets (\<lambda>(c, w). cursor c = pending_len c)) (\<lambda>empty.
     if empty then ret None
     else bind (rx_char P) (\<lambda>ch.
       andthen (if pop then andthen (advance_cursor P) (poll_retrieve P T) else ret ())
       (ret (Some ch)))))"

text \<open>Between two rounds of the loop the device may act on the receive queue.\<close>

definition console_device_step ::
  "'d platform \<Rightarrow> virtio_console \<times> 'd world \<Rightarrow> virtio_console \<times> 'd world" where
  "console_device_step P cw =
     (case cw of (c, w) \<Rightarrow>
        (case device_step P (receiveq c, w) of (q, w') \<Rightarrow> (c\<lparr>receiveq := q\<rparr>, w')))"

definition VirtIOConsole_recv_block :: "'d platform \<Rightarrow> 'd transport \<Rightarrow> ('d, u8) cprog" where
  "VirtIOConsole_recv_block P T =
     andthen
       (while_prog
         (bind finish_receive (\<lambda>_.
          andthen (poll_retrieve P T)
          (gets (\<lambda>(c, w). cursor c = pending_len c))))
         (console_device_step P))
     (bind (rx_char P) (\<lambda>ch. andthen (advance_cursor P) (ret ch)))"

definition VirtIOConsole_send ::
  "'d platform \<Rightarrow> 'd transport \<Rightarrow> usize \<Rightarrow> u8 \<Rightarrow> ('d, unit) cprog" where
  "VirtIOConsole_send P T buf chr =
     andthen (modify (\<lambda>(c, w). (c, w\<lparr>mem := store_bytes P buf [chr] (mem w)\<rparr>)))
     (let desc = Descriptor_new P buf 1 EMPTY
      in bind (on_transmitq (VirtIoQueue_add_notify_wait_pop P T console_QUEUE_SIZE [desc])) (\<lambda>_.
         ret ()))"

definition VirtIOConsole_ack_interrupt :: "'d transport \<Rightarrow> ('d, bool) cprog" where
  "VirtIOConsole_ack_interrupt T =
     bind (on_console_io (t_ack_interrupt T)) (\<lambda>b. if \<not> b then ret False else finish_receive)"

definition VirtIOConsole_drop :: "'d transport \<Rightarrow> ('d, unit) cprog" where
  "VirtIOConsole_drop T =
     on_console_io
       (andthen (expect (t_queue_unset T QUEUE_RECEIVEQ_PORT_0))
       (andthen (expect (t_queue_unset T QUEUE_TRANSMITQ_PORT_0)) (t_drop T)))"

section \<open>Notions of the specification\<close>

definition with_char :: "'d platform \<Rightarrow> usize \<Rightarrow> u8 \<Rightarrow> 'd world \<Rightarrow> 'd world" where
  "with_char P buf chr w = w\<lparr>mem := store_bytes P buf [chr] (mem w)\<rparr>"

text \<open>A device that does nothing on a queue on which it has no buffers.\<close>

definition leaves_idle_queue :: "'d platform \<Rightarrow> nat \<Rightarrow> bool" where
  "leaves_idle_queue P N \<longleftrightarrow> (\<forall>q w. quiet N q \<longrightarrow> fst (device_step P (q, w)) = q)"

text \<open>A console without unread characters, whose receive queue is idle.\<close>

definition console_dry :: "virtio_console \<Rightarrow> bool" where
  "console_dry c \<longleftrightarrow> quiet 2 (receiveq c) \<and> cursor c = pending_len c"

section \<open>Running on a part of the driver\<close>

lemma on_console_eq:
  "on_receiveq m (c, w) = (case m (receiveq c, w) of (r, (q, w')) \<Rightarrow> (r, (c\<lparr>receiveq := q\<rparr>, w')))"
  "on_transmitq m (c, w) = (case m (transmitq c, w) of (r, (q, w')) \<Rightarrow> (r, (c\<lparr>transmitq := q\<rparr>, w')))"
  "on_console_io n (c, w) = (case n w of (r, w') \<Rightarrow> (r, (c, w')))"
  by (simp_all add: on_receiveq_def on_transmitq_def on_console_io_def zoom_def split: prod.splits)

lemma quiet_peek: "quiet N q \<Longrightarrow> VirtIoQueue_peek_used N q = None"
  using quiet_empty(1) [of N q] by (simp add: VirtIoQueue_peek_used_def)

section \<open>Receiving\<close>

lemma finish_receive_dry: "console_dry c \<Longrightarrow> finish_receive (c, w) = (Ok False, (c, w))"
  using quiet_peek
  by (cases "receive_token c")
    (auto simp: finish_receive_def bind_def console_dry_def console_QUEUE_SIZE_def)

lemma recv_dry: "console_dry c \<Longrightarrow> VirtIOConsole_recv P T pop (c, w) = (Ok None, (c, w))"
  by (simp add: VirtIOConsole_recv_def bind_def finish_receive_dry) (simp add: console_dry_def)

lemma poll_retrieve_waiting: "receive_token c = Some t \<Longrightarrow> poll_retrieve P T (c, w) = (Ok (), (c, w))"
  by (simp add: poll_retrieve_def bind_def)

lemma poll_retrieve_run:
  assumes "console_dry c" and "receive_token c = None"
    and "submitted T 2 [Descriptor_new P (queue_buf_rx c) 4096 WRITE] (receiveq c, w) tok t"
    and "device_serves P 2 t tok k len"
  shows "\<exists>q'. poll_retrieve P T (c, w) = (Ok (), (c\<lparr>receiveq := q', receive_token := Some 0\<rparr>,
      snd ((device_step P ^^ k) t))) \<and> quiet 2 q'"
proof -
  let ?d = "Descriptor_new P (queue_buf_rx c) 4096 WRITE"
  have fl: "chain_flags [?d]"
    by (simp add: chain_flags_def Descriptor_new_def WRITE_def NEXT_def)
  obtain q' where "VirtIoQueue_add_notify_wait_pop P T 2 [?d] (receiveq c, w) =
      (Ok len, (q', snd ((device_step P ^^ k) t)))" "quiet 2 q'"
    using add_notify_wait_pop_Ok [OF _ fl _ assms(3,4)] assms(1) by (auto simp: console_dry_def)
  then show ?thesis
    using assms(1,2)
    by (intro exI [of _ q']) (simp add: poll_retrieve_def bind_def on_console_eq console_dry_def
        console_QUEUE_SIZE_def PAGE_SIZE_def)
qed

lemma recv_block_lost:
  assumes dry: "console_dry c" and none: "receive_token c = None" and idle: "leaves_idle_queue P 2"
    and sub: "submitted T 2 [Descriptor_new P (queue_buf_rx c) 4096 WRITE] (receiveq c, w) tok t"
    and srv: "device_serves P 2 t tok k len"
  shows "VirtIOConsole_recv_block P T (c, w) = (Hang, (c, w))"
proof -
  let ?c = "bind finish_receive (\<lambda>_. andthen (poll_retrieve P T) (gets (\<lambda>(c, w). cursor c = pending_len c)))"
  let ?I = "\<lambda>(c, w). console_dry c \<and> receive_token c = Some 0"
  obtain q' where q': "poll_retrieve P T (c, w) = (Ok (), (c\<lparr>receiveq := q', receive_token := Some 0\<rparr>,
      snd ((device_step P ^^ k) t)))" "quiet 2 q'"
    using poll_retrieve_run [OF dry none sub srv] by blast
  have "while_prog ?c (console_device_step P) (c, w) = (Hang, (c, w))"
  proof (rule while_prog_Hang [where I = ?I])
    show "\<exists>t. ?c (c, w) = (Ok True, t) \<and> ?I t"
      using q' dry by (simp add: bind_def andthen_def finish_receive_dry [OF dry] console_dry_def)
    show "\<exists>t'. ?c (console_device_step P t) = (Ok True, t') \<and> ?I t'" if i: "?I t" for t
    proof -
      obtain c1 w1 where t: "t = (c1, w1)"
        by (cases t)
      then have c1: "console_dry c1" "receive_token c1 = Some 0"
        using i by simp_all
      then have "fst (device_step P (receiveq c1, w1)) = receiveq c1"
        using idle by (simp add: leaves_idle_queue_def console_dry_def)
      then obtain w2 where "console_device_step P t = (c1, w2)"
        using t by (cases "device_step P (receiveq c1, w1)") (simp add: console_device_step_def)
      then show ?thesis
        using c1 by (simp add: bind_def andthen_def finish_receive_dry poll_retrieve_waiting)
          (simp add: console_dry_def)
    qed
  qed
  then show ?thesis
    by (simp add: VirtIOConsole_recv_block_def andthen_def bind_def)
qed

section \<open>Sending\<close>

lemma send_descriptor_flags: "chain_flags [Descriptor_new P buf 1 EMPTY]"
  by (simp add: chain_flags_def Descriptor_new_def EMPTY_def)

lemma console_send_run:
  assumes q: "quiet 2 (transmitq c)"
    and sub: "submitted T 2 [Descriptor_new P buf 1 EMPTY] (transmitq c, with_char P buf chr w) tok t"
    and srv: "device_serves P 2 t tok k n"
  shows "\<exists>q'. VirtIOConsole_send P T buf chr (c, w) =
      (Ok (), (c\<lparr>transmitq := q'\<rparr>, snd ((device_step P ^^ k) t))) \<and> quiet 2 q'"
proof -
  obtain q' where "VirtIoQueue_add_notify_wait_pop P T 2 [Descriptor_new P buf 1 EMPTY]
      (transmitq c, with_char P buf chr w) = (Ok n, (q', snd ((device_step P ^^ k) t)))" "quiet 2 q'"
    using add_notify_wait_pop_Ok [OF _ send_descriptor_flags _ sub srv] q by auto
  then show ?thesis
    by (intro exI [of _ q']) (simp add: VirtIOConsole_send_def andthen_def bind_def on_console_eq
        console_QUEUE_SIZE_def with_char_def)
qed

context transport_contract
begin

lemma console_sent_char:
  assumes q: "quiet 2 q"
    and sub: "submitted T 2 [Descriptor_new P buf 1 EMPTY] (q, with_char P buf chr w) tok t"
  shows "map payload (chain_of 2 (table (fst t)) tok) = [(to_paddr (hal P) buf, 1, EMPTY)]"
    and "mem (snd t) (to_paddr (hal P) buf) = chr"
proof -
  have run: "VirtIoQueue_add 2 [Descriptor_new P buf 1 EMPTY] q = (Ok tok, fst t)"
    using sub by (simp add: submitted_def)
  show "map payload (chain_of 2 (table (fst t)) tok) = [(to_paddr (hal P) buf, 1, EMPTY)]"
    using quiet_submit_chain [OF q send_descriptor_flags _ run]
    by (simp add: payload_def Descriptor_new_def)
  show "mem (snd t) (to_paddr (hal P) buf) = chr"
    using submitted_mem [OF sub] by (simp add: with_char_def)
qed

lemma VirtIOConsole_new_ready:
  assumes run: "VirtIOConsole_new P T buf w = (Ok c, w')" and ok: "hal_queue_ok P 2"
  shows "v_status (view w') = 15" and "console_dry c" and "receive_token c = None"
    and "quiet 2 (transmitq c)" and "queue_buf_rx c = buf"
proof -
  obtain f w1 rq w2 tq w3 w4 where
    init: "begin_init T ConsoleFeatures_all console_SUPPORTED_FEATURES w = (Ok f, w1)" and
    rq: "VirtIoQueue_new P T 2 QUEUE_RECEIVEQ_PORT_0 w1 = (Ok rq, w2)" and
    tq: "VirtIoQueue_new P T 2 QUEUE_TRANSMITQ_PORT_0 w2 = (Ok tq, w3)" and
    fin: "finish_init T w3 = (Ok (), w4)" and
    w': "w' = w4\<lparr>mem := store_bytes P buf (replicate (unat PAGE_SIZE) 0) (mem w4)\<rparr>" and
    c: "c = \<lparr>receiveq = rq, transmitq = tq, queue_buf_rx = buf, cursor = 0, pending_len = 0,
          receive_token = None\<rparr>"
    using run by (auto simp: VirtIOConsole_new_def owning_Ok_iff prog_Ok_iffs console_QUEUE_SIZE_def)
  have "view w' = view w4"
    using config_frame [of w' w4 "[]"] w' by simp
  then show "v_status (view w') = 15"
    using finish_init_Ok [OF fin] by simp
  show "console_dry c" "quiet 2 (transmitq c)" "receive_token c = None" "queue_buf_rx c = buf"
    using VirtIoQueue_new_quiet [OF rq ok] VirtIoQueue_new_quiet [OF tq ok] c
    by (simp_all add: console_dry_def)
qed

end

end
