(* ===== verification/ConsoleProps.thy ===== *)
theory ConsoleProps
  imports Console Sample
begin

text \<open>
  The properties of the console driver over the MMIO transport: what is sent reaches the device,
  and what the device delivers is lost.
\<close>

section \<open>Instances for the witnesses\<close>

abbreviation console_platform :: "unit platform" where
  "console_platform \<equiv> sample sample_regs 5 (\<lambda>_ m. m)"

definition sample_console :: virtio_console where
  "sample_console = \<lparr>receiveq = fresh_queue 2 0, transmitq = fresh_queue 2 1, queue_buf_rx = 0x5000,
     cursor = 0, pending_len = 0, receive_token = None\<rparr>"


section \<open>Sending\<close>

text \<open>
  C24: Sending a character hands the device one buffer of one byte that it may only read and that
  holds the character, and returns when the device has completed it, with the queue idle again.
\<close>

theorem console_send_delivers:
  assumes "quiet 2 (transmitq c)"
    and "submitted (mmio_transport P ver) 2 [Descriptor_new P buf 1 EMPTY]
      (transmitq c, with_char P buf chr w) tok t"
    and "device_serves P 2 t tok k n"
  shows "(\<exists>q'. VirtIOConsole_send P (mmio_transport P ver) buf chr (c, w) =
      (Ok (), (c\<lparr>transmitq := q'\<rparr>, snd ((device_step P ^^ k) t))) \<and> quiet 2 q') \<and>
    map payload (chain_of 2 (table (fst t)) tok) = [(to_paddr (hal P) buf, 1, EMPTY)] \<and>
    mem (snd t) (to_paddr (hal P) buf) = chr"
  using console_send_run [OF assms] mmio.console_sent_char [OF assms(1,2)] by simp

theorem console_send_delivers_witness:
  "\<exists>q' w'. VirtIOConsole_send console_platform (mmio_transport console_platform Modern) 0x6000 65
       (sample_console, sample_world) = (Ok (), (sample_console\<lparr>transmitq := q'\<rparr>, w'))"
proof -
  let ?ds = "[Descriptor_new console_platform 0x6000 1 EMPTY]"
  have q: "quiet 2 (transmitq sample_console)"
    using fresh_quiet_sizes(1) by (simp add: sample_console_def)
  have le: "length ?ds \<le> 2"
    by simp
  obtain tok t where sub: "submitted (mmio_transport console_platform Modern) 2 ?ds
      (transmitq sample_console, with_char console_platform 0x6000 65 sample_world) tok t"
    using sample_submits [OF fresh_quiet_sizes(1) send_descriptor_flags le]
    by (simp add: sample_console_def) blast
  have srv: "device_serves console_platform 2 t tok 1 5"
    using sample_serves(1) [OF _ send_descriptor_flags le sub] q by simp
  show ?thesis
    using console_send_delivers [OF q sub srv] by blast
qed

section \<open>Receiving\<close>



end
