(* ===== verification/Gpu.thy ===== *)
theory Gpu
  imports VirtQueue Bytes
begin

text \<open>
  The graphics driver, \<^verbatim>\<open>device/gpu/mod.rs\<close> and \<^verbatim>\<open>device/gpu/ty.rs\<close>. The request and the response of a
  command are locals of \<^verbatim>\<open>request\<close>; their addresses are the argument \<open>fr\<close>, which may differ from
  command to command. The structures are their byte images in memory, as \<^verbatim>\<open>repr(C)\<close> lays them out.
\<close>

section \<open>Types (ty.rs)\<close>

definition GpuConfig_events_read :: usize where "GpuConfig_events_read = CONFIG_OFFSET"
definition GpuConfig_num_scanouts :: usize where "GpuConfig_num_scanouts = CONFIG_OFFSET + 8"

definition GpuFeatures_all :: u64 where
  "GpuFeatures_all = foldr (\<lambda>i a. or (push_bit i 1) a)
     [0, 1, 24, 27, 28, 29, 30, 32, 33, 34, 35, 36, 37, 38] 0"

definition GET_DISPLAY_INFO :: u32 where "GET_DISPLAY_INFO = 0x100"
definition RESOURCE_CREATE_2D :: u32 where "RESOURCE_CREATE_2D = 0x101"
definition SET_SCANOUT :: u32 where "SET_SCANOUT = 0x103"
definition RESOURCE_FLUSH :: u32 where "RESOURCE_FLUSH = 0x104"
definition TRANSFER_TO_HOST_2D :: u32 where "TRANSFER_TO_HOST_2D = 0x105"
definition RESOURCE_ATTACH_BACKING :: u32 where "RESOURCE_ATTACH_BACKING = 0x106"
definition UPDATE_CURSOR :: u32 where "UPDATE_CURSOR = 0x300"
definition MOVE_CURSOR :: u32 where "MOVE_CURSOR = 0x301"
definition OK_NODATA :: u32 where "OK_NODATA = 0x1100"
definition OK_DISPLAY_INFO :: u32 where "OK_DISPLAY_INFO = 0x1101"

record CtrlHeader =
  hdr_type :: u32
  ch_flags :: u32
  fence_id :: u64
  ctx_id :: u32
  ch_padding :: u32

definition CtrlHeader_default :: CtrlHeader where
  "CtrlHeader_default = \<lparr>hdr_type = 0, ch_flags = 0, fence_id = 0, ctx_id = 0, ch_padding = 0\<rparr>"

definition CtrlHeader_with_type :: "u32 \<Rightarrow> CtrlHeader" where
  "CtrlHeader_with_type t =
     \<lparr>hdr_type = t, ch_flags = 0, fence_id = 0, ctx_id = 0, ch_padding = 0\<rparr>"

definition CtrlHeader_check_type :: "CtrlHeader \<Rightarrow> u32 \<Rightarrow> ('s, virtio_error, unit) prog" where
  "CtrlHeader_check_type h expected = (if hdr_type h = expected then ret () else throw IoError)"

definition CtrlHeader_bytes :: "CtrlHeader \<Rightarrow> u8 list" where
  "CtrlHeader_bytes h =
     le_bytes 4 (hdr_type h) @ le_bytes 4 (ch_flags h) @ le_bytes 8 (fence_id h) @
     le_bytes 4 (ctx_id h) @ le_bytes 4 (ch_padding h)"

definition CtrlHeader_of_bytes :: "u8 list \<Rightarrow> CtrlHeader" where
  "CtrlHeader_of_bytes bs =
     \<lparr>hdr_type = of_le_bytes (take 4 bs), ch_flags = of_le_bytes (take 4 (drop 4 bs)),
      fence_id = of_le_bytes (take 8 (drop 8 bs)), ctx_id = of_le_bytes (take 4 (drop 16 bs)),
      ch_padding = of_le_bytes (take 4 (drop 20 bs))\<rparr>"

record Rect =
  rect_x :: u32
  rect_y :: u32
  rect_width :: u32
  rect_height :: u32

definition Rect_bytes :: "Rect \<Rightarrow> u8 list" where
  "Rect_bytes r =
     le_bytes 4 (rect_x r) @ le_bytes 4 (rect_y r) @ le_bytes 4 (rect_width r) @
     le_bytes 4 (rect_height r)"

definition Rect_of_bytes :: "u8 list \<Rightarrow> Rect" where
  "Rect_of_bytes bs =
     \<lparr>rect_x = of_le_bytes (take 4 bs), rect_y = of_le_bytes (take 4 (drop 4 bs)),
      rect_width = of_le_bytes (take 4 (drop 8 bs)), rect_height = of_le_bytes (take 4 (drop 12 bs))\<rparr>"

definition Rect_default :: Rect where
  "Rect_default = \<lparr>rect_x = 0, rect_y = 0, rect_width = 0, rect_height = 0\<rparr>"

record RespDisplayInfo =
  di_header :: CtrlHeader
  di_rect :: Rect
  di_enabled :: u32
  di_flags :: u32

definition RespDisplayInfo_bytes :: "RespDisplayInfo \<Rightarrow> u8 list" where
  "RespDisplayInfo_bytes d =
     CtrlHeader_bytes (di_header d) @ Rect_bytes (di_rect d) @ le_bytes 4 (di_enabled d) @
     le_bytes 4 (di_flags d)"

definition RespDisplayInfo_of_bytes :: "u8 list \<Rightarrow> RespDisplayInfo" where
  "RespDisplayInfo_of_bytes bs =
     \<lparr>di_header = CtrlHeader_of_bytes (take 24 bs), di_rect = Rect_of_bytes (take 16 (drop 24 bs)),
      di_enabled = of_le_bytes (take 4 (drop 40 bs)), di_flags = of_le_bytes (take 4 (drop 44 bs))\<rparr>"

definition RespDisplayInfo_default :: RespDisplayInfo where
  "RespDisplayInfo_default =
     \<lparr>di_header = CtrlHeader_default, di_rect = Rect_default, di_enabled = 0, di_flags = 0\<rparr>"

datatype Format = B8G8R8A8UNORM

fun Format_discriminant :: "Format \<Rightarrow> u32" where
  "Format_discriminant B8G8R8A8UNORM = 1"

text \<open>The request structures, by their fields in order.\<close>

definition ResourceCreate2D_bytes :: "CtrlHeader \<Rightarrow> u32 \<Rightarrow> Format \<Rightarrow> u32 \<Rightarrow> u32 \<Rightarrow> u8 list" where
  "ResourceCreate2D_bytes header resource_id format width height =
     CtrlHeader_bytes header @ le_bytes 4 resource_id @ le_bytes 4 (Format_discriminant format) @
     le_bytes 4 width @ le_bytes 4 height"

definition ResourceAttachBacking_bytes ::
  "CtrlHeader \<Rightarrow> u32 \<Rightarrow> u32 \<Rightarrow> u64 \<Rightarrow> u32 \<Rightarrow> u32 \<Rightarrow> u8 list" where
  "ResourceAttachBacking_bytes header resource_id nr_entries addr len padding =
     CtrlHeader_bytes header @ le_bytes 4 resource_id @ le_bytes 4 nr_entries @ le_bytes 8 addr @
     le_bytes 4 len @ le_bytes 4 padding"

definition SetScanout_bytes :: "CtrlHeader \<Rightarrow> Rect \<Rightarrow> u32 \<Rightarrow> u32 \<Rightarrow> u8 list" where
  "SetScanout_bytes header rect scanout_id resource_id =
     CtrlHeader_bytes header @ Rect_bytes rect @ le_bytes 4 scanout_id @ le_bytes 4 resource_id"

definition TransferToHost2D_bytes :: "CtrlHeader \<Rightarrow> Rect \<Rightarrow> u64 \<Rightarrow> u32 \<Rightarrow> u32 \<Rightarrow> u8 list" where
  "TransferToHost2D_bytes header rect offset resource_id padding =
     CtrlHeader_bytes header @ Rect_bytes rect @ le_bytes 8 offset @ le_bytes 4 resource_id @
     le_bytes 4 padding"

definition ResourceFlush_bytes :: "CtrlHeader \<Rightarrow> Rect \<Rightarrow> u32 \<Rightarrow> u32 \<Rightarrow> u8 list" where
  "ResourceFlush_bytes header rect resource_id padding =
     CtrlHeader_bytes header @ Rect_bytes rect @ le_bytes 4 resource_id @ le_bytes 4 padding"

definition CursorPos_bytes :: "u32 \<Rightarrow> u32 \<Rightarrow> u32 \<Rightarrow> u32 \<Rightarrow> u8 list" where
  "CursorPos_bytes scanout_id x y padding =
     le_bytes 4 scanout_id @ le_bytes 4 x @ le_bytes 4 y @ le_bytes 4 padding"

definition UpdateCursor_bytes ::
  "CtrlHeader \<Rightarrow> u8 list \<Rightarrow> u32 \<Rightarrow> u32 \<Rightarrow> u32 \<Rightarrow> u32 \<Rightarrow> u8 list" where
  "UpdateCursor_bytes header pos resource_id hot_x hot_y padding =
     CtrlHeader_bytes header @ pos @ le_bytes 4 resource_id @ le_bytes 4 hot_x @ le_bytes 4 hot_y @
     le_bytes 4 padding"

definition GPU_QUEUE_TRANSMIT :: u16 where "GPU_QUEUE_TRANSMIT = 0"
definition QUEUE_CURSOR :: u16 where "QUEUE_CURSOR = 1"
definition SCANOUT_ID :: u32 where "SCANOUT_ID = 0"
definition RESOURCE_ID_FB :: u32 where "RESOURCE_ID_FB = 0xbabe"
definition RESOURCE_ID_CURSOR :: u32 where "RESOURCE_ID_CURSOR = 0xdade"

definition CURSOR_RECT :: Rect where
  "CURSOR_RECT = \<lparr>rect_x = 0, rect_y = 0, rect_width = 64, rect_height = 64\<rparr>"

section \<open>The driver (mod.rs)\<close>

definition gpu_QUEUE_SIZE :: nat where "gpu_QUEUE_SIZE = 2"
definition gpu_SUPPORTED_FEATURES :: u64 where "gpu_SUPPORTED_FEATURES = 0"

record virtio_gpu =
  gpu_rect :: "Rect option"
  frame_buffer_dma :: "device_page option"
  cursor_buffer_dma :: "device_page option"
  control_queue :: virtio_queue
  cursor_queue :: virtio_queue

record gpu_frame =
  gf_req :: usize
  gf_rsp :: usize

type_synonym ('d, 'a) gprog = "(virtio_gpu \<times> 'd world, virtio_error, 'a) prog"

definition on_control :: "('d, 'a) qwprog \<Rightarrow> ('d, 'a) gprog" where
  "on_control = zoom (\<lambda>(g, w). (control_queue g, w)) (\<lambda>(q, w) (g, _). (g\<lparr>control_queue := q\<rparr>, w))"

definition on_cursor :: "('d, 'a) qwprog \<Rightarrow> ('d, 'a) gprog" where
  "on_cursor = zoom (\<lambda>(g, w). (cursor_queue g, w)) (\<lambda>(q, w) (g, _). (g\<lparr>cursor_queue := q\<rparr>, w))"

definition on_gpu_io :: "('d, 'a) wprog \<Rightarrow> ('d, 'a) gprog" where
  "on_gpu_io = zoom snd (\<lambda>w (g, _). (g, w))"

definition VirtIOGpu_new :: "'d platform \<Rightarrow> 'd transport \<Rightarrow> ('d, virtio_gpu) wprog" where
  "VirtIOGpu_new P T =
     owning T
     (bind (begin_init T GpuFeatures_all gpu_SUPPORTED_FEATURES) (\<lambda>_.
      bind (ReadOnly_read_u32 P GpuConfig_events_read) (\<lambda>events_read.
      bind (ReadWrite_read_u32 P GpuConfig_num_scanouts) (\<lambda>num_scanouts.
      bind (VirtIoQueue_new P T gpu_QUEUE_SIZE GPU_QUEUE_TRANSMIT) (\<lambda>control_queue.
      bind (VirtIoQueue_new P T gpu_QUEUE_SIZE QUEUE_CURSOR) (\<lambda>cursor_queue.
      andthen (finish_init T)
      (ret \<lparr>gpu_rect = None, frame_buffer_dma = None, cursor_buffer_dma = None,
            control_queue = control_queue, cursor_queue = cursor_queue\<rparr>)))))))"

definition VirtIOGpu_ack_interrupt :: "'d transport \<Rightarrow> ('d, bool) gprog" where
  "VirtIOGpu_ack_interrupt T = on_gpu_io (t_ack_interrupt T)"

text \<open>
  \<^verbatim>\<open>request\<close>: the two locals come into being, the chain of the two goes to the device, and the
  response is what memory holds afterwards.
\<close>

definition gpu_request ::
  "'d platform \<Rightarrow> 'd transport \<Rightarrow> gpu_frame \<Rightarrow> u8 list \<Rightarrow> u8 list \<Rightarrow> ('d, u8 list) gprog" where
  "gpu_request P T fr req rsp =
     andthen (modify (\<lambda>(g, w). (g, w\<lparr>mem :=
       store_bytes P (gf_rsp fr) rsp (store_bytes P (gf_req fr) req (mem w))\<rparr>)))
     (let req_desc = Descriptor_new P (gf_req fr) (of_nat (length req)) NEXT;
          res_desc = Descriptor_new P (gf_rsp fr) (of_nat (length rsp)) WRITE
      in bind (on_control (VirtIoQueue_add_notify_wait_pop P T gpu_QUEUE_SIZE [req_desc, res_desc]))
           (\<lambda>_. gets (\<lambda>(g, w). load_bytes P (gf_rsp fr) (length rsp) (mem w))))"

definition gpu_cursor_request ::
  "'d platform \<Rightarrow> 'd transport \<Rightarrow> gpu_frame \<Rightarrow> u8 list \<Rightarrow> ('d, unit) gprog" where
  "gpu_cursor_request P T fr req =
     andthen (modify (\<lambda>(g, w). (g, w\<lparr>mem := store_bytes P (gf_req fr) req (mem w)\<rparr>)))
     (let req_desc = Descriptor_new P (gf_req fr) (of_nat (length req)) EMPTY
      in bind (on_cursor (VirtIoQueue_add_notify_wait_pop P T gpu_QUEUE_SIZE [req_desc])) (\<lambda>_.
         ret ()))"

text \<open>The commands whose response is a bare header.\<close>

definition resource_create_2d ::
  "'d platform \<Rightarrow> 'd transport \<Rightarrow> (u32 \<Rightarrow> gpu_frame) \<Rightarrow> u32 \<Rightarrow> u32 \<Rightarrow> u32 \<Rightarrow> ('d, unit) gprog" where
  "resource_create_2d P T fr resource_id width height =
     bind (gpu_request P T (fr RESOURCE_CREATE_2D)
       (ResourceCreate2D_bytes (CtrlHeader_with_type RESOURCE_CREATE_2D) resource_id B8G8R8A8UNORM
         width height)
       (CtrlHeader_bytes CtrlHeader_default)) (\<lambda>rsp.
     CtrlHeader_check_type (CtrlHeader_of_bytes rsp) OK_NODATA)"

definition set_scanout ::
  "'d platform \<Rightarrow> 'd transport \<Rightarrow> (u32 \<Rightarrow> gpu_frame) \<Rightarrow> Rect \<Rightarrow> u32 \<Rightarrow> u32 \<Rightarrow> ('d, unit) gprog" where
  "set_scanout P T fr rect scanout_id resource_id =
     bind (gpu_request P T (fr SET_SCANOUT)
       (SetScanout_bytes (CtrlHeader_with_type SET_SCANOUT) rect scanout_id resource_id)
       (CtrlHeader_bytes CtrlHeader_default)) (\<lambda>rsp.
     CtrlHeader_check_type (CtrlHeader_of_bytes rsp) OK_NODATA)"

definition resource_flush ::
  "'d platform \<Rightarrow> 'd transport \<Rightarrow> (u32 \<Rightarrow> gpu_frame) \<Rightarrow> Rect \<Rightarrow> u32 \<Rightarrow> ('d, unit) gprog" where
  "resource_flush P T fr rect resource_id =
     bind (gpu_request P T (fr RESOURCE_FLUSH)
       (ResourceFlush_bytes (CtrlHeader_with_type RESOURCE_FLUSH) rect resource_id 0)
       (CtrlHeader_bytes CtrlHeader_default)) (\<lambda>rsp.
     CtrlHeader_check_type (CtrlHeader_of_bytes rsp) OK_NODATA)"

definition transfer_to_host_2d ::
  "'d platform \<Rightarrow> 'd transport \<Rightarrow> (u32 \<Rightarrow> gpu_frame) \<Rightarrow> Rect \<Rightarrow> u64 \<Rightarrow> u32 \<Rightarrow> ('d, unit) gprog" where
  "transfer_to_host_2d P T fr rect offset resource_id =
     bind (gpu_request P T (fr TRANSFER_TO_HOST_2D)
       (TransferToHost2D_bytes (CtrlHeader_with_type TRANSFER_TO_HOST_2D) rect offset resource_id 0)
       (CtrlHeader_bytes CtrlHeader_default)) (\<lambda>rsp.
     CtrlHeader_check_type (CtrlHeader_of_bytes rsp) OK_NODATA)"

definition resource_attach_backing ::
  "'d platform \<Rightarrow> 'd transport \<Rightarrow> (u32 \<Rightarrow> gpu_frame) \<Rightarrow> u32 \<Rightarrow> u64 \<Rightarrow> u32 \<Rightarrow> ('d, unit) gprog" where
  "resource_attach_backing P T fr resource_id paddr len =
     bind (gpu_request P T (fr RESOURCE_ATTACH_BACKING)
       (ResourceAttachBacking_bytes (CtrlHeader_with_type RESOURCE_ATTACH_BACKING) resource_id 1
         paddr len 0)
       (CtrlHeader_bytes CtrlHeader_default)) (\<lambda>rsp.
     CtrlHeader_check_type (CtrlHeader_of_bytes rsp) OK_NODATA)"

definition update_cursor ::
  "'d platform \<Rightarrow> 'd transport \<Rightarrow> (u32 \<Rightarrow> gpu_frame) \<Rightarrow> u32 \<Rightarrow> u32 \<Rightarrow> u32 \<Rightarrow> u32 \<Rightarrow> u32 \<Rightarrow> u32 \<Rightarrow> bool \<Rightarrow>
    ('d, unit) gprog" where
  "update_cursor P T fr resource_id scanout_id pos_x pos_y hot_x hot_y is_move =
     (let cmd = (if is_move then MOVE_CURSOR else UPDATE_CURSOR)
      in gpu_cursor_request P T (fr cmd)
           (UpdateCursor_bytes (CtrlHeader_with_type cmd)
             (CursorPos_bytes scanout_id pos_x pos_y 0) resource_id hot_x hot_y 0))"

definition get_display_info ::
  "'d platform \<Rightarrow> 'd transport \<Rightarrow> (u32 \<Rightarrow> gpu_frame) \<Rightarrow> ('d, RespDisplayInfo) gprog" where
  "get_display_info P T fr =
     bind (gpu_request P T (fr GET_DISPLAY_INFO)
       (CtrlHeader_bytes (CtrlHeader_with_type GET_DISPLAY_INFO))
       (RespDisplayInfo_bytes RespDisplayInfo_default)) (\<lambda>rsp.
     let info = RespDisplayInfo_of_bytes rsp
     in andthen (CtrlHeader_check_type (di_header info) OK_DISPLAY_INFO) (ret info))"

definition VirtIOGpu_resolution ::
  "'d platform \<Rightarrow> 'd transport \<Rightarrow> (u32 \<Rightarrow> gpu_frame) \<Rightarrow> ('d, u32 \<times> u32) gprog" where
  "VirtIOGpu_resolution P T fr =
     bind (get_display_info P T fr) (\<lambda>display_info.
     ret (rect_width (di_rect display_info), rect_height (di_rect display_info)))"

text \<open>The slice of the frame buffer is its address and length.\<close>

definition setup_framebuffer ::
  "'d platform \<Rightarrow> 'd transport \<Rightarrow> (u32 \<Rightarrow> gpu_frame) \<Rightarrow> ('d, usize \<times> usize) gprog" where
  "setup_framebuffer P T fr =
     bind (get_display_info P T fr) (\<lambda>display_info.
     let rect = di_rect display_info
     in andthen (modify (\<lambda>(g, w). (g\<lparr>gpu_rect := Some rect\<rparr>, w)))
       (andthen (resource_create_2d P T fr RESOURCE_ID_FB (rect_width rect) (rect_height rect))
       (bind (mul_ov (debug P) (rect_width rect) (rect_height rect)) (\<lambda>area.
        bind (mul_ov (debug P) area 4) (\<lambda>sz.
        bind (on_gpu_io (hal_dma_alloc_buf P (pages (ucast sz)))) (\<lambda>frame_buffer.
        andthen (resource_attach_backing P T fr RESOURCE_ID_FB (pg_paddr frame_buffer) sz)
        (andthen (set_scanout P T fr rect SCANOUT_ID RESOURCE_ID_FB)
        (andthen (modify (\<lambda>(g, w). (g\<lparr>frame_buffer_dma := Some frame_buffer\<rparr>, w)))
        (ret (pg_vaddr frame_buffer, pg_len frame_buffer))))))))))"

definition VirtIOGpu_flush ::
  "'d platform \<Rightarrow> 'd transport \<Rightarrow> (u32 \<Rightarrow> gpu_frame) \<Rightarrow> ('d, unit) gprog" where
  "VirtIOGpu_flush P T fr =
     bind (gets (\<lambda>(g, w). gpu_rect g)) (\<lambda>rect_opt.
     (case rect_opt of
        None \<Rightarrow> throw NotReady
      | Some rect \<Rightarrow>
          andthen (transfer_to_host_2d P T fr rect 0 RESOURCE_ID_FB)
          (resource_flush P T fr rect RESOURCE_ID_FB)))"

definition setup_cursor ::
  "'d platform \<Rightarrow> 'd transport \<Rightarrow> (u32 \<Rightarrow> gpu_frame) \<Rightarrow> usize \<Rightarrow> usize \<Rightarrow> u32 \<Rightarrow> u32 \<Rightarrow> u32 \<Rightarrow> u32 \<Rightarrow>
    ('d, unit) gprog" where
  "setup_cursor P T fr image_ptr image_len pos_x pos_y hot_x hot_y =
     bind (mul_ov (debug P) (rect_width CURSOR_RECT) (rect_height CURSOR_RECT)) (\<lambda>area.
     bind (mul_ov (debug P) area 4) (\<lambda>sz.
     if image_len \<noteq> ucast sz then throw InvalidParam
     else
       bind (on_gpu_io (hal_dma_alloc_buf P (pages (ucast sz)))) (\<lambda>cursor_buffer.
       andthen (assert_that (pg_len cursor_buffer = image_len))
       (andthen (modify (\<lambda>(g, w). (g, w\<lparr>mem := store_bytes P (pg_vaddr cursor_buffer)
          (load_bytes P image_ptr (unat image_len) (mem w)) (mem w)\<rparr>)))
       (andthen (resource_create_2d P T fr RESOURCE_ID_CURSOR (rect_width CURSOR_RECT)
          (rect_height CURSOR_RECT))
       (andthen (resource_attach_backing P T fr RESOURCE_ID_CURSOR (pg_paddr cursor_buffer) sz)
       (andthen (transfer_to_host_2d P T fr CURSOR_RECT 0 RESOURCE_ID_CURSOR)
       (andthen (update_cursor P T fr RESOURCE_ID_CURSOR SCANOUT_ID pos_x pos_y hot_x hot_y False)
       (modify (\<lambda>(g, w). (g\<lparr>cursor_buffer_dma := Some cursor_buffer\<rparr>, w)))))))))))"

definition move_cursor ::
  "'d platform \<Rightarrow> 'd transport \<Rightarrow> (u32 \<Rightarrow> gpu_frame) \<Rightarrow> u32 \<Rightarrow> u32 \<Rightarrow> ('d, unit) gprog" where
  "move_cursor P T fr pos_x pos_y =
     update_cursor P T fr RESOURCE_ID_CURSOR SCANOUT_ID pos_x pos_y 0 0 True"

definition VirtIOGpu_drop :: "'d transport \<Rightarrow> ('d, unit) gprog" where
  "VirtIOGpu_drop T =
     on_gpu_io
       (andthen (expect (t_queue_unset T GPU_QUEUE_TRANSMIT))
       (andthen (expect (t_queue_unset T QUEUE_CURSOR)) (t_drop T)))"

section \<open>Initialisation\<close>

context transport_contract
begin

lemma VirtIOGpu_new_ready:
  assumes run: "VirtIOGpu_new P T w = (Ok g, w')" and ok: "hal_queue_ok P 2"
  shows "v_status (view w') = 15" and "quiet 2 (control_queue g)" and "quiet 2 (cursor_queue g)"
    and "gpu_rect g = None" and "frame_buffer_dma g = None"
proof -
  obtain f w1 ev w2 ns w3 cq w4 uq w5 where
    init: "begin_init T GpuFeatures_all gpu_SUPPORTED_FEATURES w = (Ok f, w1)" and
    cq: "VirtIoQueue_new P T 2 GPU_QUEUE_TRANSMIT w3 = (Ok cq, w4)" and
    uq: "VirtIoQueue_new P T 2 QUEUE_CURSOR w4 = (Ok uq, w5)" and
    fin: "finish_init T w5 = (Ok (), w')" and
    g: "g = \<lparr>gpu_rect = None, frame_buffer_dma = None, cursor_buffer_dma = None, control_queue = cq,
          cursor_queue = uq\<rparr>"
    using run by (auto simp: VirtIOGpu_new_def owning_Ok_iff prog_Ok_iffs gpu_QUEUE_SIZE_def)
  show "v_status (view w') = 15"
    using finish_init_Ok [OF fin] by simp
  show "quiet 2 (control_queue g)" "quiet 2 (cursor_queue g)" "gpu_rect g = None" "frame_buffer_dma g = None"
    using VirtIoQueue_new_quiet [OF cq ok] VirtIoQueue_new_quiet [OF uq ok] g by simp_all
qed

end

end
