(* ===== verification/GpuDevice.thy ===== *)
theory GpuDevice
  imports Gpu Sample
begin

text \<open>
  What a 2D graphics device does with the commands of \<^verbatim>\<open>device/gpu/mod.rs\<close>, written from the layouts of
  the VirtIO specification and not from the driver's, and the driver run against such a device:
  each command is understood as the driver means it, and \<^verbatim>\<open>setup_framebuffer\<close> and \<^verbatim>\<open>flush\<close> compose
  the commands.
\<close>

section \<open>Notions of the specification\<close>

text \<open>
  A 2D device in terms of the numbers and offsets of the VirtIO specification: it knows
  resources with their sizes, their backing memory, what each scanout shows, and which parts of
  which resources have been transferred and flushed.
\<close>

record gpu_dev =
  gd_display :: Rect
  gd_resources :: "u32 \<rightharpoonup> u32 \<times> u32"
  gd_backing :: "u32 \<rightharpoonup> u64 \<times> u32"
  gd_scanouts :: "u32 \<rightharpoonup> Rect \<times> u32"
  gd_transferred :: "(Rect \<times> u32) list"
  gd_flushed :: "(Rect \<times> u32) list"

definition field32 :: "u8 list \<Rightarrow> nat \<Rightarrow> u32" where
  "field32 bs i = of_le_bytes (take 4 (drop i bs))"

definition gpu_effect :: "u8 list \<Rightarrow> gpu_dev \<Rightarrow> u8 list \<times> gpu_dev" where
  "gpu_effect req g =
     (let ok = CtrlHeader_bytes (CtrlHeader_with_type 0x1100);
          err = CtrlHeader_bytes (CtrlHeader_with_type 0x1200);
          rect = Rect_of_bytes (take 16 (drop 24 req))
      in if field32 req 0 = 0x100 then
           (RespDisplayInfo_bytes \<lparr>di_header = CtrlHeader_with_type 0x1101, di_rect = gd_display g,
              di_enabled = 1, di_flags = 0\<rparr>, g)
         else if field32 req 0 = 0x101 then
           (ok, g\<lparr>gd_resources := (gd_resources g)(field32 req 24 \<mapsto> (field32 req 32, field32 req 36))\<rparr>)
         else if field32 req 0 = 0x103 then
           if gd_resources g (field32 req 44) = None then (err, g)
           else (ok, g\<lparr>gd_scanouts := (gd_scanouts g)(field32 req 40 \<mapsto> (rect, field32 req 44))\<rparr>)
         else if field32 req 0 = 0x104 then
           if gd_resources g (field32 req 40) = None then (err, g)
           else (ok, g\<lparr>gd_flushed := gd_flushed g @ [(rect, field32 req 40)]\<rparr>)
         else if field32 req 0 = 0x105 then
           if gd_backing g (field32 req 48) = None then (err, g)
           else (ok, g\<lparr>gd_transferred := gd_transferred g @ [(rect, field32 req 48)]\<rparr>)
         else if field32 req 0 = 0x106 then
           if gd_resources g (field32 req 24) = None then (err, g)
           else (ok, g\<lparr>gd_backing := (gd_backing g)
             (field32 req 24 \<mapsto> (of_le_bytes (take 8 (drop 32 req)), field32 req 40))\<rparr>)
         else (err, g))"

definition gpu_serve :: "(u64 \<times> u32 \<times> u16) list \<Rightarrow> memory \<times> gpu_dev \<Rightarrow> memory \<times> gpu_dev" where
  "gpu_serve ch s =
     (case (ch, s) of
        ([(qa, qn, qf), (ra, rn, rf)], (m, g)) \<Rightarrow>
          (case gpu_effect (phys_bytes m qa (unat qn)) g of (rsp, g') \<Rightarrow> (write_phys m ra rsp, g'))
      | _ \<Rightarrow> s)"

text \<open>
  The device serves every request on an idle queue, and notifying it or allocating memory does
  not change its state, which the map \<open>gd\<close> finds in the state of the platform.
\<close>

definition gpu_serves :: "'d platform \<Rightarrow> 'd transport \<Rightarrow> ('d \<Rightarrow> gpu_dev) \<Rightarrow> bool" where
  "gpu_serves P T gd \<longleftrightarrow>
     (\<forall>q w ds tok t. quiet 2 q \<and> chain_flags ds \<and> length ds \<le> 2 \<and> submitted T 2 ds (q, w) tok t \<longrightarrow>
       (\<exists>k len. device_serves P 2 t tok k len \<and>
         (mem (snd ((device_step P ^^ k) t)), gd (dev (snd ((device_step P ^^ k) t)))) =
           gpu_serve (map payload (chain_of 2 (table (fst t)) tok)) (mem (snd t), gd (dev (snd t))))) \<and>
     (\<forall>i w. \<exists>w'. t_notify T i w = (Ok (), w') \<and> mem w' = mem w \<and> gd (dev w') = gd (dev w)) \<and>
     (\<forall>n d. gd (snd (dma_alloc_buf (hal P) n d)) = gd d)"

definition gpu_frame_ok :: "'d platform \<Rightarrow> gpu_frame \<Rightarrow> bool" where
  "gpu_frame_ok P fr \<longleftrightarrow>
     contiguous P (gf_req fr) 56 \<and> contiguous P (gf_rsp fr) 48 \<and>
     phys P (gf_req fr) 56 \<inter> phys P (gf_rsp fr) 48 = {}"

text \<open>The state of the device when the frame buffer is set up with \<open>sz\<close> bytes at \<open>a\<close>.\<close>

definition with_framebuffer :: "u64 \<Rightarrow> u32 \<Rightarrow> gpu_dev \<Rightarrow> gpu_dev" where
  "with_framebuffer a sz d = d\<lparr>
     gd_resources := (gd_resources d)(0xbabe \<mapsto> (rect_width (gd_display d), rect_height (gd_display d))),
     gd_backing := (gd_backing d)(0xbabe \<mapsto> (a, sz)),
     gd_scanouts := (gd_scanouts d)(0 \<mapsto> (gd_display d, 0xbabe))\<rparr>"

section \<open>Encodings\<close>

lemma bytes_lengths [simp]:
  "length (CtrlHeader_bytes h) = 24" "length (Rect_bytes r) = 16"
  "length (RespDisplayInfo_bytes d) = 48"
  by (simp_all add: CtrlHeader_bytes_def Rect_bytes_def RespDisplayInfo_bytes_def)

lemma CtrlHeader_roundtrip: "CtrlHeader_of_bytes (CtrlHeader_bytes h) = h"
  by (simp add: CtrlHeader_of_bytes_def CtrlHeader_bytes_def of_le_bytes_exact)

lemma Rect_roundtrip: "Rect_of_bytes (Rect_bytes r) = r"
  by (simp add: Rect_of_bytes_def Rect_bytes_def of_le_bytes_exact)

lemma RespDisplayInfo_roundtrip: "RespDisplayInfo_of_bytes (RespDisplayInfo_bytes d) = d"
  by (simp add: RespDisplayInfo_of_bytes_def RespDisplayInfo_bytes_def CtrlHeader_roundtrip
      Rect_roundtrip of_le_bytes_exact)

lemmas request_bytes_defs =
  ResourceCreate2D_bytes_def SetScanout_bytes_def ResourceFlush_bytes_def
  TransferToHost2D_bytes_def ResourceAttachBacking_bytes_def

lemmas gpu_commands =
  GET_DISPLAY_INFO_def RESOURCE_CREATE_2D_def SET_SCANOUT_def RESOURCE_FLUSH_def
  TRANSFER_TO_HOST_2D_def RESOURCE_ATTACH_BACKING_def OK_NODATA_def OK_DISPLAY_INFO_def

text \<open>What each command does to the device.\<close>

lemma field32_header:
  "field32 (CtrlHeader_bytes (CtrlHeader_with_type c) @ bs) 0 = c"
  "field32 (CtrlHeader_bytes (CtrlHeader_with_type c)) 0 = c"
  by (simp_all add: field32_def CtrlHeader_bytes_def CtrlHeader_with_type_def of_le_bytes_exact)

lemma gpu_effect_get_display_info:
  "gpu_effect (CtrlHeader_bytes (CtrlHeader_with_type GET_DISPLAY_INFO)) g =
     (RespDisplayInfo_bytes \<lparr>di_header = CtrlHeader_with_type OK_DISPLAY_INFO, di_rect = gd_display g,
        di_enabled = 1, di_flags = 0\<rparr>, g)"
  by (simp add: gpu_effect_def field32_header gpu_commands Let_def)

lemma gpu_effect_create:
  "gpu_effect (ResourceCreate2D_bytes (CtrlHeader_with_type RESOURCE_CREATE_2D) r f x y) g =
     (CtrlHeader_bytes (CtrlHeader_with_type OK_NODATA),
      g\<lparr>gd_resources := (gd_resources g)(r \<mapsto> (x, y))\<rparr>)"
  by (simp add: gpu_effect_def request_bytes_defs field32_header gpu_commands Let_def)
    (simp add: field32_def of_le_bytes_exact)

lemma gpu_effect_attach:
  "gd_resources g r \<noteq> None \<Longrightarrow>
   gpu_effect (ResourceAttachBacking_bytes (CtrlHeader_with_type RESOURCE_ATTACH_BACKING) r n a len p) g =
     (CtrlHeader_bytes (CtrlHeader_with_type OK_NODATA),
      g\<lparr>gd_backing := (gd_backing g)(r \<mapsto> (a, len))\<rparr>)"
  by (simp add: gpu_effect_def request_bytes_defs field32_header gpu_commands Let_def)
    (auto simp: field32_def of_le_bytes_exact)

lemma gpu_effect_scanout:
  "gd_resources g r \<noteq> None \<Longrightarrow>
   gpu_effect (SetScanout_bytes (CtrlHeader_with_type SET_SCANOUT) rect s r) g =
     (CtrlHeader_bytes (CtrlHeader_with_type OK_NODATA),
      g\<lparr>gd_scanouts := (gd_scanouts g)(s \<mapsto> (rect, r))\<rparr>)"
  by (simp add: gpu_effect_def request_bytes_defs field32_header gpu_commands Let_def)
    (auto simp: field32_def of_le_bytes_exact Rect_roundtrip)

lemma gpu_effect_transfer:
  "gd_backing g r \<noteq> None \<Longrightarrow>
   gpu_effect (TransferToHost2D_bytes (CtrlHeader_with_type TRANSFER_TO_HOST_2D) rect off r p) g =
     (CtrlHeader_bytes (CtrlHeader_with_type OK_NODATA),
      g\<lparr>gd_transferred := gd_transferred g @ [(rect, r)]\<rparr>)"
  by (simp add: gpu_effect_def request_bytes_defs field32_header gpu_commands Let_def)
    (auto simp: field32_def of_le_bytes_exact Rect_roundtrip)

lemma gpu_effect_flush:
  "gd_resources g r \<noteq> None \<Longrightarrow>
   gpu_effect (ResourceFlush_bytes (CtrlHeader_with_type RESOURCE_FLUSH) rect r p) g =
     (CtrlHeader_bytes (CtrlHeader_with_type OK_NODATA),
      g\<lparr>gd_flushed := gd_flushed g @ [(rect, r)]\<rparr>)"
  by (simp add: gpu_effect_def request_bytes_defs field32_header gpu_commands Let_def)
    (auto simp: field32_def of_le_bytes_exact Rect_roundtrip)

section \<open>Requests\<close>

lemma on_gpu_eq:
  "on_control m (g, w) = (case m (control_queue g, w) of (r, (q, w')) \<Rightarrow> (r, (g\<lparr>control_queue := q\<rparr>, w')))"
  "on_cursor m (g, w) = (case m (cursor_queue g, w) of (r, (q, w')) \<Rightarrow> (r, (g\<lparr>cursor_queue := q\<rparr>, w')))"
  "on_gpu_io n (g, w) = (case n w of (r, w') \<Rightarrow> (r, (g, w')))"
  by (simp_all add: on_control_def on_cursor_def on_gpu_io_def zoom_def split: prod.splits)

text \<open>
  A request on an idle queue to a device that serves it: the response is the device's, its state
  is the one after the command, and the queue is idle again. On an idle queue any request whose
  structures fit into the frame can be sent.
\<close>

lemma contiguous_le: "contiguous P a n \<Longrightarrow> m \<le> n \<Longrightarrow> contiguous P a m"
  by (auto simp: contiguous_def)

lemma phys_le: "m \<le> n \<Longrightarrow> phys P a m \<subseteq> phys P a n"
  by (auto simp: phys_def)

lemma gpu_request_memory:
  assumes ok: "gpu_frame_ok P fr" and len: "length req \<le> 56" "length rsp \<le> 48"
  shows "phys_bytes (store_bytes P (gf_rsp fr) rsp (store_bytes P (gf_req fr) req m))
    (to_paddr (hal P) (gf_req fr)) (length req) = req"
proof -
  have c: "contiguous P (gf_req fr) (length req)"
    using ok len by (auto simp: gpu_frame_ok_def intro: contiguous_le)
  have "load_bytes P (gf_req fr) (length req)
      (store_bytes P (gf_rsp fr) rsp (store_bytes P (gf_req fr) req m)) =
    load_bytes P (gf_req fr) (length req) (store_bytes P (gf_req fr) req m)"
    using ok phys_le [OF len(1), of P "gf_req fr"] phys_le [OF len(2), of P "gf_rsp fr"]
    by (intro load_bytes_cong store_bytes_other) (auto simp: gpu_frame_ok_def)
  also have "\<dots> = req"
    using load_store_bytes contiguous_mapped [OF c] by blast
  finally show ?thesis
    by (simp add: contiguous_load [OF c])
qed

lemma write_phys_load:
  assumes "contiguous P a (length bs)"
  shows "load_bytes P a (length bs) (write_phys m (to_paddr (hal P) a) bs) = bs"
  using assms by (simp add: contiguous_load phys_bytes_write_phys) (simp add: contiguous_def phys_bytes_write_phys)

lemma gpu_request_served:
  assumes srv: "gpu_serves P T gd" and q: "quiet 2 (control_queue g)" and ok: "gpu_frame_ok P fr"
    and len: "length req \<le> 56" "length rsp \<le> 48"
    and eff: "gpu_effect req (gd (dev w)) = (bs, d)" and bs: "length bs = length rsp"
  shows "\<exists>q' w'. gpu_request P T fr req rsp (g, w) = (Ok bs, (g\<lparr>control_queue := q'\<rparr>, w')) \<and>
    quiet 2 q' \<and> gd (dev w') = d"
proof -
  let ?ds = "[Descriptor_new P (gf_req fr) (of_nat (length req)) NEXT,
    Descriptor_new P (gf_rsp fr) (of_nat (length rsp)) WRITE]"
  let ?w = "w\<lparr>mem := store_bytes P (gf_rsp fr) rsp (store_bytes P (gf_req fr) req (mem w))\<rparr>"
  have fl: "chain_flags ?ds" "length ?ds \<le> 2"
    by (simp_all add: chain_flags_def Descriptor_new_def NEXT_def WRITE_def)
  obtain tok q1 where add: "VirtIoQueue_add 2 ?ds (control_queue g) = (Ok tok, q1)"
    using quiet_add [OF q fl] by metis
  obtain w1 where w1: "t_notify T (queue_idx q1) ?w = (Ok (), w1)" "mem w1 = mem ?w"
    "gd (dev w1) = gd (dev ?w)"
    using srv unfolding gpu_serves_def by blast
  let ?t = "(q1, if should_notify q1 then w1 else ?w)"
  have sub: "submitted T 2 ?ds (control_queue g, ?w) tok ?t"
    using add w1(1) by (simp add: submitted_def)
  obtain k l where k: "device_serves P 2 ?t tok k l"
    "(mem (snd ((device_step P ^^ k) ?t)), gd (dev (snd ((device_step P ^^ k) ?t)))) =
      gpu_serve (map payload (chain_of 2 (table (fst ?t)) tok)) (mem (snd ?t), gd (dev (snd ?t)))"
    using srv q fl sub unfolding gpu_serves_def by blast
  let ?w2 = "snd ((device_step P ^^ k) ?t)"
  obtain q' where run: "VirtIoQueue_add_notify_wait_pop P T 2 ?ds (control_queue g, ?w) =
      (Ok l, (q', ?w2))" "quiet 2 q'"
    using add_notify_wait_pop_Ok [OF _ fl sub k(1)] q by auto
  have chain: "map payload (chain_of 2 (table (fst ?t)) tok) = map payload ?ds"
    using quiet_submit_chain [OF q fl add] by simp
  have st: "mem (snd ?t) = mem ?w" "gd (dev (snd ?t)) = gd (dev w)"
    using w1 by simp_all
  have un: "unat (of_nat (length req) :: u32) = length req"
    using len by (simp add: unat_of_nat)
  have "(mem ?w2, gd (dev ?w2)) = (write_phys (mem ?w) (to_paddr (hal P) (gf_rsp fr)) bs, d)"
    using k(2) eff unfolding chain st
    by (simp add: gpu_serve_def payload_def Descriptor_new_def un gpu_request_memory [OF ok len])
  then have res: "mem ?w2 = write_phys (mem ?w) (to_paddr (hal P) (gf_rsp fr)) bs" "gd (dev ?w2) = d"
    by simp_all
  have c: "contiguous P (gf_rsp fr) (length bs)"
    using ok len bs by (auto simp: gpu_frame_ok_def intro: contiguous_le)
  have "gpu_request P T fr req rsp (g, w) =
      (Ok (load_bytes P (gf_rsp fr) (length rsp) (mem ?w2)), (g\<lparr>control_queue := q'\<rparr>, ?w2))"
    using run(1) by (simp add: gpu_request_def andthen_def bind_def on_gpu_eq gpu_QUEUE_SIZE_def Let_def)
  then show ?thesis
    using run(2) res write_phys_load [OF c] bs by (intro exI [of _ q'] exI [of _ ?w2]) simp
qed

lemma header_command_served:
  assumes srv: "gpu_serves P T gd" and q: "quiet 2 (control_queue g)" and ok: "gpu_frame_ok P fr"
    and len: "length req \<le> 56"
    and eff: "gpu_effect req (gd (dev w)) = (CtrlHeader_bytes (CtrlHeader_with_type c), d)"
  shows "\<exists>q' w'. bind (gpu_request P T fr req (CtrlHeader_bytes CtrlHeader_default)) (\<lambda>rsp.
        CtrlHeader_check_type (CtrlHeader_of_bytes rsp) OK_NODATA) (g, w) =
      (if c = OK_NODATA then Ok () else Err IoError, (g\<lparr>control_queue := q'\<rparr>, w')) \<and>
    quiet 2 q' \<and> gd (dev w') = d"
proof -
  obtain q' w' where "gpu_request P T fr req (CtrlHeader_bytes CtrlHeader_default) (g, w) =
      (Ok (CtrlHeader_bytes (CtrlHeader_with_type c)), (g\<lparr>control_queue := q'\<rparr>, w'))"
    "quiet 2 q'" "gd (dev w') = d"
    using gpu_request_served [OF srv q ok len _ eff, of "CtrlHeader_bytes CtrlHeader_default"] by auto
  then show ?thesis
    by (intro exI [of _ q'] exI [of _ w']) (simp add: bind_def CtrlHeader_roundtrip
        CtrlHeader_check_type_def, simp add: CtrlHeader_with_type_def)
qed

lemma request_lengths:
  "length (ResourceCreate2D_bytes h r f x y) \<le> 56" "length (SetScanout_bytes h rect s r) \<le> 56"
  "length (ResourceFlush_bytes h rect r p) \<le> 56" "length (TransferToHost2D_bytes h rect off r p) \<le> 56"
  "length (ResourceAttachBacking_bytes h r n a len p) \<le> 56"
  by (simp_all add: request_bytes_defs)

lemma resource_create_2d_served:
  assumes "gpu_serves P T gd" and "quiet 2 (control_queue g)" and "\<forall>c. gpu_frame_ok P (fr c)"
  shows "\<exists>q' w'. resource_create_2d P T fr r x y (g, w) = (Ok (), (g\<lparr>control_queue := q'\<rparr>, w')) \<and>
    quiet 2 q' \<and> gd (dev w') = (gd (dev w))\<lparr>gd_resources := (gd_resources (gd (dev w)))(r \<mapsto> (x, y))\<rparr>"
  using header_command_served [OF assms(1,2) assms(3) [rule_format] request_lengths(1) gpu_effect_create]
  by (simp add: resource_create_2d_def)

lemma resource_attach_backing_served:
  assumes "gpu_serves P T gd" and "quiet 2 (control_queue g)" and "\<forall>c. gpu_frame_ok P (fr c)"
    and "gd_resources (gd (dev w)) r \<noteq> None"
  shows "\<exists>q' w'. resource_attach_backing P T fr r a len (g, w) = (Ok (), (g\<lparr>control_queue := q'\<rparr>, w')) \<and>
    quiet 2 q' \<and> gd (dev w') = (gd (dev w))\<lparr>gd_backing := (gd_backing (gd (dev w)))(r \<mapsto> (a, len))\<rparr>"
  using header_command_served [OF assms(1,2) assms(3) [rule_format] request_lengths(5) gpu_effect_attach [OF assms(4)]]
  by (simp add: resource_attach_backing_def)

lemma set_scanout_served:
  assumes "gpu_serves P T gd" and "quiet 2 (control_queue g)" and "\<forall>c. gpu_frame_ok P (fr c)"
    and "gd_resources (gd (dev w)) r \<noteq> None"
  shows "\<exists>q' w'. set_scanout P T fr rect s r (g, w) = (Ok (), (g\<lparr>control_queue := q'\<rparr>, w')) \<and>
    quiet 2 q' \<and> gd (dev w') = (gd (dev w))\<lparr>gd_scanouts := (gd_scanouts (gd (dev w)))(s \<mapsto> (rect, r))\<rparr>"
  using header_command_served [OF assms(1,2) assms(3) [rule_format] request_lengths(2) gpu_effect_scanout [OF assms(4)]]
  by (simp add: set_scanout_def)

lemma transfer_to_host_2d_served:
  assumes "gpu_serves P T gd" and "quiet 2 (control_queue g)" and "\<forall>c. gpu_frame_ok P (fr c)"
    and "gd_backing (gd (dev w)) r \<noteq> None"
  shows "\<exists>q' w'. transfer_to_host_2d P T fr rect off r (g, w) = (Ok (), (g\<lparr>control_queue := q'\<rparr>, w')) \<and>
    quiet 2 q' \<and> gd (dev w') = (gd (dev w))\<lparr>gd_transferred := gd_transferred (gd (dev w)) @ [(rect, r)]\<rparr>"
  using header_command_served [OF assms(1,2) assms(3) [rule_format] request_lengths(4) gpu_effect_transfer [OF assms(4)]]
  by (simp add: transfer_to_host_2d_def)

lemma transfer_to_host_2d_refused:
  assumes "gpu_serves P T gd" and "quiet 2 (control_queue g)" and "\<forall>c. gpu_frame_ok P (fr c)"
    and "gd_backing (gd (dev w)) r = None"
  shows "\<exists>q' w'. transfer_to_host_2d P T fr rect off r (g, w) = (Err IoError, (g\<lparr>control_queue := q'\<rparr>, w')) \<and>
    quiet 2 q' \<and> gd (dev w') = gd (dev w)"
proof -
  have "gpu_effect (TransferToHost2D_bytes (CtrlHeader_with_type TRANSFER_TO_HOST_2D) rect off r 0)
      (gd (dev w)) = (CtrlHeader_bytes (CtrlHeader_with_type 0x1200), gd (dev w))"
    using assms(4)
    by (simp add: gpu_effect_def request_bytes_defs field32_header gpu_commands Let_def)
      (simp add: field32_def of_le_bytes_exact)
  then show ?thesis
    using header_command_served [OF assms(1,2) assms(3) [rule_format] request_lengths(4)]
    by (fastforce simp: transfer_to_host_2d_def OK_NODATA_def)
qed

lemma resource_flush_served:
  assumes "gpu_serves P T gd" and "quiet 2 (control_queue g)" and "\<forall>c. gpu_frame_ok P (fr c)"
    and "gd_resources (gd (dev w)) r \<noteq> None"
  shows "\<exists>q' w'. resource_flush P T fr rect r (g, w) = (Ok (), (g\<lparr>control_queue := q'\<rparr>, w')) \<and>
    quiet 2 q' \<and> gd (dev w') = (gd (dev w))\<lparr>gd_flushed := gd_flushed (gd (dev w)) @ [(rect, r)]\<rparr>"
  using header_command_served [OF assms(1,2) assms(3) [rule_format] request_lengths(3) gpu_effect_flush [OF assms(4)]]
  by (simp add: resource_flush_def)

lemma get_display_info_served:
  assumes "gpu_serves P T gd" and "quiet 2 (control_queue g)" and "\<forall>c. gpu_frame_ok P (fr c)"
  shows "\<exists>q' w' info. get_display_info P T fr (g, w) = (Ok info, (g\<lparr>control_queue := q'\<rparr>, w')) \<and>
    di_rect info = gd_display (gd (dev w)) \<and> quiet 2 q' \<and> gd (dev w') = gd (dev w)"
proof -
  let ?info = "\<lparr>di_header = CtrlHeader_with_type OK_DISPLAY_INFO, di_rect = gd_display (gd (dev w)),
    di_enabled = 1, di_flags = 0\<rparr>"
  obtain q' w' where "gpu_request P T (fr GET_DISPLAY_INFO)
      (CtrlHeader_bytes (CtrlHeader_with_type GET_DISPLAY_INFO))
      (RespDisplayInfo_bytes RespDisplayInfo_default) (g, w) =
      (Ok (RespDisplayInfo_bytes ?info), (g\<lparr>control_queue := q'\<rparr>, w'))"
    "quiet 2 q'" "gd (dev w') = gd (dev w)"
    using gpu_request_served [OF assms(1,2) spec [OF assms(3), of GET_DISPLAY_INFO] _ _
        gpu_effect_get_display_info, where w = w and rsp = "RespDisplayInfo_bytes RespDisplayInfo_default"]
    by auto
  then have "get_display_info P T fr (g, w) = (Ok ?info, (g\<lparr>control_queue := q'\<rparr>, w'))"
    by (simp add: get_display_info_def bind_def RespDisplayInfo_roundtrip CtrlHeader_check_type_def
        andthen_def) (simp add: CtrlHeader_with_type_def)
  then show ?thesis
    using \<open>quiet 2 q'\<close> \<open>gd (dev w') = gd (dev w)\<close>
    by (intro exI [of _ q'] exI [of _ w'] exI [of _ ?info]) simp
qed

section \<open>Composed operations\<close>

lemma alloc_buf_keeps:
  assumes "gpu_serves P T gd"
  shows "\<exists>page d w'. hal_dma_alloc_buf P n w = (Ok page, w') \<and> page = fst (dma_alloc_buf (hal P) n d) \<and>
    gd (dev w') = gd (dev w)"
  using assms unfolding gpu_serves_def
  by (cases "dma_alloc_buf (hal P) n (dev w)") (auto simp: hal_dma_alloc_buf_def, metis fst_conv, metis snd_conv)

lemma unat_area:
  fixes x y :: u32
  assumes "unat x * unat y * 4 < 2 ^ 32"
  shows "unat (x * y * 4) = unat x * unat y * 4"
  using assms by (simp add: unat_word_ariths)

lemma area_ov:
  fixes x y :: u32
  shows "bind (mul_ov dbg x y) (\<lambda>a. bind (mul_ov dbg a 4) f) =
    (if dbg \<and> \<not> unat x * unat y * 4 < 2 ^ 32 then panic else f (x * y * 4))"
proof (cases "unat x * unat y < 2 ^ 32")
  case True
  then have "unat (x * y) = unat x * unat y"
    by (simp add: unat_word_ariths)
  then show ?thesis
    using True by (simp add: mul_ov_def panic_def fun_eq_iff)
qed (simp add: mul_ov_def panic_def fun_eq_iff)

lemma area_fits:
  fixes x y :: u32
  assumes "dbg \<Longrightarrow> unat x * unat y * 4 < 2 ^ 32"
  shows "bind (mul_ov dbg x y) (\<lambda>a. bind (mul_ov dbg a 4) f) = f (x * y * 4)"
  using assms by (auto simp: area_ov)

lemma framebuffer_start:
  assumes srv: "gpu_serves P T gd" and q: "quiet 2 (control_queue g)" and fr: "\<forall>c. gpu_frame_ok P (fr c)"
    and r_def: "r = gd_display (gd (dev w))"
  shows "\<exists>q' w'. setup_framebuffer P T fr (g, w) =
      bind (mul_ov (debug P) (rect_width r) (rect_height r)) (\<lambda>area.
      bind (mul_ov (debug P) area 4) (\<lambda>sz.
      bind (on_gpu_io (hal_dma_alloc_buf P (pages (ucast sz)))) (\<lambda>frame_buffer.
      andthen (resource_attach_backing P T fr RESOURCE_ID_FB (pg_paddr frame_buffer) sz)
      (andthen (set_scanout P T fr r SCANOUT_ID RESOURCE_ID_FB)
      (andthen (modify (\<lambda>(g, w). (g\<lparr>frame_buffer_dma := Some frame_buffer\<rparr>, w)))
      (ret (pg_vaddr frame_buffer, pg_len frame_buffer)))))))
        (g\<lparr>gpu_rect := Some r, control_queue := q'\<rparr>, w') \<and> quiet 2 q' \<and>
    gd (dev w') = (gd (dev w))\<lparr>gd_resources :=
      (gd_resources (gd (dev w)))(RESOURCE_ID_FB \<mapsto> (rect_width r, rect_height r))\<rparr>"
proof -
  obtain q1 w1 info where i: "get_display_info P T fr (g, w) = (Ok info, (g\<lparr>control_queue := q1\<rparr>, w1))"
    "di_rect info = r" "quiet 2 q1" "gd (dev w1) = gd (dev w)"
    using get_display_info_served [OF srv q fr] r_def by blast
  let ?g = "g\<lparr>control_queue := q1, gpu_rect := Some r\<rparr>"
  obtain q2 w2 where c: "resource_create_2d P T fr RESOURCE_ID_FB (rect_width r) (rect_height r) (?g, w1) =
      (Ok (), (?g\<lparr>control_queue := q2\<rparr>, w2))" "quiet 2 q2"
    "gd (dev w2) = (gd (dev w1))\<lparr>gd_resources :=
      (gd_resources (gd (dev w1)))(RESOURCE_ID_FB \<mapsto> (rect_width r, rect_height r))\<rparr>"
    using resource_create_2d_served [OF srv _ fr, of ?g] i(3) by fastforce
  show ?thesis
    using i c
    by (intro exI [of _ q2] exI [of _ w2])
      (simp add: setup_framebuffer_def Let_def andthen_def bind_modify
        bind_Ok [where m = "get_display_info P T fr", OF i(1)]
        bind_Ok [where m = "resource_create_2d P T fr RESOURCE_ID_FB (rect_width r) (rect_height r)", OF c(1)])
qed

lemma setup_framebuffer_run:
  assumes srv: "gpu_serves P T gd" and q: "quiet 2 (control_queue g)" and fr: "\<forall>c. gpu_frame_ok P (fr c)"
    and r: "r = gd_display (gd (dev w))" and sz: "sz = rect_width r * rect_height r * 4"
    and fit: "debug P \<Longrightarrow> unat (rect_width r) * unat (rect_height r) * 4 < 2 ^ 32"
  shows "\<exists>q' w' page d. setup_framebuffer P T fr (g, w) = (Ok (pg_vaddr page, pg_len page),
      (g\<lparr>gpu_rect := Some r, control_queue := q', frame_buffer_dma := Some page\<rparr>, w')) \<and>
    quiet 2 q' \<and> page = fst (dma_alloc_buf (hal P) (pages (ucast sz)) d) \<and>
    gd (dev w') = with_framebuffer (pg_paddr page) sz (gd (dev w))"
proof -
  let ?d = "(gd (dev w))\<lparr>gd_resources :=
    (gd_resources (gd (dev w)))(RESOURCE_ID_FB \<mapsto> (rect_width r, rect_height r))\<rparr>"
  let ?rest = "\<lambda>sz. bind (on_gpu_io (hal_dma_alloc_buf P (pages (ucast sz)))) (\<lambda>frame_buffer.
      andthen (resource_attach_backing P T fr RESOURCE_ID_FB (pg_paddr frame_buffer) sz)
      (andthen (set_scanout P T fr r SCANOUT_ID RESOURCE_ID_FB)
      (andthen (modify (\<lambda>(g, w). (g\<lparr>frame_buffer_dma := Some frame_buffer\<rparr>, w)))
      (ret (pg_vaddr frame_buffer, pg_len frame_buffer)))))"
  obtain q1 w1 where start: "setup_framebuffer P T fr (g, w) =
      bind (mul_ov (debug P) (rect_width r) (rect_height r)) (\<lambda>area.
      bind (mul_ov (debug P) area 4) ?rest) (g\<lparr>gpu_rect := Some r, control_queue := q1\<rparr>, w1)"
    "quiet 2 q1" "gd (dev w1) = ?d"
    using framebuffer_start [OF srv q fr r] by blast
  have "bind (mul_ov (debug P) (rect_width r) (rect_height r)) (\<lambda>area. bind (mul_ov (debug P) area 4) ?rest) =
      ?rest sz"
    using area_fits [of "debug P" "rect_width r" "rect_height r" ?rest] fit sz by simp
  obtain page d w2 where a: "hal_dma_alloc_buf P (pages (ucast sz)) w1 = (Ok page, w2)"
    "page = fst (dma_alloc_buf (hal P) (pages (ucast sz)) d)" "gd (dev w2) = gd (dev w1)"
    using alloc_buf_keeps [OF srv] by blast
  let ?g = "g\<lparr>gpu_rect := Some r, control_queue := q1\<rparr>"
  obtain q2 w3 where b: "resource_attach_backing P T fr RESOURCE_ID_FB (pg_paddr page) sz (?g, w2) =
      (Ok (), (?g\<lparr>control_queue := q2\<rparr>, w3))" "quiet 2 q2"
    "gd (dev w3) = (gd (dev w2))\<lparr>gd_backing := (gd_backing (gd (dev w2)))(RESOURCE_ID_FB \<mapsto> (pg_paddr page, sz))\<rparr>"
    using resource_attach_backing_served [OF srv _ fr, of ?g w2 RESOURCE_ID_FB "pg_paddr page" sz]
      start(2,3) a(3) by (auto simp: RESOURCE_ID_FB_def)
  let ?g2 = "?g\<lparr>control_queue := q2\<rparr>"
  obtain q3 w4 where c: "set_scanout P T fr r SCANOUT_ID RESOURCE_ID_FB (?g2, w3) =
      (Ok (), (?g2\<lparr>control_queue := q3\<rparr>, w4))" "quiet 2 q3"
    "gd (dev w4) = (gd (dev w3))\<lparr>gd_scanouts := (gd_scanouts (gd (dev w3)))(SCANOUT_ID \<mapsto> (r, RESOURCE_ID_FB))\<rparr>"
    using set_scanout_served [OF srv _ fr, of ?g2 w3 RESOURCE_ID_FB r SCANOUT_ID] b(2,3) start(3) a(3)
    by (auto simp: RESOURCE_ID_FB_def)
  have "?rest sz (?g, w1) = (Ok (pg_vaddr page, pg_len page),
      (g\<lparr>gpu_rect := Some r, control_queue := q3, frame_buffer_dma := Some page\<rparr>, w4))"
    using a(1) b(1) c(1) by (simp add: bind_def andthen_def on_gpu_eq)
  moreover have "gd (dev w4) = with_framebuffer (pg_paddr page) sz (gd (dev w))"
    using start(3) a(3) b(3) c(3) r
    by (simp add: with_framebuffer_def RESOURCE_ID_FB_def SCANOUT_ID_def)
  ultimately show ?thesis
    using start(1) \<open>bind _ _ = ?rest sz\<close> c(2) a(2) by auto
qed

lemma setup_framebuffer_panics:
  assumes srv: "gpu_serves P T gd" and q: "quiet 2 (control_queue g)" and fr: "\<forall>c. gpu_frame_ok P (fr c)"
    and r: "r = gd_display (gd (dev w))" and dbg: "debug P"
    and big: "\<not> unat (rect_width r) * unat (rect_height r) * 4 < 2 ^ 32"
  shows "fst (setup_framebuffer P T fr (g, w)) = Panic"
  using framebuffer_start [OF srv q fr r] dbg big by (auto simp: area_ov)

lemma flush_run:
  assumes srv: "gpu_serves P T gd" and q: "quiet 2 (control_queue g)" and fr: "\<forall>c. gpu_frame_ok P (fr c)"
    and rect: "gpu_rect g = Some r"
    and dev: "gd_backing (gd (dev w)) RESOURCE_ID_FB \<noteq> None" "gd_resources (gd (dev w)) RESOURCE_ID_FB \<noteq> None"
  shows "\<exists>q' w'. VirtIOGpu_flush P T fr (g, w) = (Ok (), (g\<lparr>control_queue := q'\<rparr>, w')) \<and> quiet 2 q' \<and>
    gd (dev w') = (gd (dev w))\<lparr>gd_transferred := gd_transferred (gd (dev w)) @ [(r, RESOURCE_ID_FB)],
      gd_flushed := gd_flushed (gd (dev w)) @ [(r, RESOURCE_ID_FB)]\<rparr>"
proof -
  obtain q1 w1 where t: "transfer_to_host_2d P T fr r 0 RESOURCE_ID_FB (g, w) = (Ok (), (g\<lparr>control_queue := q1\<rparr>, w1))"
    "quiet 2 q1"
    "gd (dev w1) = (gd (dev w))\<lparr>gd_transferred := gd_transferred (gd (dev w)) @ [(r, RESOURCE_ID_FB)]\<rparr>"
    using transfer_to_host_2d_served [OF srv q fr dev(1)] by blast
  let ?g = "g\<lparr>control_queue := q1\<rparr>"
  obtain q2 w2 where f: "resource_flush P T fr r RESOURCE_ID_FB (?g, w1) = (Ok (), (?g\<lparr>control_queue := q2\<rparr>, w2))"
    "quiet 2 q2" "gd (dev w2) = (gd (dev w1))\<lparr>gd_flushed := gd_flushed (gd (dev w1)) @ [(r, RESOURCE_ID_FB)]\<rparr>"
    using resource_flush_served [OF srv _ fr, of ?g w1 RESOURCE_ID_FB r] t(2,3) dev(2) by auto
  then show ?thesis
    using t rect
    by (intro exI [of _ q2] exI [of _ w2]) (simp add: VirtIOGpu_flush_def bind_def andthen_def)
qed

lemma flush_refused:
  assumes srv: "gpu_serves P T gd" and q: "quiet 2 (control_queue g)" and fr: "\<forall>c. gpu_frame_ok P (fr c)"
    and rect: "gpu_rect g = Some r" and dev: "gd_backing (gd (dev w)) RESOURCE_ID_FB = None"
  shows "\<exists>q' w'. VirtIOGpu_flush P T fr (g, w) = (Err IoError, (g\<lparr>control_queue := q'\<rparr>, w')) \<and> quiet 2 q' \<and>
    gd (dev w') = gd (dev w)"
  using transfer_to_host_2d_refused [OF srv q fr dev, of r 0] rect
  by (auto simp: VirtIOGpu_flush_def bind_def andthen_def)

lemma flush_not_ready: "gpu_rect g = None \<Longrightarrow> VirtIOGpu_flush P T fr (g, w) = (Err NotReady, (g, w))"
  by (simp add: VirtIOGpu_flush_def bind_def)

end
