(* ===== verification/GpuProps.thy ===== *)
theory GpuProps
  imports GpuDevice
begin

text \<open>
  The properties of the graphics driver over the MMIO transport, against a device that serves
  every request as the specification prescribes.
\<close>

section \<open>Instances for the witnesses\<close>

abbreviation gpu_platform :: "gpu_dev platform" where
  "gpu_platform \<equiv> sample_st sample_regs 24 gpu_serve"

definition sample_gpu_frame :: "u32 \<Rightarrow> gpu_frame" where
  "sample_gpu_frame c = \<lparr>gf_req = 0x7000, gf_rsp = 0x8000\<rparr>"

definition sample_gpu :: virtio_gpu where
  "sample_gpu = \<lparr>gpu_rect = None, frame_buffer_dma = None, cursor_buffer_dma = None,
     control_queue = fresh_queue 2 0, cursor_queue = fresh_queue 2 1\<rparr>"

definition gpu_world :: "u32 \<Rightarrow> u32 \<Rightarrow> gpu_dev world" where
  "gpu_world width height = \<lparr>dev = \<lparr>
     gd_display = \<lparr>rect_x = 0, rect_y = 0, rect_width = width, rect_height = height\<rparr>,
     gd_resources = Map.empty, gd_backing = Map.empty, gd_scanouts = Map.empty,
     gd_transferred = [], gd_flushed = []\<rparr>, mem = (\<lambda>_. 0), trace = []\<rparr>"

lemma sample_gpu_serves: "gpu_serves gpu_platform (mmio_transport gpu_platform Modern) (\<lambda>d. d)"
proof -
  have srv: "\<exists>k len. device_serves gpu_platform 2 t tok k len \<and>
      (mem (snd ((device_step gpu_platform ^^ k) t)), dev (snd ((device_step gpu_platform ^^ k) t))) =
        gpu_serve (map payload (chain_of 2 (table (fst t)) tok)) (mem (snd t), dev (snd t))"
    if "quiet 2 q" "chain_flags ds" "length ds \<le> 2"
      "submitted (mmio_transport gpu_platform Modern) 2 ds (q, w) tok t" for q w ds tok t
    using sample_serves [where s = "(q, w)", OF _ that(2,3,4)] that(1) by (metis fst_conv)
  show ?thesis
    unfolding gpu_serves_def
    by (intro conjI allI impI srv)
      (auto simp: mmio_transport_def mmio_defs volatile_defs sample_st_def sample_hal_def
        io_write_u32_def sample_io_def)
qed

lemma sample_gpu_quiet [simp]: "quiet 2 (control_queue sample_gpu)"
  using fresh_quiet_sizes(1) by (simp add: sample_gpu_def)

lemma sample_gpu_frame_ok: "\<forall>c. gpu_frame_ok gpu_platform (sample_gpu_frame c)"
  by (simp add: gpu_frame_ok_def sample_gpu_frame_def contiguous_sample sample_phys_disjoint)

section \<open>The frame buffer\<close>



text \<open>
  When the size of the display in bytes does not fit in 32 bits, \<^verbatim>\<open>setup_framebuffer\<close> panics in
  builds with overflow checks. In other builds it succeeds with a buffer, and a backing, smaller
  than the resource they are to hold.
\<close>

theorem framebuffer_overflow:
  assumes "gpu_serves P (mmio_transport P ver) gd" and "quiet 2 (control_queue g)"
    and "\<forall>c. gpu_frame_ok P (fr c)" and "r = gd_display (gd (dev w))"
    and "2 ^ 32 \<le> unat (rect_width r) * unat (rect_height r) * 4"
  shows "if debug P then fst (setup_framebuffer P (mmio_transport P ver) fr (g, w)) = Panic
    else \<exists>g' w' page d sz. setup_framebuffer P (mmio_transport P ver) fr (g, w) =
        (Ok (pg_vaddr page, pg_len page), (g', w')) \<and>
      page = fst (dma_alloc_buf (hal P) (pages (ucast sz)) d) \<and>
      gd_backing (gd (dev w')) RESOURCE_ID_FB = Some (pg_paddr page, sz) \<and>
      gd_resources (gd (dev w')) RESOURCE_ID_FB = Some (rect_width r, rect_height r) \<and>
      unat sz < unat (rect_width r) * unat (rect_height r) * 4"
proof (cases "debug P")
  case True
  then show ?thesis
    using setup_framebuffer_panics [OF assms(1-4) True] assms(5) by simp
next
  case False
  let ?sz = "rect_width r * rect_height r * 4"
  have "unat ?sz < unat (rect_width r) * unat (rect_height r) * 4"
    using unsigned_less [where 'a = nat and w = ?sz] assms(5)
    by (intro order.strict_trans2 [OF _ assms(5)]) simp
  moreover have "gd_backing (with_framebuffer a ?sz (gd (dev w))) RESOURCE_ID_FB = Some (a, ?sz)"
    "gd_resources (with_framebuffer a ?sz (gd (dev w))) RESOURCE_ID_FB =
       Some (rect_width r, rect_height r)" for a
    using assms(4) by (simp_all add: with_framebuffer_def RESOURCE_ID_FB_def)
  moreover have "debug P \<Longrightarrow> unat (rect_width r) * unat (rect_height r) * 4 < 2 ^ 32"
    using False by simp
  ultimately show ?thesis
    using setup_framebuffer_run [OF assms(1-4) refl] False by fastforce
qed

theorem framebuffer_overflow_witness:
  "\<exists>g' w' (page :: device_page). setup_framebuffer gpu_platform (mmio_transport gpu_platform Modern) sample_gpu_frame
       (sample_gpu, gpu_world 0x10000 0x8000) = (Ok (pg_vaddr page, pg_len page), (g', w')) \<and>
     gd_resources (dev w') RESOURCE_ID_FB = Some (0x10000, 0x8000)"
proof -
  let ?w = "gpu_world 0x10000 0x8000" and ?r = "gd_display (dev (gpu_world 0x10000 0x8000))"
  have big: "2 ^ 32 \<le> unat (rect_width ?r) * unat (rect_height ?r) * 4"
    and r: "rect_width ?r = 0x10000" "rect_height ?r = 0x8000"
    by (simp_all add: gpu_world_def)
  show ?thesis
    using framebuffer_overflow [OF sample_gpu_serves sample_gpu_quiet sample_gpu_frame_ok refl big]
    unfolding sample_simps if_False r by blast
qed

section \<open>Flushing\<close>



end
