(* ===== verification/PciBus.thy ===== *)
theory PciBus
  imports Hal
begin

text \<open>
  The PCI bus, \<^verbatim>\<open>transport/pci/bus.rs\<close>: configuration space accesses, capability lists, base
  address registers and the enumeration of a bus. The configuration space is the register
  region of a platform, given as \<open>mmio_region\<close>. Accesses that the code unwraps panic on an
  error of the region.
\<close>

section \<open>Constants and flags\<close>

definition INVALID_READ :: u32 where "INVALID_READ = 0xffffffff"
definition MAX_DEVICES :: u8 where "MAX_DEVICES = 32"
definition MAX_FUNCTIONS :: u8 where "MAX_FUNCTIONS = 8"
definition STATUS_COMMAND_OFFSET :: u8 where "STATUS_COMMAND_OFFSET = 0x04"
definition BAR0_OFFSET :: u8 where "BAR0_OFFSET = 0x10"
definition PCI_CAP_ID_VNDR :: u8 where "PCI_CAP_ID_VNDR = 0x09"

text \<open>The unions of the declared flags, which \<^verbatim>\<open>from_bits_truncate\<close> masks with.\<close>

definition Status_CAPABILITIES_LIST :: u16 where "Status_CAPABILITIES_LIST = push_bit 4 1"

definition Status_all :: u16 where
  "Status_all = foldr (\<lambda>i a. or (push_bit i 1) a) [3, 4, 5, 7, 8, 11, 12, 13, 14, 15] 0"

definition Command_all :: u16 where
  "Command_all = foldr (\<lambda>i a. or (push_bit i 1) a) [0, 1, 2, 3, 4, 5, 6, 8, 9, 10] 0"

datatype pci_error = InvalidBarType

section \<open>Data\<close>

datatype cam = MmioCam | Ecam

fun Cam_size :: "cam \<Rightarrow> u32" where
  "Cam_size MmioCam = 0x1000000"
| "Cam_size Ecam = 0x10000000"

record 'd pci_root =
  mmio_region :: "'d platform"
  root_cam :: cam

record device_function =
  df_bus :: u8
  df_device :: u8
  df_function :: u8

definition DeviceFunction_valid :: "device_function \<Rightarrow> bool" where
  "DeviceFunction_valid f \<longleftrightarrow> df_device f < 32 \<and> df_function f < 8"

datatype memory_bar_type = Width32 | Below1MiB | Width64

fun u8_from_MemoryBarType :: "memory_bar_type \<Rightarrow> u8" where
  "u8_from_MemoryBarType Width32 = 0"
| "u8_from_MemoryBarType Below1MiB = 1"
| "u8_from_MemoryBarType Width64 = 2"

definition MemoryBarType_try_from :: "u8 \<Rightarrow> pci_error + memory_bar_type" where
  "MemoryBarType_try_from v =
     (if v = 0 then Inr Width32
      else if v = 1 then Inr Below1MiB
      else if v = 2 then Inr Width64
      else Inl InvalidBarType)"

datatype bar_info =
    MemoryBar (address_type: memory_bar_type) (prefetchable: bool) (mem_address: u64) (mem_size: u32)
  | IOBar (io_address: u32) (io_size: u32)

fun takes_two_entries :: "bar_info \<Rightarrow> bool" where
  "takes_two_entries (MemoryBar ty p a s) \<longleftrightarrow> ty = Width64"
| "takes_two_entries (IOBar a s) \<longleftrightarrow> False"

fun memory_address_size :: "bar_info \<Rightarrow> (u64 \<times> u32) option" where
  "memory_address_size (MemoryBar ty p a s) = Some (a, s)"
| "memory_address_size (IOBar a s) = None"

record capability_info =
  cap_offset :: u8
  cap_id :: u8
  private_header :: u16

datatype header_type = Standard | PciPciBridge | PciCardbusBridge | Unrecognised u8

definition HeaderType_from :: "u8 \<Rightarrow> header_type" where
  "HeaderType_from v =
     (if v = 0 then Standard
      else if v = 1 then PciPciBridge
      else if v = 2 then PciCardbusBridge
      else Unrecognised v)"

record device_function_info =
  vendor_id :: u16
  device_id :: u16
  dev_class :: u8
  sub_class :: u8
  prog_if :: u8
  revision :: u8
  header_type :: header_type

section \<open>Configuration space\<close>

type_synonym ('d, 'e, 'a) pprog = "('d world, 'e, 'a) prog"

definition PciRoot_new :: "'d platform \<Rightarrow> cam \<Rightarrow> ('d, 'e, 'd pci_root) pprog" where
  "PciRoot_new P c =
     andthen (assert_that (and (io_paddr (io P)) 3 = 0))
     (ret \<lparr>mmio_region = P, root_cam = c\<rparr>)"

definition cam_offset :: "'d pci_root \<Rightarrow> device_function \<Rightarrow> u8 \<Rightarrow> ('d, 'e, u32) pprog" where
  "cam_offset r f register_offset =
     andthen (assert_that (DeviceFunction_valid f))
     (let bdf = or (or (push_bit 8 (ucast (df_bus f))) (push_bit 3 (ucast (df_device f))))
                  (ucast (df_function f));
          address = or (push_bit (case root_cam r of MmioCam \<Rightarrow> 8 | Ecam \<Rightarrow> 12) bdf)
                      (ucast register_offset)
      in andthen (assert_that (address < Cam_size (root_cam r)))
         (andthen (assert_that (and address 3 = 0)) (ret address)))"

definition config_read_word :: "'d pci_root \<Rightarrow> device_function \<Rightarrow> u8 \<Rightarrow> ('d, 'e, u32) pprog" where
  "config_read_word r f register_offset =
     bind (cam_offset r f register_offset) (\<lambda>address.
     unwrap (io_read_u32 (mmio_region r) (ucast address)))"

definition config_write_word ::
  "'d pci_root \<Rightarrow> device_function \<Rightarrow> u8 \<Rightarrow> u32 \<Rightarrow> ('d, 'e, unit) pprog" where
  "config_write_word r f register_offset data =
     bind (cam_offset r f register_offset) (\<lambda>address.
     unwrap (io_write_u32 (mmio_region r) (ucast address) data))"

definition get_status_command :: "'d pci_root \<Rightarrow> device_function \<Rightarrow> ('d, 'e, u16 \<times> u16) pprog" where
  "get_status_command r f =
     bind (config_read_word r f STATUS_COMMAND_OFFSET) (\<lambda>status_command.
     ret (and (ucast (drop_bit 16 status_command)) Status_all,
          and (ucast status_command) Command_all))"

definition set_command :: "'d pci_root \<Rightarrow> device_function \<Rightarrow> u16 \<Rightarrow> ('d, 'e, unit) pprog" where
  "set_command r f command = config_write_word r f STATUS_COMMAND_OFFSET (ucast command)"

section \<open>Base address registers\<close>

definition bar_offset :: "'d pci_root \<Rightarrow> u8 \<Rightarrow> ('d, 'e, u8) pprog" where
  "bar_offset r i =
     bind (mul_ov (debug (mmio_region r)) 4 i) (\<lambda>x.
     add_ov (debug (mmio_region r)) BAR0_OFFSET x)"

definition bar_read :: "'d pci_root \<Rightarrow> device_function \<Rightarrow> u8 \<Rightarrow> ('d, 'e, u32) pprog" where
  "bar_read r f i = bind (bar_offset r i) (config_read_word r f)"

definition bar_write :: "'d pci_root \<Rightarrow> device_function \<Rightarrow> u8 \<Rightarrow> u32 \<Rightarrow> ('d, 'e, unit) pprog" where
  "bar_write r f i v = bind (bar_offset r i) (\<lambda>off. config_write_word r f off v)"

definition PciRoot_bar_info ::
  "'d pci_root \<Rightarrow> device_function \<Rightarrow> u8 \<Rightarrow> ('d, pci_error, bar_info) pprog" where
  "PciRoot_bar_info r f bar_index =
     bind (bar_read r f bar_index) (\<lambda>bar_orig.
     andthen (bar_write r f bar_index 0xffffffff)
     (bind (bar_read r f bar_index) (\<lambda>size_mask.
      let size = not (and size_mask 0xfffffff0) + 1
      in andthen (bar_write r f bar_index bar_orig)
         (if and bar_orig 1 = 1 then ret (IOBar (and bar_orig 0xfffffffc) size)
          else
            let address = ucast (and bar_orig 0xfffffff0);
                prefetch = and bar_orig 8 \<noteq> 0
            in (case MemoryBarType_try_from (ucast (drop_bit 1 (and bar_orig 6))) of
                  Inl e \<Rightarrow> throw e
                | Inr ty \<Rightarrow>
                    if ty = Width64 then
                      if bar_index \<ge> 5 then throw InvalidBarType
                      else
                        bind (add_ov (debug (mmio_region r)) bar_index 1) (\<lambda>upper.
                        bind (bar_read r f upper) (\<lambda>address_top.
                        ret (MemoryBar ty prefetch
                          (or address (push_bit 32 (ucast address_top))) size)))
                    else ret (MemoryBar ty prefetch address size))))))"

definition set_bar_32 :: "'d pci_root \<Rightarrow> device_function \<Rightarrow> u8 \<Rightarrow> u32 \<Rightarrow> ('d, 'e, unit) pprog" where
  "set_bar_32 r f bar_index address = bar_write r f bar_index address"

definition set_bar_64 :: "'d pci_root \<Rightarrow> device_function \<Rightarrow> u8 \<Rightarrow> u64 \<Rightarrow> ('d, 'e, unit) pprog" where
  "set_bar_64 r f bar_index address =
     andthen (bar_write r f bar_index (ucast address))
     (bind (add_ov (debug (mmio_region r)) bar_index 1) (\<lambda>upper.
      bar_write r f upper (ucast (drop_bit 32 address))))"

section \<open>Capabilities\<close>

record capability_iterator =
  ci_function :: device_function
  next_capability_offset :: "u8 option"

definition capabilities_offset :: "'d pci_root \<Rightarrow> device_function \<Rightarrow> ('d, 'e, u8 option) pprog" where
  "capabilities_offset r f =
     bind (get_status_command r f) (\<lambda>(status, command).
     if and status Status_CAPABILITIES_LIST = Status_CAPABILITIES_LIST then
       bind (config_read_word r f 0x34) (\<lambda>v. ret (Some (ucast (and v 0xFC))))
     else ret None)"

definition capabilities :: "'d pci_root \<Rightarrow> device_function \<Rightarrow> ('d, 'e, capability_iterator) pprog" where
  "capabilities r f =
     bind (capabilities_offset r f) (\<lambda>off.
     ret \<lparr>ci_function = f, next_capability_offset = off\<rparr>)"

text \<open>The offset that follows, from the header of a capability.\<close>

definition next_capability :: "u32 \<Rightarrow> u8 option" where
  "next_capability capability_header =
     (let next_offset = ucast (drop_bit 8 capability_header) :: u8
      in if next_offset = 0 then None
         else if next_offset < 64 \<or> and next_offset 3 \<noteq> 0 then None
         else Some next_offset)"

definition CapabilityIterator_next ::
  "'d pci_root \<Rightarrow> (capability_iterator \<times> 'd world, 'e, capability_info option) prog" where
  "CapabilityIterator_next r =
     bind (gets (\<lambda>(it, w). (ci_function it, next_capability_offset it))) (\<lambda>(f, next).
     (case next of
        None \<Rightarrow> ret None
      | Some offset \<Rightarrow>
          bind (zoom snd (\<lambda>w (it, _). (it, w)) (config_read_word r f offset)) (\<lambda>capability_header.
          andthen (modify (\<lambda>(it, w).
            (it\<lparr>next_capability_offset := next_capability capability_header\<rparr>, w)))
          (ret (Some \<lparr>cap_offset = offset, cap_id = ucast capability_header,
                      private_header = ucast (drop_bit 16 capability_header)\<rparr>)))))"

section \<open>Enumeration of a bus\<close>

definition enumerate_bus :: "u8 \<Rightarrow> device_function" where
  "enumerate_bus bus = \<lparr>df_bus = bus, df_device = 0, df_function = 0\<rparr>"

text \<open>
  The step to the next function. The iterator takes it only after it has read the header of a
  valid function, so that neither addition overflows.
\<close>

definition advance :: "device_function \<Rightarrow> device_function" where
  "advance f =
     (let f1 = f\<lparr>df_function := df_function f + 1\<rparr>
      in if df_function f1 \<ge> MAX_FUNCTIONS
         then f1\<lparr>df_function := 0, df_device := df_device f1 + 1\<rparr> else f1)"

definition read_function_info ::
  "'d pci_root \<Rightarrow> device_function \<Rightarrow> u32 \<Rightarrow> ('d, 'e, device_function_info) pprog" where
  "read_function_info r current device_vendor =
     bind (config_read_word r current 8) (\<lambda>class_revision.
     bind (config_read_word r current 12) (\<lambda>bist_type_latency_cache.
     ret \<lparr>vendor_id = ucast device_vendor, device_id = ucast (drop_bit 16 device_vendor),
          dev_class = ucast (drop_bit 24 class_revision),
          sub_class = ucast (drop_bit 16 class_revision),
          prog_if = ucast (drop_bit 8 class_revision), revision = ucast class_revision,
          header_type =
            HeaderType_from (and (ucast (drop_bit 16 bist_type_latency_cache)) 0x7f)\<rparr>))"

lemma config_read_word_valid: "config_read_word r f off w = (Ok v, w') \<Longrightarrow> DeviceFunction_valid f"
  by (auto simp: config_read_word_def cam_offset_def prog_Ok_iffs Let_def)

definition slots_left :: "device_function \<Rightarrow> nat" where
  "slots_left f = (32 - unat (df_device f)) * 8 + (8 - unat (df_function f))"

lemma advance_slots:
  assumes "DeviceFunction_valid f"
  shows "slots_left (advance f) < slots_left f"
proof -
  have d: "unat (df_device f) < 32" and n: "unat (df_function f) < 8"
    using assms by (simp_all add: DeviceFunction_valid_def word_less_nat_alt)
  then have "unat (df_device f + 1) = unat (df_device f) + 1"
    "unat (df_function f + 1) = unat (df_function f) + 1"
    by (simp_all add: unat_word_ariths)
  then show ?thesis
    using d n by (auto simp: advance_def slots_left_def Let_def MAX_FUNCTIONS_def word_le_nat_alt)
qed

function BusDeviceIterator_next ::
  "'d pci_root \<Rightarrow> device_function \<times> 'd world \<Rightarrow>
    ('e, (device_function \<times> device_function_info) option) outcome \<times> device_function \<times> 'd world" where
  "BusDeviceIterator_next r (next, w) =
     (if df_device next < MAX_DEVICES then
        (case config_read_word r next 0 w of
           (Ok device_vendor, w1) \<Rightarrow>
             if device_vendor \<noteq> INVALID_READ then
               zoom snd (\<lambda>w (n, _). (n, w))
                 (bind (read_function_info r next device_vendor) (\<lambda>info.
                  ret (Some (next, info)))) (advance next, w1)
             else BusDeviceIterator_next r (advance next, w1)
         | (Err e, w1) \<Rightarrow> (Err e, (next, w1))
         | (Panic, w1) \<Rightarrow> (Panic, (next, w1))
         | (Hang, w1) \<Rightarrow> (Hang, (next, w1)))
      else (Ok None, (next, w)))"
  by pat_completeness auto
termination
  by (relation "measure (\<lambda>(r, next, w). slots_left next)")
    (auto intro!: advance_slots config_read_word_valid [OF sym])

declare BusDeviceIterator_next.simps [simp del]

section \<open>Notions of the specification\<close>

text \<open>The address of a register in configuration space, as a number.\<close>

definition function_index :: "device_function \<Rightarrow> nat" where
  "function_index f = unat (df_bus f) * 256 + unat (df_device f) * 8 + unat (df_function f)"

definition config_address :: "cam \<Rightarrow> device_function \<Rightarrow> u8 \<Rightarrow> u32" where
  "config_address c f off =
     of_nat (function_index f * (case c of MmioCam \<Rightarrow> 256 | Ecam \<Rightarrow> 4096) + unat off)"

definition config_word :: "'d pci_root \<Rightarrow> (usize \<Rightarrow> u32) \<Rightarrow> device_function \<Rightarrow> u8 \<Rightarrow> u32" where
  "config_word r cfg f off = cfg (ucast (config_address (root_cam r) f off))"

text \<open>A configuration space that reads as \<open>cfg\<close> and does not change on reads.\<close>

definition config_stable :: "'d pci_root \<Rightarrow> (usize \<Rightarrow> u32) \<Rightarrow> 'd world \<Rightarrow> bool" where
  "config_stable r cfg w \<longleftrightarrow>
     (\<forall>a. read_volatile_u32_at (io (mmio_region r)) a (dev w) = (Inr (cfg a), dev w))"

text \<open>The functions of a bus, in order, and what a configuration space says of one.\<close>

definition slot :: "u8 \<Rightarrow> nat \<Rightarrow> device_function" where
  "slot bus k = \<lparr>df_bus = bus, df_device = of_nat (k div 8), df_function = of_nat (k mod 8)\<rparr>"

definition function_info :: "'d pci_root \<Rightarrow> (usize \<Rightarrow> u32) \<Rightarrow> device_function \<Rightarrow> device_function_info" where
  "function_info r cfg f =
     (let dv = config_word r cfg f 0; cr = config_word r cfg f 8; ht = config_word r cfg f 12
      in \<lparr>vendor_id = ucast dv, device_id = ucast (drop_bit 16 dv), dev_class = ucast (drop_bit 24 cr),
          sub_class = ucast (drop_bit 16 cr), prog_if = ucast (drop_bit 8 cr), revision = ucast cr,
          header_type = HeaderType_from (and (ucast (drop_bit 16 ht)) 0x7f)\<rparr>)"

definition function_present :: "'d pci_root \<Rightarrow> (usize \<Rightarrow> u32) \<Rightarrow> device_function \<Rightarrow> bool" where
  "function_present r cfg f \<longleftrightarrow> config_word r cfg f 0 \<noteq> 0xffffffff"

definition bus_functions ::
  "'d pci_root \<Rightarrow> (usize \<Rightarrow> u32) \<Rightarrow> u8 \<Rightarrow> (device_function \<times> device_function_info) list" where
  "bus_functions r cfg bus =
     [(f, function_info r cfg f). d \<leftarrow> [0..<32], n \<leftarrow> [0..<8],
        f \<leftarrow> [\<lparr>df_bus = bus, df_device = of_nat d, df_function = of_nat n\<rparr>], function_present r cfg f]"

text \<open>
  A configuration space of plain registers: \<open>rd\<close> reads them, \<open>wr\<close> writes them. The register at \<open>a\<close> keeps
  the bits outside \<open>wmask\<close> on a write, and a write there changes no other register.
\<close>

definition config_registers ::
  "'d pci_root \<Rightarrow> ('d \<Rightarrow> usize \<Rightarrow> u32) \<Rightarrow> (usize \<Rightarrow> u32 \<Rightarrow> 'd \<Rightarrow> 'd) \<Rightarrow> bool" where
  "config_registers r rd wr \<longleftrightarrow>
     (\<forall>a d. read_volatile_u32_at (io (mmio_region r)) a d = (Inr (rd d a), d)) \<and>
     (\<forall>a v d. write_volatile_u32_at (io (mmio_region r)) a v d = (Inr (), wr a v d))"

definition masked_register ::
  "('d \<Rightarrow> usize \<Rightarrow> u32) \<Rightarrow> (usize \<Rightarrow> u32 \<Rightarrow> 'd \<Rightarrow> 'd) \<Rightarrow> usize \<Rightarrow> u32 \<Rightarrow> bool" where
  "masked_register rd wr a wmask \<longleftrightarrow>
     (\<forall>v d. rd (wr a v d) = (rd d)(a := or (and v wmask) (and (rd d a) (not wmask))))"

text \<open>
  A base address register as the PCI specification encodes it, and which base addresses and
  sizes a device can have: the size is a power of two of at least 16 bytes and the base a
  multiple of it.
\<close>

fun bar_encoding :: "bar_info \<Rightarrow> u32" where
  "bar_encoding (MemoryBar ty pre base sz) =
     or (ucast base) (or (if pre then 8 else 0) (case ty of Width32 \<Rightarrow> 0 | Below1MiB \<Rightarrow> 2 | Width64 \<Rightarrow> 4))"
| "bar_encoding (IOBar base sz) = or base 1"

fun bar_upper :: "bar_info \<Rightarrow> u32" where
  "bar_upper (MemoryBar ty pre base sz) = ucast (drop_bit 32 base)"
| "bar_upper (IOBar base sz) = 0"

definition bar_wf :: "nat \<Rightarrow> bar_info \<Rightarrow> bool" where
  "bar_wf k b \<longleftrightarrow> 4 \<le> k \<and> k < 32 \<and>
     (case b of
        MemoryBar ty pre base sz \<Rightarrow> sz = 2 ^ k \<and> take_bit k base = 0 \<and> (ty = Width64 \<or> base < 2 ^ 32)
      | IOBar base sz \<Rightarrow> sz = 2 ^ k \<and> take_bit k base = 0)"

definition bar_register_at :: "'d pci_root \<Rightarrow> device_function \<Rightarrow> u8 \<Rightarrow> usize" where
  "bar_register_at r f i = ucast (config_address (root_cam r) f (16 + 4 * i))"

section \<open>Addresses\<close>

lemma or_push_bit_add:
  assumes "y < 2 ^ k"
  shows "or (push_bit k x) y = x * 2 ^ k + (y :: nat)"
proof -
  have "\<not> bit y n" if "k \<le> n" for n
  proof -
    have "y < 2 ^ n"
      using assms that by (meson le_less_trans not_less power_increasing one_le_numeral)
    then show ?thesis
      by (simp add: bit_iff_odd)
  qed
  then have "push_bit k x + y = or (push_bit k x) y"
    by (intro disjunctive_add) (auto simp: bit_push_bit_iff not_le)
  then show ?thesis
    by (simp add: push_bit_eq_mult)
qed

lemma unat_push_bit:
  fixes x :: "'n::len word"
  assumes "unat x * 2 ^ k < 2 ^ LENGTH('n)"
  shows "unat (push_bit k x) = push_bit k (unat x)"
  using assms unfolding unsigned_push_bit_eq
  by (intro take_bit_nat_eq_self) (simp add: push_bit_eq_mult)

lemma valid_bounds:
  assumes "DeviceFunction_valid f"
  shows "unat (df_device f) < 32" and "unat (df_function f) < 8" and "function_index f < 65536"
proof -
  show d: "unat (df_device f) < 32" and n: "unat (df_function f) < 8"
    using assms by (simp_all add: DeviceFunction_valid_def word_less_nat_alt)
  have "unat (df_bus f) < 256"
    using unsigned_less [where 'a = nat and w = "df_bus f"] by simp
  then show "function_index f < 65536"
    using d n by (simp add: function_index_def)
qed

lemma function_index_parts:
  assumes "DeviceFunction_valid f"
  shows "unat (df_bus f) = function_index f div 256" and "unat (df_device f) = function_index f div 8 mod 32"
    and "unat (df_function f) = function_index f mod 8"
proof -
  let ?n = "unat (df_function f)" and ?d = "unat (df_device f)" and ?b = "unat (df_bus f)"
  have i: "function_index f = ?n + 8 * (?d + 32 * ?b)"
    by (simp add: function_index_def)
  note v = valid_bounds(1,2) [OF assms]
  have split8: "(n + 8 * m) mod 8 = n" "(n + 8 * m) div 8 = m" if "n < 8" for n m :: nat
    using that by simp_all
  have split32: "(n + 32 * m) mod 32 = n" "(n + 32 * m) div 32 = m" if "n < 32" for n m :: nat
    using that by simp_all
  show "?n = function_index f mod 8" and "?d = function_index f div 8 mod 32"
    unfolding i split8 [OF v(2)] split32 [OF v(1)] by (rule refl)+
  have "?b = function_index f div 8 div 32"
    unfolding i split8 [OF v(2)] split32 [OF v(1)] by (rule refl)
  then show "?b = function_index f div 256"
    by (simp only: div_mult2_eq [symmetric]) simp
qed

lemma unat_bdf:
  assumes "DeviceFunction_valid f"
  shows "unat (or (or (push_bit 8 (ucast (df_bus f))) (push_bit 3 (ucast (df_device f))))
      (ucast (df_function f)) :: u32) = function_index f"
proof -
  note v = valid_bounds [OF assms]
  have b: "unat (df_bus f) < 256"
    using unsigned_less [where 'a = nat and w = "df_bus f"] by simp
  have "unat (or (or (push_bit 8 (ucast (df_bus f))) (push_bit 3 (ucast (df_device f))))
      (ucast (df_function f)) :: u32) =
    or (or (push_bit 8 (unat (df_bus f))) (push_bit 3 (unat (df_device f)))) (unat (df_function f))"
    using b v by (simp add: unsigned_or_eq unat_push_bit unat_ucast_up)
  also have "or (push_bit 8 (unat (df_bus f))) (push_bit 3 (unat (df_device f))) =
      unat (df_bus f) * 2 ^ 8 + push_bit 3 (unat (df_device f))"
    using v by (intro or_push_bit_add) (simp add: push_bit_eq_mult)
  also have "\<dots> = push_bit 3 (unat (df_bus f) * 32 + unat (df_device f))"
    by (simp add: push_bit_eq_mult)
  also have "or \<dots> (unat (df_function f)) = function_index f"
    using v by (subst or_push_bit_add) (simp_all add: function_index_def)
  finally show ?thesis .
qed

lemma unat_config_address:
  assumes "DeviceFunction_valid f"
  shows "unat (config_address c f off) =
    function_index f * (case c of MmioCam \<Rightarrow> 256 | Ecam \<Rightarrow> 4096) + unat off"
proof -
  have "function_index f * (case c of MmioCam \<Rightarrow> 256 | Ecam \<Rightarrow> 4096) + unat off < 2 ^ 32"
    using valid_bounds(3) [OF assms] unsigned_less [where 'a = nat and w = off]
    by (cases c) simp_all
  then show ?thesis
    unfolding config_address_def by (intro unat_of_nat_small) simp
qed

lemma cam_address_eq:
  assumes "DeviceFunction_valid f"
  shows "or (push_bit (case c of MmioCam \<Rightarrow> 8 | Ecam \<Rightarrow> 12)
      (or (or (push_bit 8 (ucast (df_bus f))) (push_bit 3 (ucast (df_device f)))) (ucast (df_function f))))
      (ucast off) = config_address c f off" (is "or (push_bit ?k ?bdf) _ = _")
proof -
  have o: "unat off < 256"
    using unsigned_less [where 'a = nat and w = off] by simp
  have gen: "unat (or (push_bit k x) (ucast off)) = or (push_bit k (unat x)) (unat off)"
    if "unat x * 2 ^ k < 2 ^ 32" for k and x :: u32
    using that by (simp add: unsigned_or_eq unat_push_bit unat_ucast_up)
  have "unat (or (push_bit ?k ?bdf) (ucast off)) = or (push_bit ?k (function_index f)) (unat off)"
    using valid_bounds(3) [OF assms] unat_bdf [OF assms] by (subst gen) (auto split: cam.splits)
  also have "\<dots> = unat (config_address c f off)"
    using o by (subst or_push_bit_add) (auto simp: unat_config_address [OF assms] split: cam.splits)
  finally show ?thesis
    by (simp add: word_unat_eq_iff)
qed

lemma config_address_less:
  assumes "DeviceFunction_valid f"
  shows "config_address c f off < Cam_size c"
  using valid_bounds(3) [OF assms] unsigned_less [where 'a = nat and w = off]
  by (cases c) (simp_all add: word_less_nat_alt unat_config_address [OF assms])

lemma unat_and_3: "unat (and x 3) = unat x mod 4" for x :: "'n::len word"
proof -
  have "and x 3 = take_bit 2 x"
    by (simp add: take_bit_eq_mask mask_eq_exp_minus_1)
  moreover have "unat (take_bit 2 x) = unat x mod 4"
    unfolding unsigned_take_bit_eq by (simp add: take_bit_eq_mod)
  ultimately show ?thesis
    by (simp only:)
qed

lemma mod_add_multiple: "(x * 256 + y) mod 4 = y mod 4" "(x * 4096 + y) mod 4 = y mod 4" for x y :: nat
proof -
  have "x * 256 + y = y + 4 * (64 * x)" "x * 4096 + y = y + 4 * (1024 * x)"
    by simp_all
  then show "(x * 256 + y) mod 4 = y mod 4" "(x * 4096 + y) mod 4 = y mod 4"
    by (simp_all only: mod_mult_self2)
qed

lemma config_address_aligned:
  assumes "DeviceFunction_valid f"
  shows "and (config_address c f off) 3 = 0 \<longleftrightarrow> and off 3 = 0"
proof -
  have "unat (and (config_address c f off) 3) = unat (and off 3)"
    by (cases c) (simp_all add: unat_and_3 unat_config_address [OF assms] mod_add_multiple)
  then show ?thesis
    by (simp add: word_unat_eq_iff)
qed

lemma cam_offset_eq:
  "cam_offset r f off w =
     (if DeviceFunction_valid f \<and> and off 3 = 0 then Ok (config_address (root_cam r) f off) else Panic, w)"
proof (cases "DeviceFunction_valid f")
  case True
  show ?thesis
    unfolding cam_offset_def Let_def cam_address_eq [OF True]
    using True by (simp add: config_address_less config_address_aligned assert_that_def)
qed (simp add: cam_offset_def)

lemma block_split:
  assumes "i < k" and "j < k" and "n * k + i = m * k + (j :: nat)"
  shows "n = m \<and> i = j"
proof -
  have "(n * k + i) div k = n" "(m * k + j) div k = m"
    using assms(1,2) by simp_all
  then show ?thesis
    using assms(3) by simp
qed

lemma config_address_inj:
  assumes "DeviceFunction_valid f" and "DeviceFunction_valid g"
    and "config_address c f i = config_address c g j"
  shows "f = g \<and> i = j"
proof -
  have ij: "unat i < 256" "unat j < 256"
    using unsigned_less [where 'a = nat and w = i] unsigned_less [where 'a = nat and w = j] by simp_all
  have eq: "function_index f * (case c of MmioCam \<Rightarrow> 256 | Ecam \<Rightarrow> 4096) + unat i =
      function_index g * (case c of MmioCam \<Rightarrow> 256 | Ecam \<Rightarrow> 4096) + unat j"
    using assms(3) unat_config_address [OF assms(1), of c i] unat_config_address [OF assms(2), of c j] by simp
  have "function_index f = function_index g" and "unat i = unat j"
    using ij block_split [OF _ _ eq] by (cases c; simp)+
  moreover from this(1) have "unat (df_bus f) = unat (df_bus g) \<and> unat (df_device f) = unat (df_device g) \<and>
      unat (df_function f) = unat (df_function g)"
    using function_index_parts [OF assms(1)] function_index_parts [OF assms(2)] by metis
  ultimately show ?thesis
    by (simp add: word_unat_eq_iff)
qed

lemma config_access_eq:
  assumes "DeviceFunction_valid f" and "and off 3 = 0"
  shows "config_read_word r f off = unwrap (io_read_u32 (mmio_region r) (ucast (config_address (root_cam r) f off)))"
    and "config_write_word r f off v =
      unwrap (io_write_u32 (mmio_region r) (ucast (config_address (root_cam r) f off)) v)"
  using assms by (auto simp: config_read_word_def config_write_word_def bind_def cam_offset_eq fun_eq_iff)

lemma config_access_bad:
  assumes "\<not> (DeviceFunction_valid f \<and> and off 3 = 0)"
  shows "config_read_word r f off w = (Panic, w)" and "config_write_word r f off v w = (Panic, w)"
  using assms by (auto simp: config_read_word_def config_write_word_def bind_def cam_offset_eq)

lemma config_read_stable:
  assumes "config_stable r cfg w" and "DeviceFunction_valid f" and "and off 3 = 0"
  shows "\<exists>w'. config_read_word r f off w = (Ok (config_word r cfg f off), w') \<and> dev w' = dev w \<and>
    config_stable r cfg w'"
  using assms(1)
  by (simp add: config_access_eq [OF assms(2,3)] unwrap_def io_read_u32_def config_stable_def config_word_def)

section \<open>Enumeration\<close>

text \<open>What a \<^verbatim>\<open>for\<close> loop over the iterator sees: the items until the iterator answers \<^verbatim>\<open>None\<close>.\<close>

inductive bus_yields ::
  "'d pci_root \<Rightarrow> device_function \<times> 'd world \<Rightarrow> (device_function \<times> device_function_info) list \<Rightarrow> bool"
  for r where
  stop: "BusDeviceIterator_next r s = (Ok None :: (pci_error, _) outcome, s') \<Longrightarrow> bus_yields r s []"
| item: "BusDeviceIterator_next r s = (Ok (Some x) :: (pci_error, _) outcome, s') \<Longrightarrow> bus_yields r s' xs \<Longrightarrow>
    bus_yields r s (x # xs)"

inductive_cases bus_yieldsE: "bus_yields r s xs"

lemma slot_valid: "k < 256 \<Longrightarrow> DeviceFunction_valid (slot bus k)"
  by (simp add: DeviceFunction_valid_def slot_def word_less_nat_alt unat_of_nat)

lemma slot_more: "k < 256 \<longleftrightarrow> df_device (slot bus k) < MAX_DEVICES" if "k \<le> 256"
  using that by (auto simp: slot_def MAX_DEVICES_def word_less_nat_alt unat_of_nat)

lemma advance_slot:
  assumes "k < 256"
  shows "advance (slot bus k) = slot bus (Suc k)"
  using assms
  by (auto simp: advance_def slot_def Let_def MAX_FUNCTIONS_def word_le_nat_alt unat_word_ariths unat_of_nat
      div_Suc mod_Suc word_unat_eq_iff)

lemma next_slot:
  assumes "config_stable r cfg w" and "k \<le> 256"
  shows "\<exists>w'. config_stable r cfg w' \<and> BusDeviceIterator_next r (slot bus k, w) =
    (case filter (\<lambda>j. function_present r cfg (slot bus j)) [k..<256] of
       [] \<Rightarrow> (Ok None :: ('e, (device_function \<times> device_function_info) option) outcome, (slot bus 256, w'))
     | j # js \<Rightarrow> (Ok (Some (slot bus j, function_info r cfg (slot bus j))), (slot bus (Suc j), w')))"
  using assms
proof (induction "256 - k" arbitrary: k w)
  case 0
  then show ?case
    using slot_more [of k bus] by (auto simp: BusDeviceIterator_next.simps)
next
  case (Suc n)
  then have k: "k < 256"
    by simp
  obtain w1 where v: "config_read_word r (slot bus k) 0 w = (Ok (config_word r cfg (slot bus k) 0) :: ('e, u32) outcome, w1)"
    "config_stable r cfg w1"
    using config_read_stable [OF Suc.prems(1) slot_valid [OF k], of 0 bus] by auto
  show ?case
  proof (cases "function_present r cfg (slot bus k)")
    case True
    obtain w2 where w2: "config_read_word r (slot bus k) 8 w1 = (Ok (config_word r cfg (slot bus k) 8) :: ('e, u32) outcome, w2)" "config_stable r cfg w2"
      using config_read_stable [OF v(2) slot_valid [OF k], of 8 bus] by auto
    obtain w3 where w3: "config_read_word r (slot bus k) 12 w2 = (Ok (config_word r cfg (slot bus k) 12) :: ('e, u32) outcome, w3)" "config_stable r cfg w3"
      using config_read_stable [OF w2(2) slot_valid [OF k], of 12 bus] by auto
    show ?thesis
      using True k v w2 w3 slot_more [of k bus]
      by (simp add: BusDeviceIterator_next.simps [of r "slot bus k"] upt_conv_Cons function_present_def INVALID_READ_def
          zoom_def bind_def read_function_info_def function_info_def Let_def advance_slot)
  next
    case False
    have step: "(BusDeviceIterator_next r (slot bus k, w) :: ('e, _) outcome \<times> _) =
        BusDeviceIterator_next r (slot bus (Suc k), w1)"
      using False k v slot_more [of k bus]
      by (subst BusDeviceIterator_next.simps) (simp add: function_present_def INVALID_READ_def advance_slot)
    show ?thesis
      using False k v(2) Suc.hyps(1) [of "Suc k" w1] Suc.hyps(2) unfolding step by (simp add: upt_conv_Cons)
  qed
qed

lemma filter_upt_Cons:
  assumes "filter P [k..<n] = j # js"
  shows "k \<le> j \<and> j < n \<and> js = filter P [Suc j..<n]"
  using assms
proof (induction "n - k" arbitrary: k)
  case (Suc m)
  then have "[k..<n] = k # [Suc k..<n]"
    by (intro upt_conv_Cons) simp
  then show ?case
    using Suc.prems Suc.hyps(1) [of "Suc k"] Suc.hyps(2) by (fastforce split: if_splits)
qed simp

lemma bus_yields_slots:
  assumes "config_stable r cfg w" and "k \<le> 256"
  shows "bus_yields r (slot bus k, w) xs \<longleftrightarrow>
    xs = map (\<lambda>j. (slot bus j, function_info r cfg (slot bus j)))
      (filter (\<lambda>j. function_present r cfg (slot bus j)) [k..<256])"
  using assms
proof (induction "256 - k" arbitrary: k w xs rule: less_induct)
  case less
  let ?F = "filter (\<lambda>j. function_present r cfg (slot bus j)) [k..<256]"
  let ?n = "BusDeviceIterator_next r (slot bus k, w) :: (pci_error, _) outcome \<times> _"
  show ?case
  proof (cases ?F)
    case Nil
    then obtain s' where n: "?n = (Ok None, s')"
      using next_slot [OF less.prems, where bus = bus] by fastforce
    show ?thesis
      using n Nil by (auto intro: bus_yields.stop elim: bus_yieldsE)
  next
    case (Cons j js)
    then obtain w' where n: "?n = (Ok (Some (slot bus j, function_info r cfg (slot bus j))), (slot bus (Suc j), w'))"
      "config_stable r cfg w'"
      using next_slot [OF less.prems, where bus = bus] by fastforce
    note j = filter_upt_Cons [OF Cons]
    have "bus_yields r (slot bus (Suc j), w') ys \<longleftrightarrow>
        ys = map (\<lambda>j. (slot bus j, function_info r cfg (slot bus j))) js" for ys
    proof -
      have "256 - Suc j < 256 - k" "Suc j \<le> 256"
        using j by linarith+
      then show ?thesis
        using less.hyps [of "Suc j" w'] n(2) j by blast
    qed
    then show ?thesis
      using n Cons by (auto intro: bus_yields.item elim: bus_yieldsE)
  qed
qed

lemma concat_if: "concat (map (\<lambda>x. if P x then [g x] else []) xs) = map g (filter P xs)"
  by (induction xs) simp_all

lemma concat_concat: "concat (concat xss) = concat (map concat xss)"
  by (induction xss) simp_all

lemma slots_256: "[0..<256] = concat (map (\<lambda>d. map (\<lambda>n. d * 8 + n) [0..<8]) [0..<32])"
  by code_simp

lemma bus_functions_slots:
  "bus_functions r cfg bus = map (\<lambda>j. (slot bus j, function_info r cfg (slot bus j)))
      (filter (\<lambda>j. function_present r cfg (slot bus j)) [0..<256])"
proof -
  have s: "slot bus (d * 8 + n) = \<lparr>df_bus = bus, df_device = of_nat d, df_function = of_nat n\<rparr>" if "n < 8" for d n
    using that by (simp add: slot_def)
  have "concat (map (\<lambda>n. concat (map (\<lambda>f. if function_present r cfg f then [(f, function_info r cfg f)] else [])
        [\<lparr>df_bus = bus, df_device = of_nat d, df_function = of_nat n\<rparr>])) [0..<8]) =
      concat (map (\<lambda>j. if function_present r cfg (slot bus j) then [(slot bus j, function_info r cfg (slot bus j))] else [])
        (map (\<lambda>n. d * 8 + n) [0..<8]))" for d
    by (simp add: comp_def) (intro arg_cong [where f = concat] map_cong refl, simp add: s)
  then show ?thesis
    unfolding bus_functions_def concat_if [symmetric] slots_256
    by (simp add: map_concat concat_concat comp_def)
qed

section \<open>Base address registers\<close>

lemma bar_offset_small:
  assumes "i \<le> 5"
  shows "bar_offset r i = ret (16 + 4 * i)" and "and (16 + 4 * i) 3 = 0"
proof -
  have i: "unat i \<le> 5"
    using assms by (simp add: word_le_nat_alt)
  then have m: "unat (4 * i) = 4 * unat i"
    by (simp add: unat_word_ariths)
  then show "bar_offset r i = ret (16 + 4 * i)"
    using i by (simp add: bar_offset_def mul_ov_def add_ov_def BAR0_OFFSET_def fun_eq_iff)
  have "unat (16 + 4 * i) = 16 + 4 * unat i"
    using m i by (simp add: unat_word_ariths)
  then have "unat (and (16 + 4 * i) 3) = 0"
    by (simp add: unat_and_3)
  then show "and (16 + 4 * i) 3 = 0"
    by (simp add: unat_eq_0)
qed

lemma bar_access_eq:
  assumes "i \<le> 5" and "DeviceFunction_valid f"
  shows "bar_read r f i = unwrap (io_read_u32 (mmio_region r) (bar_register_at r f i))"
    and "bar_write r f i v = unwrap (io_write_u32 (mmio_region r) (bar_register_at r f i) v)"
  using assms(2)
  by (simp_all add: bar_read_def bar_write_def config_access_eq bar_register_at_def bar_offset_small [OF assms(1)])

lemma register_access:
  assumes "config_registers r rd wr"
  shows "unwrap (io_read_u32 (mmio_region r) a) w = (Ok (rd (dev w) a), w\<lparr>trace := trace w @ [R32 a (rd (dev w) a)]\<rparr>)"
    and "unwrap (io_write_u32 (mmio_region r) a v) w =
      (Ok (), w\<lparr>dev := wr a v (dev w), trace := trace w @ [W32 a v]\<rparr>)"
  using assms by (simp_all add: config_registers_def unwrap_def io_read_u32_def io_write_u32_def)

lemma low_bits_zero:
  fixes b :: "'n::len word"
  assumes "take_bit k b = 0" and "4 \<le> k" and "c = take_bit 4 c"
  shows "and b c = 0"
proof (rule bit_eqI)
  fix n assume "possible_bit TYPE('n word) n"
  have "bit (take_bit k b) n = False"
    using assms(1) by simp
  moreover have "bit c n \<longleftrightarrow> n < 4 \<and> bit c n"
    by (subst assms(3)) (auto simp: bit_take_bit_iff)
  ultimately show "bit (and b c) n = bit 0 n"
    using assms(2) by (auto simp: bit_and_iff bit_take_bit_iff)
qed

lemma high_bits_kept:
  fixes b :: u32
  assumes "take_bit k b = 0" and "j \<le> k" and "c = take_bit j c"
  shows "and (or b c) (not (mask j)) = b"
    and "and (or (not (mask k)) (and (or b c) (mask k))) (not (mask j)) = not (mask k)"
proof -
  have b: "bit b n \<Longrightarrow> k \<le> n" for n
    using assms(1) by (metis bit_0_eq bit_take_bit_iff bot_apply bot_bool_def not_le)
  have c: "bit c n \<Longrightarrow> n < j" for n
    using assms(3) by (metis bit_take_bit_iff)
  show "and (or b c) (not (mask j)) = b"
    using assms(2) by (intro bit_eqI) (auto simp: bit_simps dest: b c)
  show "and (or (not (mask k)) (and (or b c) (mask k))) (not (mask j)) = not (mask k)"
    using assms(2) by (intro bit_eqI) (auto simp: bit_simps dest: b c)
qed

lemma all_ones: "(0xffffffff :: u32) = - 1"
  by simp

lemma bar_masks: "(0xfffffff0 :: u32) = not (mask 4)" "(0xfffffffc :: u32) = not (mask 2)"
  by (simp_all add: mask_eq_exp_minus_1 not_eq_complement)

lemma sizing_roundtrip:
  fixes wm orig :: u32
  defines "M \<equiv> or (and 0xffffffff wm) (and orig (not wm))"
  shows "or (and orig wm) (and M (not wm)) = orig"
proof -
  have "and 0xffffffff wm = wm"
    by (simp add: all_ones)
  then show ?thesis
    unfolding M_def by (intro bit_eqI) (auto simp: bit_simps)
qed

lemma bar_encoding_parts:
  assumes "bar_wf k b"
  obtains base c where "bar_encoding b = or base c" and "take_bit k base = 0" and "c = take_bit 4 c"
    and "case b of MemoryBar ty pre addr sz \<Rightarrow> base = ucast addr \<and>
        c = or (if pre then 8 else 0) (case ty of Width32 \<Rightarrow> 0 | Below1MiB \<Rightarrow> 2 | Width64 \<Rightarrow> 4)
      | IOBar addr sz \<Rightarrow> base = addr \<and> c = 1"
proof (cases b)
  case (MemoryBar ty pre addr sz)
  have "take_bit k (ucast addr :: u32) = ucast (take_bit k addr)"
    using assms by (intro bit_eqI) (auto simp: bit_simps bar_wf_def)
  then have "take_bit k (ucast addr :: u32) = 0"
    using assms MemoryBar by (simp add: bar_wf_def)
  then show ?thesis
    using MemoryBar that [of "ucast addr"] by (cases ty; cases pre) simp_all
next
  case (IOBar addr sz)
  then show ?thesis
    using assms that [of addr 1] by (simp add: bar_wf_def)
qed

lemma sizing_size:
  fixes orig :: u32
  assumes "bar_wf k b" and "orig = bar_encoding b"
  shows "not (and (or (and 0xffffffff (not (mask k))) (and orig (not (not (mask k))))) 0xfffffff0) + 1 = (2 ^ k :: u32)"
proof -
  obtain base c where p: "orig = or base c" "take_bit k base = 0" "c = take_bit 4 c"
    using bar_encoding_parts [OF assms(1)] assms(2) by metis
  have k: "4 \<le> k"
    using assms(1) by (simp add: bar_wf_def)
  have "and (or (not (mask k)) (and (or base c) (mask k))) (not (mask 4)) = (not (mask k) :: u32)"
    by (rule high_bits_kept [OF p(2) k p(3)])
  then have "and (or (and 0xffffffff (not (mask k))) (and orig (not (not (mask k))))) 0xfffffff0 = (not (mask k) :: u32)"
    unfolding p(1) bar_masks all_ones by simp
  then show ?thesis
    by (simp add: mask_eq_exp_minus_1)
qed

lemma bar_fields:
  assumes "bar_wf k b" and "orig = bar_encoding b"
  shows "(and orig 1 = 1) = (case b of IOBar base sz \<Rightarrow> True | _ \<Rightarrow> False)"
    and "b = MemoryBar ty pre base sz \<Longrightarrow> and orig 0xfffffff0 = ucast base"
    and "b = MemoryBar ty pre base sz \<Longrightarrow> (and orig 8 \<noteq> 0) = pre"
    and "b = MemoryBar ty pre base sz \<Longrightarrow> MemoryBarType_try_from (ucast (drop_bit 1 (and orig 6))) = Inr ty"
    and "b = IOBar ioa sz \<Longrightarrow> and orig 0xfffffffc = ioa"
proof -
  obtain x c where q: "bar_encoding b = or x c" and p: "take_bit k x = 0" "c = take_bit 4 c"
    "case b of MemoryBar ty pre addr sz \<Rightarrow> x = ucast addr \<and>
        c = or (if pre then 8 else 0) (case ty of Width32 \<Rightarrow> 0 | Below1MiB \<Rightarrow> 2 | Width64 \<Rightarrow> 4)
      | IOBar addr sz \<Rightarrow> x = addr \<and> c = 1"
    by (rule bar_encoding_parts [OF assms(1)])
  have orig: "orig = or x c"
    using q assms(2) by simp
  have k: "4 \<le> k"
    using assms(1) by (simp add: bar_wf_def)
  have low: "and orig m = and c m" if "m = take_bit 4 m" for m
    using low_bits_zero [OF p(1) k that] by (simp add: orig bit.conj_disj_distrib2)
  show "(and orig 1 = 1) = (case b of IOBar base sz \<Rightarrow> True | _ \<Rightarrow> False)"
    using p(3) by (subst low) (auto split: bar_info.splits memory_bar_type.splits)
  show "and orig 0xfffffff0 = ucast base" if "b = MemoryBar ty pre base sz"
    using that p(3) high_bits_kept(1) [OF p(1) k p(2)] unfolding orig bar_masks by simp
  show "(and orig 8 \<noteq> 0) = pre" if "b = MemoryBar ty pre base sz"
    using that p(3) by (subst low) (auto split: memory_bar_type.splits)
  show "MemoryBarType_try_from (ucast (drop_bit 1 (and orig 6))) = Inr ty" if "b = MemoryBar ty pre base sz"
    using that p(3) by (subst low) (cases ty; cases pre; simp add: MemoryBarType_try_from_def)+
  show "and orig 0xfffffffc = ioa" if "b = IOBar ioa sz"
    using that p(3) k high_bits_kept(1) [OF p(1), of 2 1] unfolding orig bar_masks by simp
qed

lemma bar_address_merge: "base = or (ucast (ucast base :: u32)) (push_bit 32 (ucast (ucast (drop_bit 32 base) :: u32)))"
  for base :: u64
  by (rule bit_eqI) (auto simp: bit_simps)

lemma ucast_small: "base < 2 ^ 32 \<Longrightarrow> ucast (ucast base :: u32) = base" for base :: u64
  by (simp add: word_unat_eq_iff word_less_nat_alt unsigned_ucast_eq unsigned_take_bit_eq take_bit_nat_eq_self)

lemma bar_info_decodes:
  assumes regs: "config_registers r rd wr" and f: "DeviceFunction_valid f" and i: "i \<le> 5"
    and reg: "masked_register rd wr (bar_register_at r f i) (not (mask k))" and wf: "bar_wf k b"
    and orig: "rd (dev w) (bar_register_at r f i) = bar_encoding b"
    and two: "takes_two_entries b \<Longrightarrow> i < 5 \<and> rd (dev w) (bar_register_at r f (i + 1)) = bar_upper b"
  shows "\<exists>w'. PciRoot_bar_info r f i w = (Ok b, w') \<and> rd (dev w') = rd (dev w)"
proof -
  let ?a = "bar_register_at r f i" and ?o = "rd (dev w) (bar_register_at r f i)"
  define M where "M = rd (wr ?a 0xffffffff (dev w)) ?a"
  have upd: "rd (wr ?a v d) = (rd d)(?a := or (and v (not (mask k))) (and (rd d ?a) (not (not (mask k)))))" for v d
    using reg by (simp add: masked_register_def)
  have M: "M = or (and 0xffffffff (not (mask k))) (and ?o (not (not (mask k))))"
    unfolding M_def upd by (rule fun_upd_same)
  have sz: "not (and M 0xfffffff0) + 1 = 2 ^ k"
    unfolding M by (rule sizing_size [OF wf orig])
  let ?w2 = "w\<lparr>dev := wr ?a ?o (wr ?a 0xffffffff (dev w)),
    trace := trace w @ [R32 ?a ?o, W32 ?a 0xffffffff, R32 ?a M, W32 ?a ?o]\<rparr>"
  have same: "rd (dev ?w2) = rd (dev w)"
    using sizing_roundtrip [of ?o "not (mask k)"] by (simp add: upd)
  note fields = bar_fields [OF wf orig]
  note access = bar_access_eq [OF i f] register_access [OF regs] andthen_def bind_def Let_def
  show ?thesis
  proof (cases b)
    case (IOBar base n)
    then have "PciRoot_bar_info r f i w = (Ok (IOBar base (2 ^ k)), ?w2)"
      using fields(1) fields(5) sz by (simp add: PciRoot_bar_info_def access M_def [symmetric])
    then show ?thesis
      using IOBar same wf by (auto simp: bar_wf_def)
  next
    case (MemoryBar ty pre base n)
    have n: "n = 2 ^ k" and low: "ty \<noteq> Width64 \<Longrightarrow> base < 2 ^ 32"
      using wf MemoryBar by (auto simp: bar_wf_def)
    note fields' = fields(1) fields(2-4) [OF MemoryBar]
    show ?thesis
    proof (cases "ty = Width64")
      case True
      have up: "i < 5" "rd (dev w) (bar_register_at r f (i + 1)) = ucast (drop_bit 32 base)"
        using two MemoryBar True by simp_all
      then have i1: "i + 1 \<le> 5" and ov: "unat i + 1 < 256"
        by (auto simp: word_le_nat_alt word_less_nat_alt unat_word_ariths)
      have "PciRoot_bar_info r f i w = (Ok (MemoryBar ty pre base (2 ^ k)),
          ?w2\<lparr>trace := trace ?w2 @ [R32 (bar_register_at r f (i + 1)) (ucast (drop_bit 32 base))]\<rparr>)"
        using fields' sz up same ov True MemoryBar bar_address_merge [of base]
        by (simp add: PciRoot_bar_info_def access M_def [symmetric] bar_access_eq [OF i1 f] add_ov_def)
      then show ?thesis
        using MemoryBar n same by auto
    next
      case False
      have "PciRoot_bar_info r f i w = (Ok (MemoryBar ty pre base (2 ^ k)), ?w2)"
        using fields' sz False MemoryBar ucast_small [OF low [OF False]]
        by (simp add: PciRoot_bar_info_def access M_def [symmetric])
      then show ?thesis
        using MemoryBar n same by auto
    qed
  qed
qed

lemma function_index_advance:
  assumes "DeviceFunction_valid f"
  shows "function_index (advance f) = Suc (function_index f)" and "df_bus (advance f) = df_bus f"
proof -
  note v = valid_bounds(1,2) [OF assms]
  then have "unat (df_device f + 1) = unat (df_device f) + 1"
    "unat (df_function f + 1) = unat (df_function f) + 1"
    by (simp_all add: unat_word_ariths)
  then show "function_index (advance f) = Suc (function_index f)"
    using v by (auto simp: advance_def function_index_def Let_def MAX_FUNCTIONS_def word_le_nat_alt)
  show "df_bus (advance f) = df_bus f"
    by (simp add: advance_def Let_def)
qed

lemma next_item:
  assumes "BusDeviceIterator_next r (f, w) = (Ok (Some (g, info)) :: (pci_error, _) outcome, (f', w'))"
  shows "DeviceFunction_valid g \<and> df_bus g = df_bus f \<and> function_index f \<le> function_index g \<and> f' = advance g"
  using assms
proof (induction "slots_left f" arbitrary: f w rule: less_induct)
  case less
  obtain v w1 where v: "config_read_word r f 0 w = (Ok v :: (pci_error, u32) outcome, w1)"
    and f: "df_device f < MAX_DEVICES"
    using less.prems
    by (subst (asm) BusDeviceIterator_next.simps) (auto split: if_splits prod.splits outcome.splits)
  note val = config_read_word_valid [OF v]
  show ?case
  proof (cases "v = INVALID_READ")
    case True
    then have "BusDeviceIterator_next r (advance f, w1) = (Ok (Some (g, info)) :: (pci_error, _) outcome, (f', w'))"
      using less.prems v f by (subst (asm) BusDeviceIterator_next.simps) simp
    from less.hyps [OF advance_slots [OF val] this] show ?thesis
      using function_index_advance [OF val] by auto
  next
    case False
    then have "g = f \<and> f' = advance f"
      using less.prems v f
      by (subst (asm) BusDeviceIterator_next.simps)
        (auto simp: zoom_def bind_def split: prod.splits outcome.splits)
    then show ?thesis
      using val by simp
  qed
qed

lemma bus_yields_ordered:
  assumes "bus_yields r (f, w) xs"
  shows "(\<forall>(g, info) \<in> set xs. DeviceFunction_valid g \<and> df_bus g = df_bus f \<and> function_index f \<le> function_index g) \<and>
    sorted_wrt (<) (map (\<lambda>(g, info). function_index g) xs)"
  using assms
proof (induction "(f, w)" xs arbitrary: f w)
  case (item x s' xs)
  obtain g info where x: "x = (g, info)"
    by (cases x)
  obtain f' w' where s': "s' = (f', w')"
    by (cases s')
  note g = next_item [OF item.hyps(1) [unfolded x s']]
  have f': "function_index f' = Suc (function_index g)" "df_bus f' = df_bus g"
    using g function_index_advance by simp_all
  show ?case
    using item.hyps(3) [OF s'] g f' x by fastforce
qed simp

end
