(* ===== verification/PciTransport.thy ===== *)
theory PciTransport
  imports PciBus Transport
begin

text \<open>
  The PCI transport, \<^verbatim>\<open>transport/pci/mod.rs\<close>: device types, the search for the capabilities of a
  VirtIO device, the checks on the regions they describe, and the transport's methods on the
  common configuration structure.

  The module uses code that is not part of the repository: the accessors \<^verbatim>\<open>volread!\<close>,
  \<^verbatim>\<open>volwrite!\<close>, \<^verbatim>\<open>vread\<close> and \<^verbatim>\<open>vwrite\<close>, and the address translation \<^verbatim>\<open>H::mmio_phys_to_virt\<close>. They
  are the fields of the record \<open>pci_env\<close>: an access has a width in bytes and an address.
\<close>

section \<open>Constants\<close>

definition VIRTIO_VENDOR_ID :: u16 where "VIRTIO_VENDOR_ID = 0x1af4"
definition PCI_DEVICE_ID_OFFSET :: u16 where "PCI_DEVICE_ID_OFFSET = 0x1040"
definition TRANSITIONAL_NETWORK :: u16 where "TRANSITIONAL_NETWORK = 0x1000"
definition TRANSITIONAL_BLOCK :: u16 where "TRANSITIONAL_BLOCK = 0x1001"
definition TRANSITIONAL_MEMORY_BALLOONING :: u16 where "TRANSITIONAL_MEMORY_BALLOONING = 0x1002"
definition TRANSITIONAL_CONSOLE :: u16 where "TRANSITIONAL_CONSOLE = 0x1003"
definition TRANSITIONAL_SCSI_HOST :: u16 where "TRANSITIONAL_SCSI_HOST = 0x1004"
definition TRANSITIONAL_ENTROPY_SOURCE :: u16 where "TRANSITIONAL_ENTROPY_SOURCE = 0x1005"
definition TRANSITIONAL_9P_TRANSPORT :: u16 where "TRANSITIONAL_9P_TRANSPORT = 0x1009"
definition CAP_BAR_OFFSET :: u8 where "CAP_BAR_OFFSET = 4"
definition CAP_BAR_OFFSET_OFFSET :: u8 where "CAP_BAR_OFFSET_OFFSET = 8"
definition CAP_LENGTH_OFFSET :: u8 where "CAP_LENGTH_OFFSET = 12"
definition CAP_NOTIFY_OFF_MULTIPLIER_OFFSET :: u8 where "CAP_NOTIFY_OFF_MULTIPLIER_OFFSET = 16"
definition VIRTIO_PCI_CAP_COMMON_CFG :: u8 where "VIRTIO_PCI_CAP_COMMON_CFG = 1"
definition VIRTIO_PCI_CAP_NOTIFY_CFG :: u8 where "VIRTIO_PCI_CAP_NOTIFY_CFG = 2"
definition VIRTIO_PCI_CAP_ISR_CFG :: u8 where "VIRTIO_PCI_CAP_ISR_CFG = 3"
definition VIRTIO_PCI_CAP_DEVICE_CFG :: u8 where "VIRTIO_PCI_CAP_DEVICE_CFG = 4"

section \<open>Device types\<close>

definition pci_device_type :: "u16 \<Rightarrow> device_type" where
  "pci_device_type pci_device_id =
     (if pci_device_id = TRANSITIONAL_NETWORK then Network
      else if pci_device_id = TRANSITIONAL_BLOCK then Block
      else if pci_device_id = TRANSITIONAL_MEMORY_BALLOONING then MemoryBalloon
      else if pci_device_id = TRANSITIONAL_CONSOLE then Console
      else if pci_device_id = TRANSITIONAL_SCSI_HOST then ScsiHost
      else if pci_device_id = TRANSITIONAL_ENTROPY_SOURCE then EntropySource
      else if pci_device_id = TRANSITIONAL_9P_TRANSPORT then NineP
      else if pci_device_id \<ge> PCI_DEVICE_ID_OFFSET
        then DeviceType_from_u16 (pci_device_id - PCI_DEVICE_ID_OFFSET)
      else Invalid)"

definition virtio_device_type :: "device_function_info \<Rightarrow> device_type option" where
  "virtio_device_type info =
     (if vendor_id info = VIRTIO_VENDOR_ID then
        let ty = pci_device_type (device_id info) in if ty \<noteq> Invalid then Some ty else None
      else None)"

section \<open>Errors and data\<close>

datatype virtio_pci_error =
    InvalidVendorId u16
  | MissingCommonConfig
  | MissingNotifyConfig
  | InvalidNotifyOffMultiplier u32
  | MissingIsrConfig
  | UnexpectedIoBar
  | BarNotAllocated u8
  | BarOffsetOutOfRange
  | PciMisaligned usize usize
  | Pci pci_error

record virtio_capability_info =
  vc_bar :: u8
  vc_offset :: u32
  vc_length :: u32

record 'd pci_env =
  mmio_phys_to_virt :: "usize \<Rightarrow> usize \<Rightarrow> usize"
  vread :: "nat \<Rightarrow> usize \<Rightarrow> 'd \<Rightarrow> u64 \<times> 'd"
  vwrite :: "nat \<Rightarrow> usize \<Rightarrow> u64 \<Rightarrow> 'd \<Rightarrow> 'd"

text \<open>A region that is a slice is its address and its number of elements.\<close>

record pci_transport =
  pt_device_type :: device_type
  pt_device_function :: device_function
  common_cfg :: usize
  notify_region :: "usize \<times> usize"
  notify_off_multiplier :: u32
  isr_status :: usize
  config_space :: "(usize \<times> usize) option"

text \<open>The local variables of the search for capabilities.\<close>

record cap_scan =
  sc_common :: "virtio_capability_info option"
  sc_notify :: "virtio_capability_info option"
  sc_multiplier :: u32
  sc_isr :: "virtio_capability_info option"
  sc_device :: "virtio_capability_info option"

definition cap_scan_empty :: cap_scan where
  "cap_scan_empty = \<lparr>sc_common = None, sc_notify = None, sc_multiplier = 0, sc_isr = None, sc_device = None\<rparr>"

section \<open>Finding the device's structures\<close>

type_synonym ('d, 'a) vprog = "('d world, virtio_pci_error, 'a) prog"

definition cap_field :: "'d pci_root \<Rightarrow> device_function \<Rightarrow> capability_info \<Rightarrow> u8 \<Rightarrow> ('d, u32) vprog" where
  "cap_field r f cap off =
     bind (add_ov (debug (mmio_region r)) (cap_offset cap) off) (config_read_word r f)"

definition scan_capability ::
  "'d pci_root \<Rightarrow> device_function \<Rightarrow> capability_info \<Rightarrow> cap_scan \<Rightarrow> ('d, cap_scan) vprog" where
  "scan_capability r f cap sc =
     (if cap_id cap \<noteq> PCI_CAP_ID_VNDR then ret sc
      else
        let cap_len = ucast (private_header cap) :: u8;
            cfg_type = ucast (drop_bit 8 (private_header cap)) :: u8
        in if cap_len < 16 then ret sc
           else
             bind (cap_field r f cap CAP_BAR_OFFSET) (\<lambda>bar.
             bind (cap_field r f cap CAP_BAR_OFFSET_OFFSET) (\<lambda>offset.
             bind (cap_field r f cap CAP_LENGTH_OFFSET) (\<lambda>len.
             let struct_info = \<lparr>vc_bar = ucast bar, vc_offset = offset, vc_length = len\<rparr>
             in if cfg_type = VIRTIO_PCI_CAP_COMMON_CFG \<and> sc_common sc = None
                then ret (sc\<lparr>sc_common := Some struct_info\<rparr>)
                else if cfg_type = VIRTIO_PCI_CAP_NOTIFY_CFG \<and> cap_len \<ge> 20 \<and> sc_notify sc = None
                then bind (cap_field r f cap CAP_NOTIFY_OFF_MULTIPLIER_OFFSET) (\<lambda>multiplier.
                  ret (sc\<lparr>sc_notify := Some struct_info, sc_multiplier := multiplier\<rparr>))
                else if cfg_type = VIRTIO_PCI_CAP_ISR_CFG \<and> sc_isr sc = None
                then ret (sc\<lparr>sc_isr := Some struct_info\<rparr>)
                else if cfg_type = VIRTIO_PCI_CAP_DEVICE_CFG \<and> sc_device sc = None
                then ret (sc\<lparr>sc_device := Some struct_info\<rparr>)
                else ret sc))))"

text \<open>One round of the \<^verbatim>\<open>for\<close> loop over the capabilities: \<open>False\<close> when the iterator is exhausted.\<close>

definition scan_step ::
  "'d pci_root \<Rightarrow> device_function \<Rightarrow>
    (capability_iterator \<times> cap_scan \<times> 'd world, virtio_pci_error, bool) prog" where
  "scan_step r f =
     bind (zoom (\<lambda>(it, sc, w). (it, w)) (\<lambda>(it, w) (_, sc, _). (it, sc, w)) (CapabilityIterator_next r))
       (\<lambda>item.
     (case item of
        None \<Rightarrow> ret False
      | Some cap \<Rightarrow>
          bind (gets (\<lambda>(it, sc, w). sc)) (\<lambda>sc.
          bind (zoom (\<lambda>(it, sc, w). w) (\<lambda>w (it, sc, _). (it, sc, w)) (scan_capability r f cap sc)) (\<lambda>sc'.
          andthen (modify (\<lambda>(it, sc, w). (it, sc', w))) (ret True)))))"

definition scan_capabilities ::
  "'d pci_root \<Rightarrow> device_function \<Rightarrow> capability_iterator \<Rightarrow> ('d, cap_scan) vprog" where
  "scan_capabilities r f it =
     zoom (\<lambda>w. (it, cap_scan_empty, w)) (\<lambda>(it, sc, w) _. w)
       (andthen (while_prog (scan_step r f) (\<lambda>s. s)) (gets (\<lambda>(it, sc, w). sc)))"

definition get_bar_region ::
  "'d pci_env \<Rightarrow> 'd pci_root \<Rightarrow> device_function \<Rightarrow> usize \<Rightarrow> usize \<Rightarrow> virtio_capability_info \<Rightarrow>
    ('d, usize) vprog" where
  "get_bar_region E r f size_T align_T struct_info =
     bind (map_err Pci (PciRoot_bar_info r f (vc_bar struct_info))) (\<lambda>info.
     (case memory_address_size info of
        None \<Rightarrow> throw UnexpectedIoBar
      | Some (bar_address, bar_size) \<Rightarrow>
          if bar_address = 0 then throw (BarNotAllocated (vc_bar struct_info))
          else
            bind (add_ov (debug (mmio_region r)) (vc_offset struct_info) (vc_length struct_info))
              (\<lambda>upper.
            if upper > bar_size \<or> size_T > ucast (vc_length struct_info)
            then throw BarOffsetOutOfRange
            else
              bind (add_ov (debug (mmio_region r)) bar_address (ucast (vc_offset struct_info)))
                (\<lambda>paddr.
              let vaddr = mmio_phys_to_virt E paddr (ucast (vc_length struct_info))
              in if vaddr mod align_T \<noteq> 0 then throw (PciMisaligned vaddr align_T)
                 else ret vaddr))))"

definition get_bar_region_slice ::
  "'d pci_env \<Rightarrow> 'd pci_root \<Rightarrow> device_function \<Rightarrow> usize \<Rightarrow> usize \<Rightarrow> virtio_capability_info \<Rightarrow>
    ('d, usize \<times> usize) vprog" where
  "get_bar_region_slice E r f size_T align_T struct_info =
     bind (get_bar_region E r f size_T align_T struct_info) (\<lambda>ptr.
     ret (ptr, ucast (vc_length struct_info) div size_T))"

definition ok_or :: "'a option \<Rightarrow> 'e \<Rightarrow> ('s, 'e, 'a) prog" where
  "ok_or x e = (case x of None \<Rightarrow> throw e | Some y \<Rightarrow> ret y)"

text \<open>
  The sizes and alignments of the region types: \<^verbatim>\<open>CommonCfg\<close> has 56 bytes and contains 64-bit
  fields, the notification region is a slice of 16-bit registers, the interrupt status one
  byte, and the device configuration a slice of 32-bit words.
\<close>

definition PciTransport_new ::
  "'d pci_env \<Rightarrow> 'd pci_root \<Rightarrow> device_function \<Rightarrow> ('d, pci_transport) vprog" where
  "PciTransport_new E r f =
     bind (config_read_word r f 0) (\<lambda>device_vendor.
     let dev_id = ucast (drop_bit 16 device_vendor); vendor = ucast device_vendor
     in if vendor \<noteq> VIRTIO_VENDOR_ID then throw (InvalidVendorId vendor)
        else
          bind (capabilities r f) (\<lambda>it.
          bind (scan_capabilities r f it) (\<lambda>sc.
          bind (ok_or (sc_common sc) MissingCommonConfig) (\<lambda>common.
          bind (get_bar_region E r f 56 8 common) (\<lambda>common_cfg.
          bind (ok_or (sc_notify sc) MissingNotifyConfig) (\<lambda>notify_cfg.
          if sc_multiplier sc mod 2 \<noteq> 0 then throw (InvalidNotifyOffMultiplier (sc_multiplier sc))
          else
            bind (get_bar_region_slice E r f 2 2 notify_cfg) (\<lambda>notify_region.
            bind (ok_or (sc_isr sc) MissingIsrConfig) (\<lambda>isr_cfg.
            bind (get_bar_region E r f 1 1 isr_cfg) (\<lambda>isr_status.
            bind (case sc_device sc of
                    Some device_cfg \<Rightarrow> bind (get_bar_region_slice E r f 4 4 device_cfg) (\<lambda>s. ret (Some s))
                  | None \<Rightarrow> ret None) (\<lambda>config_space.
            ret \<lparr>pt_device_type = pci_device_type dev_id, pt_device_function = f,
                 common_cfg = common_cfg, notify_region = notify_region,
                 notify_off_multiplier = sc_multiplier sc, isr_status = isr_status,
                 config_space = config_space\<rparr>))))))))))"

section \<open>The common configuration structure\<close>

datatype common_cfg_field =
    device_feature_select | device_feature | driver_feature_select | driver_feature | msix_config
  | num_queues | device_status | config_generation | queue_select | queue_size | queue_msix_vector
  | queue_enable | queue_notify_off | queue_desc | queue_driver | queue_device

text \<open>Offset and width of each field, as \<^verbatim>\<open>repr(C)\<close> lays them out.\<close>

fun CommonCfg :: "common_cfg_field \<Rightarrow> usize \<times> nat" where
  "CommonCfg device_feature_select = (0, 4)"
| "CommonCfg device_feature = (4, 4)"
| "CommonCfg driver_feature_select = (8, 4)"
| "CommonCfg driver_feature = (12, 4)"
| "CommonCfg msix_config = (16, 2)"
| "CommonCfg num_queues = (18, 2)"
| "CommonCfg device_status = (20, 1)"
| "CommonCfg config_generation = (21, 1)"
| "CommonCfg queue_select = (22, 2)"
| "CommonCfg queue_size = (24, 2)"
| "CommonCfg queue_msix_vector = (26, 2)"
| "CommonCfg queue_enable = (28, 2)"
| "CommonCfg queue_notify_off = (30, 2)"
| "CommonCfg queue_desc = (32, 8)"
| "CommonCfg queue_driver = (40, 8)"
| "CommonCfg queue_device = (48, 8)"

definition mem_read :: "'d pci_env \<Rightarrow> nat \<Rightarrow> usize \<Rightarrow> ('d, 'e, u64) pprog" where
  "mem_read E width a w =
     (case vread E width a (dev w) of (v, d) \<Rightarrow> (Ok (take_bit (8 * width) v), w\<lparr>dev := d\<rparr>))"

definition mem_write :: "'d pci_env \<Rightarrow> nat \<Rightarrow> usize \<Rightarrow> u64 \<Rightarrow> ('d, 'e, unit) pprog" where
  "mem_write E width a v w = (Ok (), w\<lparr>dev := vwrite E width a v (dev w)\<rparr>)"

definition volread :: "'d pci_env \<Rightarrow> pci_transport \<Rightarrow> common_cfg_field \<Rightarrow> ('d, 'e, u64) pprog" where
  "volread E t fld = (case CommonCfg fld of (off, width) \<Rightarrow> mem_read E width (common_cfg t + off))"

definition volwrite ::
  "'d pci_env \<Rightarrow> pci_transport \<Rightarrow> common_cfg_field \<Rightarrow> u64 \<Rightarrow> ('d, 'e, unit) pprog" where
  "volwrite E t fld v = (case CommonCfg fld of (off, width) \<Rightarrow> mem_write E width (common_cfg t + off) v)"

section \<open>The methods of the transport\<close>

definition PciTransport_device_type :: "pci_transport \<Rightarrow> device_type" where
  "PciTransport_device_type t = pt_device_type t"

definition PciTransport_read_device_features ::
  "'d pci_env \<Rightarrow> pci_transport \<Rightarrow> ('d, 'e, u64) pprog" where
  "PciTransport_read_device_features E t =
     andthen (volwrite E t device_feature_select 0)
     (bind (volread E t device_feature) (\<lambda>lo.
      andthen (volwrite E t device_feature_select 1)
      (bind (volread E t device_feature) (\<lambda>hi. ret (or lo (push_bit 32 hi))))))"

definition PciTransport_write_driver_features ::
  "'d pci_env \<Rightarrow> pci_transport \<Rightarrow> u64 \<Rightarrow> ('d, 'e, unit) pprog" where
  "PciTransport_write_driver_features E t driver_features =
     andthen (volwrite E t driver_feature_select 0)
     (andthen (volwrite E t driver_feature (take_bit 32 driver_features))
     (andthen (volwrite E t driver_feature_select 1)
     (volwrite E t driver_feature (drop_bit 32 driver_features))))"

definition PciTransport_max_queue_size ::
  "'d pci_env \<Rightarrow> pci_transport \<Rightarrow> u16 \<Rightarrow> ('d, 'e, u32) pprog" where
  "PciTransport_max_queue_size E t queue =
     andthen (volwrite E t queue_select (ucast queue))
     (bind (volread E t queue_size) (\<lambda>v. ret (ucast v)))"

text \<open>
  The product of a 16-bit and a 32-bit number fits in 64 bits. Indexing the slice panics outside
  its bounds.
\<close>

definition PciTransport_notify :: "'d pci_env \<Rightarrow> pci_transport \<Rightarrow> u16 \<Rightarrow> ('d, 'e, unit) pprog" where
  "PciTransport_notify E t queue =
     andthen (volwrite E t queue_select (ucast queue))
     (bind (volread E t queue_notify_off) (\<lambda>off.
      let offset_bytes = off * ucast (notify_off_multiplier t); index = offset_bytes div 2
      in andthen (assert_that (index < snd (notify_region t)))
         (mem_write E 2 (fst (notify_region t) + 2 * index) (ucast queue))))"

definition PciTransport_get_status :: "'d pci_env \<Rightarrow> pci_transport \<Rightarrow> ('d, 'e, u32) pprog" where
  "PciTransport_get_status E t =
     bind (volread E t device_status) (\<lambda>v. ret (and (ucast v) DeviceStatus_all))"

definition PciTransport_set_status :: "'d pci_env \<Rightarrow> pci_transport \<Rightarrow> u32 \<Rightarrow> ('d, 'e, unit) pprog" where
  "PciTransport_set_status E t status = volwrite E t device_status (take_bit 8 (ucast status))"

definition PciTransport_set_guest_page_size :: "u32 \<Rightarrow> ('d, 'e, unit) pprog" where
  "PciTransport_set_guest_page_size guest_page_size = ret ()"

definition PciTransport_requires_legacy_layout :: bool where
  "PciTransport_requires_legacy_layout = False"

definition PciTransport_queue_set ::
  "'d pci_env \<Rightarrow> pci_transport \<Rightarrow> u16 \<Rightarrow> u32 \<Rightarrow> usize \<Rightarrow> usize \<Rightarrow> usize \<Rightarrow> ('d, 'e, unit) pprog" where
  "PciTransport_queue_set E t queue sz descriptors driver_area device_area =
     andthen (volwrite E t queue_select (ucast queue))
     (andthen (volwrite E t queue_size (take_bit 16 (ucast sz)))
     (andthen (volwrite E t queue_desc descriptors)
     (andthen (volwrite E t queue_driver driver_area)
     (andthen (volwrite E t queue_device device_area)
     (volwrite E t queue_enable 1)))))"

definition PciTransport_queue_unset :: "u16 \<Rightarrow> ('d, 'e, unit) pprog" where
  "PciTransport_queue_unset queue = ret ()"

definition PciTransport_queue_used :: "'d pci_env \<Rightarrow> pci_transport \<Rightarrow> u16 \<Rightarrow> ('d, 'e, bool) pprog" where
  "PciTransport_queue_used E t queue =
     andthen (volwrite E t queue_select (ucast queue))
     (bind (volread E t queue_enable) (\<lambda>v. ret (v = 1)))"

definition PciTransport_ack_interrupt :: "'d pci_env \<Rightarrow> pci_transport \<Rightarrow> ('d, 'e, bool) pprog" where
  "PciTransport_ack_interrupt E t =
     bind (mem_read E 1 (isr_status t)) (\<lambda>isr. ret (and isr 3 \<noteq> 0))"

datatype config_error = ConfigSpaceTooSmall | ConfigSpaceMissing

definition PciTransport_config_space ::
  "pci_transport \<Rightarrow> usize \<Rightarrow> usize \<Rightarrow> ('d world, config_error, usize) prog" where
  "PciTransport_config_space t size_T align_T =
     (case config_space t of
        Some (ptr, len) \<Rightarrow>
          if size_T > len * 4 then throw ConfigSpaceTooSmall
          else if align_T > 4 then panic
          else ret ptr
      | None \<Rightarrow> throw ConfigSpaceMissing)"

definition PciTransport_drop :: "'d pci_env \<Rightarrow> pci_transport \<Rightarrow> ('d, 'e, unit) pprog" where
  "PciTransport_drop E t =
     andthen (PciTransport_set_status E t 0)
     (while_prog (bind (PciTransport_get_status E t) (\<lambda>s. ret (s \<noteq> 0))) (\<lambda>w. w))"

section \<open>Notions of the specification\<close>

text \<open>The capability at an offset of a configuration space, and the list that starts at an offset.\<close>

definition cap_at :: "'d pci_root \<Rightarrow> (usize \<Rightarrow> u32) \<Rightarrow> device_function \<Rightarrow> u8 \<Rightarrow> capability_info" where
  "cap_at r cfg f off =
     \<lparr>cap_offset = off, cap_id = ucast (config_word r cfg f off),
      private_header = ucast (drop_bit 16 (config_word r cfg f off))\<rparr>"

inductive cap_chain ::
  "'d pci_root \<Rightarrow> (usize \<Rightarrow> u32) \<Rightarrow> device_function \<Rightarrow> u8 option \<Rightarrow> capability_info list \<Rightarrow> bool"
  for r cfg f where
  stop: "cap_chain r cfg f None []"
| link: "and off 3 = 0 \<Longrightarrow> cap_chain r cfg f (next_capability (config_word r cfg f off)) caps \<Longrightarrow>
    cap_chain r cfg f (Some off) (cap_at r cfg f off # caps)"

text \<open>A vendor capability of type \<open>ty\<close> with at least \<open>n\<close> bytes, and the structure it describes.\<close>

definition cap_is :: "u8 \<Rightarrow> u8 \<Rightarrow> capability_info \<Rightarrow> bool" where
  "cap_is ty n cap \<longleftrightarrow> cap_id cap = 9 \<and> n \<le> ucast (private_header cap) \<and>
     ucast (drop_bit 8 (private_header cap)) = ty"

definition cap_struct ::
  "'d pci_root \<Rightarrow> (usize \<Rightarrow> u32) \<Rightarrow> device_function \<Rightarrow> capability_info \<Rightarrow> virtio_capability_info" where
  "cap_struct r cfg f cap =
     \<lparr>vc_bar = ucast (config_word r cfg f (cap_offset cap + 4)),
      vc_offset = config_word r cfg f (cap_offset cap + 8),
      vc_length = config_word r cfg f (cap_offset cap + 12)\<rparr>"

definition first_structs ::
  "'d pci_root \<Rightarrow> (usize \<Rightarrow> u32) \<Rightarrow> device_function \<Rightarrow> capability_info list \<Rightarrow> cap_scan" where
  "first_structs r cfg f caps =
     \<lparr>sc_common = map_option (cap_struct r cfg f) (find (cap_is 1 16) caps),
      sc_notify = map_option (cap_struct r cfg f) (find (cap_is 2 20) caps),
      sc_multiplier = (case find (cap_is 2 20) caps of
          None \<Rightarrow> 0 | Some cap \<Rightarrow> config_word r cfg f (cap_offset cap + 16)),
      sc_isr = map_option (cap_struct r cfg f) (find (cap_is 3 16) caps),
      sc_device = map_option (cap_struct r cfg f) (find (cap_is 4 16) caps)\<rparr>"

text \<open>Vendor capabilities lie inside the first 256 bytes with the fields that are read of them.\<close>

definition caps_fit :: "'d pci_root \<Rightarrow> (usize \<Rightarrow> u32) \<Rightarrow> device_function \<Rightarrow> bool" where
  "caps_fit r cfg f \<longleftrightarrow>
     (\<forall>off. cap_id (cap_at r cfg f off) = 9 \<longrightarrow> unat off + 16 < 256)"

definition note_capability ::
  "'d pci_root \<Rightarrow> (usize \<Rightarrow> u32) \<Rightarrow> device_function \<Rightarrow> capability_info \<Rightarrow> cap_scan \<Rightarrow> cap_scan" where
  "note_capability r cfg f cap sc =
     (if cap_is 1 16 cap \<and> sc_common sc = None then sc\<lparr>sc_common := Some (cap_struct r cfg f cap)\<rparr>
      else if cap_is 2 20 cap \<and> sc_notify sc = None
        then sc\<lparr>sc_notify := Some (cap_struct r cfg f cap),
                sc_multiplier := config_word r cfg f (cap_offset cap + 16)\<rparr>
      else if cap_is 3 16 cap \<and> sc_isr sc = None then sc\<lparr>sc_isr := Some (cap_struct r cfg f cap)\<rparr>
      else if cap_is 4 16 cap \<and> sc_device sc = None then sc\<lparr>sc_device := Some (cap_struct r cfg f cap)\<rparr>
      else sc)"

abbreviation cap_iter :: "device_function \<Rightarrow> u8 option \<Rightarrow> capability_iterator" where
  "cap_iter f off \<equiv> \<lparr>ci_function = f, next_capability_offset = off\<rparr>"

text \<open>A state of the search from which the list of capabilities has no end.\<close>

definition scan_endless ::
  "'d pci_root \<Rightarrow> (usize \<Rightarrow> u32) \<Rightarrow> device_function \<Rightarrow> capability_iterator \<times> cap_scan \<times> 'd world \<Rightarrow> bool" where
  "scan_endless r cfg f s \<longleftrightarrow>
     (\<exists>off sc w. s = (cap_iter f (Some off), sc, w) \<and> and off 3 = 0 \<and> config_stable r cfg w \<and>
       (\<nexists>caps. cap_chain r cfg f (Some off) caps))"

text \<open>A region inside a BAR of the device that has an address, of a type of \<open>n\<close> bytes aligned to \<open>al\<close>.\<close>

definition region_inside ::
  "'d pci_env \<Rightarrow> 'd pci_root \<Rightarrow> device_function \<Rightarrow> virtio_capability_info \<Rightarrow> usize \<Rightarrow> usize \<Rightarrow> usize \<Rightarrow> bool" where
  "region_inside E r f info n al v \<longleftrightarrow>
     (\<exists>w w' b a sz. PciRoot_bar_info r f (vc_bar info) w = (Ok b, w') \<and> memory_address_size b = Some (a, sz) \<and>
       a \<noteq> 0 \<and> unat (vc_offset info) + unat (vc_length info) \<le> unat sz \<and> unat n \<le> unat (vc_length info) \<and>
       v = mmio_phys_to_virt E (a + ucast (vc_offset info)) (ucast (vc_length info)) \<and> v mod al = 0)"

section \<open>Capabilities\<close>

lemma aligned_add:
  fixes off :: u8
  assumes "and off 3 = 0" and "and c 3 = 0" and "unat off + unat c < 256"
  shows "and (off + c) 3 = 0"
proof -
  have "unat off mod 4 = 0" "unat c mod 4 = 0"
    using assms(1,2) unat_and_3 [of off] unat_and_3 [of c] by simp_all
  then have "(unat off + unat c) mod 4 = 0"
    by (simp add: mod_eq_0_iff_dvd)
  then have "unat (and (off + c) 3) = 0"
    using assms(3) by (simp add: unat_and_3 unat_word_ariths)
  then show ?thesis
    by (simp add: unat_eq_0)
qed

lemma cap_field_stable:
  assumes "config_stable r cfg w" and "DeviceFunction_valid f" and "and (cap_offset cap) 3 = 0"
    and "unat (cap_offset cap) + 16 < 256" and "c \<in> {4, 8, 12, 16}"
  shows "\<exists>w'. cap_field r f cap c w = (Ok (config_word r cfg f (cap_offset cap + c)), w') \<and>
    dev w' = dev w \<and> config_stable r cfg w'"
proof -
  have c: "and c 3 = 0" "unat (cap_offset cap) + unat c < 256"
    using assms(4,5) by auto
  then have "and (cap_offset cap + c) 3 = 0"
    by (intro aligned_add assms(3))
  from config_read_stable [OF assms(1,2) this] show ?thesis
    using c(2) by (simp add: cap_field_def add_ov_def)
qed

lemma cap_is_other:
  "cap_id cap \<noteq> 9 \<Longrightarrow> \<not> cap_is ty n cap"
  "ucast (private_header cap) < (16 :: u8) \<Longrightarrow> 16 \<le> n \<Longrightarrow> \<not> cap_is ty n cap"
  by (auto simp: cap_is_def)

lemmas cap_consts = CAP_BAR_OFFSET_def CAP_BAR_OFFSET_OFFSET_def CAP_LENGTH_OFFSET_def
  CAP_NOTIFY_OFF_MULTIPLIER_OFFSET_def PCI_CAP_ID_VNDR_def VIRTIO_PCI_CAP_COMMON_CFG_def
  VIRTIO_PCI_CAP_NOTIFY_CFG_def VIRTIO_PCI_CAP_ISR_CFG_def VIRTIO_PCI_CAP_DEVICE_CFG_def

lemma scan_capability_stable:
  assumes st: "config_stable r cfg w" and f: "DeviceFunction_valid f" and al: "and (cap_offset cap) 3 = 0"
    and fit: "cap_id cap = 9 \<Longrightarrow> unat (cap_offset cap) + 16 < 256"
  shows "\<exists>w'. scan_capability r f cap sc w = (Ok (note_capability r cfg f cap sc), w') \<and> dev w' = dev w \<and>
    config_stable r cfg w'"
proof (cases "cap_id cap = 9 \<and> \<not> ucast (private_header cap) < (16 :: u8)")
  case False
  then show ?thesis
    using st by (auto simp: scan_capability_def note_capability_def cap_is_other cap_consts)
next
  case True
  obtain w1 where w1: "cap_field r f cap 4 w = (Ok (config_word r cfg f (cap_offset cap + 4)), w1)" "dev w1 = dev w"
    "config_stable r cfg w1"
    using cap_field_stable [OF st f al fit, of 4] True by auto
  obtain w2 where w2: "cap_field r f cap 8 w1 = (Ok (config_word r cfg f (cap_offset cap + 8)), w2)" "dev w2 = dev w" "config_stable r cfg w2"
    using cap_field_stable [OF w1(3) f al fit, of 8] True w1(2) by auto
  obtain w3 where w3: "cap_field r f cap 12 w2 = (Ok (config_word r cfg f (cap_offset cap + 12)), w3)" "dev w3 = dev w" "config_stable r cfg w3"
    using cap_field_stable [OF w2(3) f al fit, of 12] True w2(2) by auto
  obtain w4 where w4: "cap_field r f cap 16 w3 = (Ok (config_word r cfg f (cap_offset cap + 16)), w4)" "dev w4 = dev w" "config_stable r cfg w4"
    using cap_field_stable [OF w3(3) f al fit, of 16] True w3(2) by auto
  have len: "(ucast (private_header cap) < (16 :: u8)) = False" "16 \<le> (ucast (private_header cap) :: u8)"
    using True by auto
  show ?thesis
    using True w1 w2 w3 w4
    by (simp add: scan_capability_def note_capability_def cap_is_def cap_consts cap_struct_def Let_def
        bind_Ok [where m = "cap_field r f cap 4"] bind_Ok [where m = "cap_field r f cap 8"]
        bind_Ok [where m = "cap_field r f cap 12"] bind_Ok [where m = "cap_field r f cap 16"] len)
qed

lemma find_snoc: "find P (xs @ [x]) = (case find P xs of Some y \<Rightarrow> Some y | None \<Rightarrow> if P x then Some x else None)"
  by (induction xs) simp_all

lemma cap_is_type: "cap_is ty n cap \<Longrightarrow> cap_is ty' n' cap \<Longrightarrow> ty = ty'"
  by (simp add: cap_is_def)

lemma note_capability_first:
  "note_capability r cfg f cap (first_structs r cfg f caps) = first_structs r cfg f (caps @ [cap])"
proof -
  have "cap_is 1 16 cap \<or> cap_is 2 20 cap \<or> cap_is 3 16 cap \<or> cap_is 4 16 cap \<or>
      (\<not> cap_is 1 16 cap \<and> \<not> cap_is 2 20 cap \<and> \<not> cap_is 3 16 cap \<and> \<not> cap_is 4 16 cap)"
    by blast
  then show ?thesis
    by (elim disjE; auto simp: note_capability_def first_structs_def find_snoc dest: cap_is_type split: option.splits)
qed

lemma note_capabilities_first:
  "foldl (\<lambda>sc cap. note_capability r cfg f cap sc) (first_structs r cfg f done') caps =
    first_structs r cfg f (done' @ caps)"
  by (induction caps arbitrary: done') (simp_all add: note_capability_first)

lemma scan_step_None: "scan_step r f (cap_iter f None, sc, w) = (Ok False, (cap_iter f None, sc, w))"
  by (simp add: scan_step_def CapabilityIterator_next_def bind_def zoom_def)

lemma scan_step_Some:
  assumes st: "config_stable r cfg w" and f: "DeviceFunction_valid f" and fit: "caps_fit r cfg f" and al: "and off 3 = 0"
  shows "\<exists>w'. scan_step r f (cap_iter f (Some off), sc, w) =
      (Ok True, (cap_iter f (next_capability (config_word r cfg f off)),
        note_capability r cfg f (cap_at r cfg f off) sc, w')) \<and> dev w' = dev w \<and> config_stable r cfg w'"
proof -
  let ?cap = "cap_at r cfg f off"
  obtain w1 where w1: "config_read_word r f off w = (Ok (config_word r cfg f off) :: (virtio_pci_error, u32) outcome, w1)"
    "dev w1 = dev w" "config_stable r cfg w1"
    using config_read_stable [OF st f al] by auto
  obtain w2 where w2: "scan_capability r f ?cap sc w1 = (Ok (note_capability r cfg f ?cap sc), w2)" "dev w2 = dev w1"
    "config_stable r cfg w2"
    using scan_capability_stable [OF w1(3) f, of ?cap sc] fit al by (auto simp: caps_fit_def cap_at_def)
  then show ?thesis
    using w1 by (intro exI [of _ w2])
      (simp add: scan_step_def CapabilityIterator_next_def bind_def andthen_def zoom_def cap_at_def)
qed

lemma scan_loop_chain:
  assumes "DeviceFunction_valid f" and "caps_fit r cfg f" and "cap_chain r cfg f off caps" and "config_stable r cfg w"
  shows "\<exists>w'. while_prog (scan_step r f) (\<lambda>s. s) (cap_iter f off, sc, w) =
      (Ok (), (cap_iter f None, foldl (\<lambda>sc cap. note_capability r cfg f cap sc) sc caps, w')) \<and> dev w' = dev w"
  using assms(3,4)
proof (induction arbitrary: sc w)
  case stop
  then show ?case
    using while_prog_stop [where c = "scan_step r f" and body = "\<lambda>s. s", OF scan_step_None] by fastforce
next
  case (link off caps)
  obtain w1 where w1: "scan_step r f (cap_iter f (Some off), sc, w) =
      (Ok True, (cap_iter f (next_capability (config_word r cfg f off)),
        note_capability r cfg f (cap_at r cfg f off) sc, w1))" "dev w1 = dev w" "config_stable r cfg w1"
    using scan_step_Some [OF link.prems assms(1,2) link.hyps(1)] by blast
  show ?case
    using link.IH [OF w1(3), of "note_capability r cfg f (cap_at r cfg f off) sc"]
      while_prog_step [where c = "scan_step r f" and body = "\<lambda>s. s", OF w1(1)] w1(2)
    by fastforce
qed

lemma next_capability_aligned: "next_capability h = Some off \<Longrightarrow> and off 3 = 0"
  by (auto simp: next_capability_def Let_def split: if_splits)

lemma endless_step:
  assumes "DeviceFunction_valid f" and "caps_fit r cfg f" and "scan_endless r cfg f s"
  shows "\<exists>t. scan_step r f s = (Ok True, t) \<and> scan_endless r cfg f t"
proof -
  obtain off sc w where s: "s = (cap_iter f (Some off), sc, w)" "and off 3 = 0" "config_stable r cfg w"
    "\<nexists>caps. cap_chain r cfg f (Some off) caps"
    using assms(3) by (auto simp: scan_endless_def)
  have no: "\<nexists>caps. cap_chain r cfg f (next_capability (config_word r cfg f off)) caps"
    using s by (blast intro: cap_chain.link)
  then obtain off' where "next_capability (config_word r cfg f off) = Some off'"
    by (cases "next_capability (config_word r cfg f off)") (auto intro: cap_chain.stop)
  then show ?thesis
    using scan_step_Some [OF s(3) assms(1,2) s(2), of sc] no next_capability_aligned s(1)
    by (fastforce simp: scan_endless_def)
qed

lemma scan_loop_cycle:
  assumes "DeviceFunction_valid f" and "caps_fit r cfg f" and "scan_endless r cfg f s"
  shows "while_prog (scan_step r f) (\<lambda>s. s) s = (Hang, s)"
  using endless_step [OF assms(1,2)] assms(3)
  by (intro while_prog_Hang [where I = "scan_endless r cfg f"]) blast+

lemma scan_capabilities_chain:
  assumes "DeviceFunction_valid f" and "caps_fit r cfg f" and "cap_chain r cfg f off caps" and "config_stable r cfg w"
  shows "\<exists>w'. scan_capabilities r f (cap_iter f off) w = (Ok (first_structs r cfg f caps), w') \<and> dev w' = dev w"
proof -
  have "first_structs r cfg f [] = cap_scan_empty"
    by (simp add: first_structs_def cap_scan_empty_def)
  then have "foldl (\<lambda>sc cap. note_capability r cfg f cap sc) cap_scan_empty caps = first_structs r cfg f caps"
    using note_capabilities_first [of r cfg f "[]" caps] by simp
  then show ?thesis
    using scan_loop_chain [OF assms, of cap_scan_empty]
    by (fastforce simp: scan_capabilities_def zoom_def andthen_def bind_def)
qed

lemma get_bar_region_Ok:
  assumes "get_bar_region E r f n al info w = (Ok v, w')"
  obtains b a sz where "PciRoot_bar_info r f (vc_bar info) w = (Ok b, w')" and "memory_address_size b = Some (a, sz)"
    and "a \<noteq> 0" and "debug (mmio_region r) \<Longrightarrow> unat (vc_offset info) + unat (vc_length info) \<le> unat sz"
    and "n \<le> ucast (vc_length info)"
    and "v = mmio_phys_to_virt E (a + ucast (vc_offset info)) (ucast (vc_length info))" and "v mod al = 0"
proof -
  obtain b w1 where b: "PciRoot_bar_info r f (vc_bar info) w = (Ok b, w1)"
    using assms by (auto simp: get_bar_region_def bind_Ok_iff)
  obtain a sz where m: "memory_address_size b = Some (a, sz)"
    using assms b by (cases "memory_address_size b") (auto simp: get_bar_region_def bind_Ok_iff)
  have a: "a \<noteq> 0"
    using assms b m by (auto simp: get_bar_region_def bind_Ok_iff)
  have p: "w1 = w'" "debug (mmio_region r) \<longrightarrow> unat (vc_offset info) + unat (vc_length info) < 2 ^ 32"
    "\<not> vc_offset info + vc_length info > sz" "\<not> n > ucast (vc_length info)"
    "v = mmio_phys_to_virt E (a + ucast (vc_offset info)) (ucast (vc_length info))" "v mod al = 0"
    using assms b m a
    by (auto simp: get_bar_region_def bind_Ok_iff ov_Ok_iff Let_def split: if_splits)
  have "unat (vc_offset info) + unat (vc_length info) \<le> unat sz" if "debug (mmio_region r)"
    using p(2,3) that by (simp add: not_less word_le_nat_alt unat_word_ariths)
  then show ?thesis
    using that [OF b [unfolded p(1)] m a _ _ p(5,6)] p(4) by (simp add: not_less)
qed

lemma get_bar_region_inside:
  assumes "get_bar_region E r f n al info w = (Ok v, w')" and "debug (mmio_region r)"
  shows "region_inside E r f info n al v"
proof (rule get_bar_region_Ok [OF assms(1)])
  fix b a sz
  assume "PciRoot_bar_info r f (vc_bar info) w = (Ok b, w')" and "memory_address_size b = Some (a, sz)"
    and "a \<noteq> 0" and "debug (mmio_region r) \<Longrightarrow> unat (vc_offset info) + unat (vc_length info) \<le> unat sz"
    and n: "n \<le> ucast (vc_length info)"
    and "v = mmio_phys_to_virt E (a + ucast (vc_offset info)) (ucast (vc_length info))" and "v mod al = 0"
  moreover have "unat n \<le> unat (vc_length info)"
    using n by (simp add: word_le_nat_alt unat_ucast_up)
  ultimately show ?thesis
    unfolding region_inside_def using assms(2)
    by (intro exI [of _ w] exI [of _ w'] exI [of _ b] exI [of _ a] exI [of _ sz]) simp
qed

lemma get_bar_region_slice_inside:
  assumes "get_bar_region_slice E r f n al info w = (Ok s, w')" and "debug (mmio_region r)"
  shows "region_inside E r f info n al (fst s) \<and> snd s = ucast (vc_length info) div n"
  using assms(1) get_bar_region_inside [OF _ assms(2)] by (auto simp: get_bar_region_slice_def bind_Ok_iff)

lemma ok_or_Ok_iff: "ok_or x e s = (Ok y, t) \<longleftrightarrow> x = Some y \<and> t = s"
  by (auto simp: ok_or_def split: option.splits)

lemma PciTransport_new_Ok:
  assumes "PciTransport_new E r f w = (Ok t, w')" and dbg: "debug (mmio_region r)"
  obtains common notify isr where
    "region_inside E r f common 56 8 (common_cfg t)"
    and "region_inside E r f notify 2 2 (fst (notify_region t))"
    and "snd (notify_region t) = ucast (vc_length notify) div 2"
    and "even (notify_off_multiplier t)" and "region_inside E r f isr 1 1 (isr_status t)"
    and "\<And>s. config_space t = Some s \<Longrightarrow> \<exists>cfg. region_inside E r f cfg 4 4 (fst s) \<and> snd s = ucast (vc_length cfg) div 4"
proof -
  obtain w1 common notify isr w2 w3 w4 w5 w6 w7 and sc :: cap_scan where
    "get_bar_region E r f 56 8 common w1 = (Ok (common_cfg t), w2)"
    "get_bar_region_slice E r f 2 2 notify w3 = (Ok (notify_region t), w4)"
    "even (notify_off_multiplier t)"
    "get_bar_region E r f 1 1 isr w5 = (Ok (isr_status t), w6)"
    and d: "(case sc_device sc of
        Some device_cfg \<Rightarrow> bind (get_bar_region_slice E r f 4 4 device_cfg) (\<lambda>s. ret (Some s))
      | None \<Rightarrow> ret None) w6 = (Ok (config_space t), w7)"
    using assms(1)
    by (auto simp: PciTransport_new_def bind_Ok_iff Let_def ok_or_Ok_iff even_iff_mod_2_eq_zero [symmetric]
        simp del: not_mod_2_eq_0_eq_1 split: if_splits)
  moreover have "\<exists>cfg. region_inside E r f cfg 4 4 (fst s) \<and> snd s = ucast (vc_length cfg) div 4"
    if "config_space t = Some s" for s
    using d that get_bar_region_slice_inside [OF _ dbg] by (auto simp: bind_Ok_iff split: option.splits) blast
  ultimately show ?thesis
    using that get_bar_region_inside [OF _ dbg] get_bar_region_slice_inside [OF _ dbg] by meson
qed

end
