(* ===== verification/PciProps.thy ===== *)
theory PciProps
  imports PciTransport Sample
begin

text \<open>
  The properties of the PCI bus and of the construction of the PCI transport.
\<close>

section \<open>Instances for the witnesses\<close>

text \<open>
  A bus with one device, function 0 of device 2 on bus 0, which is a VirtIO block device without
  capabilities; and a function whose only capability names itself as the next one.
\<close>

definition one_device :: "usize \<Rightarrow> u32" where
  "one_device a = (if a = 0x1000 then 0x10421af4 else if a = 0x1008 then 0x01800001
     else if a = 0x100c then 0 else 0xffffffff)"

definition one_device_root :: "unit pci_root" where
  "one_device_root = \<lparr>mmio_region = sample one_device 0 (\<lambda>_ m. m), root_cam = MmioCam\<rparr>"



text \<open>A configuration space whose base address registers are of 4 KiB.\<close>

definition bar_io :: "(usize \<Rightarrow> u32) device_io" where
  "bar_io =
     \<lparr>read_volatile_u32_at = (\<lambda>a d. (Inr (d a), d)),
      read_volatile_u8_at = (\<lambda>a d. (Inr 0, d)),
      write_volatile_u32_at = (\<lambda>a v d.
        (Inr (), d(a := or (and v (not (mask 12))) (and (d a) (not (not (mask 12))))))),
      write_volatile_u8_at = (\<lambda>a v d. (Inr (), d)),
      io_paddr = 0x30000000, io_vaddr = 0x30000000\<rparr>"

definition bar_root :: "bool \<Rightarrow> (usize \<Rightarrow> u32) pci_root" where
  "bar_root dbg = \<lparr>mmio_region = \<lparr>io = bar_io, hal = sample_hal, dma = sample_dma 0 (\<lambda>_ s. s), debug = dbg\<rparr>,
     root_cam = Ecam\<rparr>"

text \<open>A VirtIO function with three structures in its first BAR.\<close>

definition virtio_config :: "usize \<Rightarrow> u32" where
  "virtio_config a =
     (if a = 0 then 0x10421af4 else if a = 4 then 0x100000 else if a = 0x10 then 0xfe000000
      else if a = 0x34 then 0x40
      else if a = 0x40 then 0x01105009 else if a = 0x4c then 0x38
      else if a = 0x50 then 0x02146409 else if a = 0x58 then 0x100 else if a = 0x5c then 0x100
      else if a = 0x60 then 4
      else if a = 0x64 then 0x03100009 else if a = 0x6c then 0x200 else if a = 0x70 then 1 else 0)"

definition virtio_world :: "(usize \<Rightarrow> u32) world" where
  "virtio_world = \<lparr>dev = virtio_config, mem = (\<lambda>_. 0), trace = []\<rparr>"

definition identity_env :: "(usize \<Rightarrow> u32) pci_env" where
  "identity_env = \<lparr>mmio_phys_to_virt = (\<lambda>p n. p), vread = (\<lambda>n a d. (0, d)), vwrite = (\<lambda>n a v d. d)\<rparr>"

lemma sample_config_stable: "config_stable \<lparr>mmio_region = sample_st regs len eff, root_cam = c\<rparr> regs w"
  by (simp add: config_stable_def sample_st_def sample_io_def)

lemma one_device_stable: "config_stable one_device_root one_device w"
  unfolding one_device_root_def by (rule sample_config_stable)

lemma config_word_first: "config_word r cfg (slot 0 0) off = cfg (ucast off)"
proof -
  have "unat (ucast (config_address (root_cam r) (slot 0 0) off) :: usize) = unat off"
    using unat_config_address [OF slot_valid [of 0 0], of "root_cam r" off]
    by (simp add: unat_ucast_up function_index_def slot_def)
  then have "ucast (config_address (root_cam r) (slot 0 0) off) = (ucast off :: usize)"
    by (simp add: word_unat_eq_iff unat_ucast_up)
  then show ?thesis
    by (simp add: config_word_def)
qed

lemma bar_root_registers:
  "config_registers (bar_root dbg) (\<lambda>d. d) (\<lambda>a v d. d(a := or (and v (not (mask 12))) (and (d a) (mask 12))))"
  "masked_register (\<lambda>d. d) (\<lambda>a v d. d(a := or (and v (not (mask 12))) (and (d a) (mask 12)))) a (not (mask 12))"
  by (simp_all add: config_registers_def masked_register_def bar_root_def bar_io_def)

section \<open>Configuration space\<close>

text \<open>
  C30: Every register of every function on the bus has its own address: for a valid function and an
  aligned register the address is word-aligned, inside the region of the access mechanism, and
  no other function or register has it. For any other function or register the access panics.
\<close>

theorem config_addresses_unique:
  "if DeviceFunction_valid f \<and> and i 3 = 0 then
     \<exists>a. cam_offset r f i w = (Ok a, w) \<and> a < Cam_size (root_cam r) \<and> and a 3 = 0 \<and>
       (\<forall>g j v. cam_offset r g j v = (Ok a :: ('e, u32) outcome, v) \<longrightarrow> g = f \<and> j = i)
   else cam_offset r f i w = (Panic, w)"
proof (cases "DeviceFunction_valid f \<and> and i 3 = 0")
  case True
  let ?a = "config_address (root_cam r) f i"
  have "g = f \<and> j = i" if "cam_offset r g j v = (Ok ?a :: ('e, u32) outcome, v)" for g j v
    using that True config_address_inj [of g f "root_cam r" j i]
    by (auto simp: cam_offset_eq split: if_splits)
  then show ?thesis
    using True config_address_less config_address_aligned by (simp add: cam_offset_eq)
next
  case False
  then show ?thesis
    unfolding cam_offset_eq by (simp only: if_False)
qed

theorem config_addresses_unique_witness:
  "\<exists>a. cam_offset one_device_root (slot 0 16) 8 sample_world = (Ok a :: (pci_error, u32) outcome, sample_world) \<and>
     and a 3 = 0"
  using config_addresses_unique [of "slot 0 16" 8 one_device_root sample_world, where 'e = pci_error] slot_valid [of 16 0]
  by auto

section \<open>Enumeration of a bus\<close>

text \<open>
  C28: On a configuration space that does not change, a loop over \<^verbatim>\<open>enumerate_bus\<close> sees exactly the
  functions that are present, in the order of device and function number, each with the
  identification its registers hold, and then ends.
\<close>

theorem enumeration_exact:
  assumes "config_stable r cfg w"
  shows "bus_yields r (enumerate_bus bus, w) xs \<longleftrightarrow> xs = bus_functions r cfg bus"
proof -
  have "enumerate_bus bus = slot bus 0"
    by (simp add: enumerate_bus_def slot_def)
  then show ?thesis
    using bus_yields_slots [OF assms, of 0 bus xs] by (simp add: bus_functions_slots)
qed

lemma one_device_info:
  "function_info one_device_root one_device (slot 0 16) =
     \<lparr>vendor_id = 0x1af4, device_id = 0x1042, dev_class = 1, sub_class = 0x80, prog_if = 0, revision = 1,
      header_type = Standard\<rparr>"
  by (simp add: function_info_def config_word_def config_address_def function_index_def slot_def one_device_def
      one_device_root_def HeaderType_from_def Let_def)

lemma one_device_functions:
  "bus_functions one_device_root one_device 0 =
     [(\<lparr>df_bus = 0, df_device = 2, df_function = 0\<rparr>,
       \<lparr>vendor_id = 0x1af4, device_id = 0x1042, dev_class = 1, sub_class = 0x80, prog_if = 0, revision = 1,
        header_type = Standard\<rparr>)]"
proof -
  have idx: "function_index (slot 0 j) = j" if "j < 256" for j
    using that by (simp add: function_index_def slot_def unat_of_nat)
  have present: "function_present one_device_root one_device (slot 0 j) \<longleftrightarrow> j = 16" if "j < 256" for j
  proof -
    let ?a = "ucast (config_address MmioCam (slot 0 j) 0) :: usize"
    have a: "unat ?a = j * 256"
      using unat_config_address [OF slot_valid [OF that, of 0], of MmioCam 0] idx [OF that]
      by (simp add: unat_ucast_up)
    have "one_device ?a \<noteq> 0xffffffff \<longleftrightarrow> ?a = 0x1000 \<or> ?a = 0x1008 \<or> ?a = 0x100c"
      by (auto simp: one_device_def)
    also have "\<dots> \<longleftrightarrow> j = 16"
      unfolding word_unat_eq_iff a by (simp, linarith?)
    finally show ?thesis
      by (simp add: function_present_def config_word_def one_device_root_def)
  qed
  have "filter (\<lambda>j. function_present one_device_root one_device (slot 0 j)) [0..<256] = filter (\<lambda>j. j = 16) [0..<256]"
    by (rule filter_cong) (simp_all add: present)
  also have "\<dots> = [16]"
    by code_simp
  finally show ?thesis
    unfolding bus_functions_slots by (simp add: one_device_info) (simp add: slot_def)
qed

theorem enumeration_exact_witness:
  "bus_yields one_device_root (enumerate_bus 0, sample_world)
     [(\<lparr>df_bus = 0, df_device = 2, df_function = 0\<rparr>,
       \<lparr>vendor_id = 0x1af4, device_id = 0x1042, dev_class = 1, sub_class = 0x80, prog_if = 0, revision = 1,
        header_type = Standard\<rparr>)]"
  using enumeration_exact [OF one_device_stable [of sample_world], of 0] by (simp add: one_device_functions)

text \<open>
  C29: Whatever the devices answer, and even if they change while they are enumerated, a loop over
  \<^verbatim>\<open>enumerate_bus\<close> sees only valid functions of the bus, each at most once and in increasing order.
\<close>

theorem enumeration_well_formed:
  assumes "bus_yields r (enumerate_bus bus, w) xs"
  shows "(\<forall>(f, info) \<in> set xs. DeviceFunction_valid f \<and> df_bus f = bus) \<and> distinct (map fst xs) \<and>
    sorted_wrt (<) (map (\<lambda>(f, info). function_index f) xs)"
proof -
  note y = bus_yields_ordered [OF assms]
  have "distinct (map (\<lambda>(f, info). function_index f) xs)"
    using y strict_sorted_iff by blast
  then have "distinct (map function_index (map fst xs))"
    by (simp add: case_prod_beta' comp_def)
  then have "distinct (map fst xs)"
    by (simp only: distinct_map)
  then show ?thesis
    using y by (auto simp: enumerate_bus_def)
qed

theorem enumeration_well_formed_witness:
  "\<exists>xs. xs \<noteq> [] \<and> bus_yields one_device_root (enumerate_bus 0, sample_world) xs \<and>
     (\<forall>(f, info) \<in> set xs. DeviceFunction_valid f)"
proof -
  have y: "bus_yields one_device_root (slot 0 0, sample_world) (bus_functions one_device_root one_device 0)"
    using bus_yields_slots [OF one_device_stable [of sample_world], of 0 0] by (simp add: bus_functions_slots)
  have "enumerate_bus 0 = slot 0 0"
    by (simp add: enumerate_bus_def slot_def)
  then show ?thesis
    using enumeration_well_formed [of one_device_root 0 sample_world "bus_functions one_device_root one_device 0"] y
    by (intro exI [of _ "bus_functions one_device_root one_device 0"]) (auto simp: one_device_functions)
qed

section \<open>Base address registers\<close>



section \<open>The PCI transport\<close>





text \<open>
  C33: When the PCI transport is constructed in a build with overflow checks, each structure it will
  use lies inside a memory BAR of the device that has an address: the offset and length of the
  structure do not exceed the size of the BAR, the structure is as long as its type and aligned
  as its type, and notification offsets are multiples of two bytes.
\<close>

theorem pci_new_regions_inside:
  assumes "PciTransport_new E r f w = (Ok t, w')" and "debug (mmio_region r)"
  shows "\<exists>common notify isr. region_inside E r f common 56 8 (common_cfg t) \<and>
    region_inside E r f notify 2 2 (fst (notify_region t)) \<and>
    snd (notify_region t) = ucast (vc_length notify) div 2 \<and> even (notify_off_multiplier t) \<and>
    region_inside E r f isr 1 1 (isr_status t) \<and>
    (case config_space t of None \<Rightarrow> True
     | Some (ptr, n) \<Rightarrow> \<exists>cfg. region_inside E r f cfg 4 4 ptr \<and> n = ucast (vc_length cfg) div 4)"
proof (rule PciTransport_new_Ok [OF assms])
  fix common notify isr
  assume "region_inside E r f common 56 8 (common_cfg t)"
    and "region_inside E r f notify 2 2 (fst (notify_region t))"
    and "snd (notify_region t) = ucast (vc_length notify) div 2"
    and "even (notify_off_multiplier t)" and "region_inside E r f isr 1 1 (isr_status t)"
    and "\<And>s. config_space t = Some s \<Longrightarrow> \<exists>cfg. region_inside E r f cfg 4 4 (fst s) \<and> snd s = ucast (vc_length cfg) div 4"
  then show ?thesis
    by (intro exI [of _ common] exI [of _ notify] exI [of _ isr]) (auto split: option.splits)
qed

lemma bar_root_stable: "config_stable (bar_root dbg) (dev w) w"
  by (simp add: config_stable_def bar_root_def bar_io_def)

lemma virtio_chain:
  "cap_chain r virtio_config (slot 0 0) (Some 0x40)
     (map (cap_at r virtio_config (slot 0 0)) [0x40, 0x50, 0x64])"
proof -
  let ?next = "\<lambda>off. next_capability (config_word r virtio_config (slot 0 0) off)"
  have n: "?next 0x40 = Some 0x50" "?next 0x50 = Some 0x64" "?next 0x64 = None"
    by (simp_all add: config_word_first virtio_config_def next_capability_def)
  have "cap_chain r virtio_config (slot 0 0) (Some 0x64) [cap_at r virtio_config (slot 0 0) 0x64]"
    by (rule cap_chain.link) (simp_all add: n cap_chain.stop)
  then have "cap_chain r virtio_config (slot 0 0) (Some 0x50)
      (map (cap_at r virtio_config (slot 0 0)) [0x50, 0x64])"
    unfolding list.map by (intro cap_chain.link) (simp_all add: n)
  then show ?thesis
    unfolding list.map by (intro cap_chain.link) (simp_all add: n)
qed

lemma virtio_structs:
  "first_structs r virtio_config (slot 0 0) (map (cap_at r virtio_config (slot 0 0)) [0x40, 0x50, 0x64]) =
     \<lparr>sc_common = Some \<lparr>vc_bar = 0, vc_offset = 0, vc_length = 0x38\<rparr>,
      sc_notify = Some \<lparr>vc_bar = 0, vc_offset = 0x100, vc_length = 0x100\<rparr>, sc_multiplier = 4,
      sc_isr = Some \<lparr>vc_bar = 0, vc_offset = 0x200, vc_length = 1\<rparr>, sc_device = None\<rparr>"
  by (simp add: first_structs_def cap_is_def cap_at_def cap_struct_def config_word_first virtio_config_def)

lemma virtio_fit: "caps_fit r virtio_config (slot 0 0)"
proof -
  have "off = 0x40 \<or> off = 0x50 \<or> off = 0x64" if "ucast (virtio_config (ucast off)) = (9 :: u8)" for off :: u8
    using that by (simp add: virtio_config_def word_unat_eq_iff unat_ucast_up split: if_splits)
  then show ?thesis
    by (fastforce simp: caps_fit_def cap_at_def config_word_first)
qed

lemma virtio_bar:
  assumes "dev w = virtio_config"
  shows "\<exists>w'. PciRoot_bar_info (bar_root True) (slot 0 0) 0 w =
    (Ok (MemoryBar Width32 False 0xfe000000 0x1000), w') \<and> dev w' = virtio_config"
proof -
  have wf: "bar_wf 12 (MemoryBar Width32 False 0xfe000000 0x1000)"
    by (simp add: bar_wf_def take_bit_eq_mod)
  have "bar_register_at (bar_root True) (slot 0 0) 0 = 0x10"
    by (simp add: bar_register_at_def config_address_def function_index_def slot_def)
  then show ?thesis
    using bar_info_decodes [OF bar_root_registers(1) [of True] slot_valid [of 0 0] _ bar_root_registers(2) wf,
        where i = 0 and w = w] assms
    by (simp add: virtio_config_def)
qed

lemma virtio_region:
  assumes "dev w = virtio_config" and "vc_bar info = 0" and "unat (vc_offset info) + unat (vc_length info) \<le> 0x1000"
    and "n \<le> ucast (vc_length info)" and "(0xfe000000 + ucast (vc_offset info)) mod al = 0"
  shows "\<exists>w'. get_bar_region identity_env (bar_root True) (slot 0 0) n al info w =
    (Ok (0xfe000000 + ucast (vc_offset info)), w') \<and> dev w' = virtio_config"
proof -
  obtain w' where b: "PciRoot_bar_info (bar_root True) (slot 0 0) 0 w =
      (Ok (MemoryBar Width32 False 0xfe000000 0x1000), w')" "dev w' = virtio_config"
    using virtio_bar [OF assms(1)] by blast
  have "unat (vc_offset info + vc_length info) = unat (vc_offset info) + unat (vc_length info)"
    using assms(3) by (simp add: unat_word_ariths)
  then have "\<not> vc_offset info + vc_length info > 0x1000"
    using assms(3) by (simp add: word_less_nat_alt)
  moreover have "unat (0xfe000000 :: u64) + unat (ucast (vc_offset info) :: u64) < 2 ^ 64"
    using unsigned_less [where 'a = nat and w = "vc_offset info"] by (simp add: unat_ucast_up)
  ultimately show ?thesis
    using b assms
    by (simp add: get_bar_region_def bind_def map_err_def add_ov_def identity_env_def Let_def not_less)
qed

theorem pci_new_regions_inside_witness:
  "\<exists>t w'. PciTransport_new identity_env (bar_root True) (slot 0 0) virtio_world = (Ok t, w') \<and>
     common_cfg t = 0xfe000000 \<and> even (notify_off_multiplier t)"
proof -
  let ?r = "bar_root True" and ?f = "slot 0 0"
  have st: "config_stable ?r virtio_config w" if "dev w = virtio_config" for w
    using bar_root_stable [of True w] that by simp
  note read = config_read_stable [OF st slot_valid [of 0 0], unfolded config_word_first]
  obtain w1 where w1: "config_read_word ?r ?f 0 virtio_world = (Ok 0x10421af4 :: (virtio_pci_error, u32) outcome, w1)"
    "dev w1 = virtio_config"
    using read [of virtio_world 0] by (auto simp: virtio_world_def virtio_config_def)
  obtain w2 where w2: "config_read_word ?r ?f 4 w1 = (Ok 0x100000 :: (virtio_pci_error, u32) outcome, w2)"
    "dev w2 = virtio_config"
    using read [of w1 4] w1(2) by (auto simp: virtio_config_def)
  obtain w3 where w3: "config_read_word ?r ?f 0x34 w2 = (Ok 0x40 :: (virtio_pci_error, u32) outcome, w3)"
    "dev w3 = virtio_config"
    using read [of w2 "0x34"] w2(2) by (auto simp: virtio_config_def)
  have caps: "capabilities ?r ?f w1 = (Ok (cap_iter ?f (Some 0x40)) :: (virtio_pci_error, _) outcome, w3)"
    using w2 w3
    by (simp add: capabilities_def capabilities_offset_def get_status_command_def STATUS_COMMAND_OFFSET_def
        Status_CAPABILITIES_LIST_def Status_all_def bind_def)
  obtain w4 where w4: "scan_capabilities ?r ?f (cap_iter ?f (Some 0x40)) w3 =
      (Ok (first_structs ?r virtio_config ?f (map (cap_at ?r virtio_config ?f) [0x40, 0x50, 0x64])), w4)"
    "dev w4 = virtio_config"
    using scan_capabilities_chain [OF slot_valid [of 0 0] virtio_fit virtio_chain st [OF w3(2)]] w3(2) by auto
  obtain w5 where w5: "get_bar_region identity_env ?r ?f 56 8 \<lparr>vc_bar = 0, vc_offset = 0, vc_length = 0x38\<rparr> w4 =
      (Ok 0xfe000000, w5)" "dev w5 = virtio_config"
    using virtio_region [OF w4(2), of "\<lparr>vc_bar = 0, vc_offset = 0, vc_length = 0x38\<rparr>" 56 8] by auto
  obtain w6 where w6: "get_bar_region identity_env ?r ?f 2 2 \<lparr>vc_bar = 0, vc_offset = 0x100, vc_length = 0x100\<rparr> w5 =
      (Ok 0xfe000100, w6)" "dev w6 = virtio_config"
    using virtio_region [OF w5(2), of "\<lparr>vc_bar = 0, vc_offset = 0x100, vc_length = 0x100\<rparr>" 2 2] by auto
  obtain w7 where w7: "get_bar_region identity_env ?r ?f 1 1 \<lparr>vc_bar = 0, vc_offset = 0x200, vc_length = 1\<rparr> w6 =
      (Ok 0xfe000200, w7)"
    using virtio_region [OF w6(2), of "\<lparr>vc_bar = 0, vc_offset = 0x200, vc_length = 1\<rparr>" 1 1] by auto
  have "\<exists>t. PciTransport_new identity_env ?r ?f virtio_world = (Ok t, w7) \<and> common_cfg t = 0xfe000000"
    using w1(1) caps w4(1) [unfolded virtio_structs] w5(1) w6(1) w7
    by (simp add: PciTransport_new_def bind_def VIRTIO_VENDOR_ID_def Let_def ok_or_def
        get_bar_region_slice_def)
  moreover have "debug (mmio_region ?r)"
    by (simp add: bar_root_def)
  ultimately show ?thesis
    using pci_new_regions_inside by blast
qed

text \<open>
  Without overflow checks the sum of offset and length wraps, and a structure far outside its BAR is
  accepted: here 6 KiB that begin 4 KiB below the end of the 32-bit address space relative to a BAR of 4 KiB.
\<close>

lemma bar_region_wraps:
  assumes "\<not> debug (mmio_region r)" and "PciRoot_bar_info r f b w = (Ok (MemoryBar ty p a 0x1000), w')" and "a \<noteq> 0"
    and "mmio_phys_to_virt E (a + 0xfffff000) 0x1800 mod 8 = 0"
  shows "get_bar_region E r f 56 8 \<lparr>vc_bar = b, vc_offset = 0xfffff000, vc_length = 0x1800\<rparr> w =
    (Ok (mmio_phys_to_virt E (a + 0xfffff000) 0x1800), w')"
  using assms by (simp add: get_bar_region_def bind_def map_err_def add_ov_def Let_def)

end
