(* ===== verification/QemuHal.thy ===== *)
theory QemuHal
  imports VirtQueue Bytes
begin

text \<open>
  The platform of the test kernel, \<^verbatim>\<open>qemu/src/my_impl.rs\<close>: identity address translation, device
  registers at fixed addresses, and pages from a pointer that only grows, the \<^verbatim>\<open>DMA_PADDR\<close> of
  \<^verbatim>\<open>qemu/src/main.rs\<close>. The accesses to physical addresses are the parameter \<open>B\<close>. Sums of addresses
  wrap, as they do in builds without overflow checks.
\<close>

section \<open>State\<close>

text \<open>
  \<open>fresh_memory\<close> is the contents of the memory from which pages are taken. The atomic counter
  is read and increased in one step.
\<close>

record 'h qemu_state =
  DMA_PADDR :: usize
  fresh_memory :: memory
  hardware :: 'h

record 'h phys_bus =
  bus_read_u32 :: "usize \<Rightarrow> 'h \<Rightarrow> u32 \<times> 'h"
  bus_read_u8 :: "usize \<Rightarrow> 'h \<Rightarrow> u8 \<times> 'h"
  bus_write_u32 :: "usize \<Rightarrow> u32 \<Rightarrow> 'h \<Rightarrow> 'h"
  bus_write_u8 :: "usize \<Rightarrow> u8 \<Rightarrow> 'h \<Rightarrow> 'h"

definition DMA_PADDR_fetch_add :: "usize \<Rightarrow> 'h qemu_state \<Rightarrow> usize \<times> 'h qemu_state" where
  "DMA_PADDR_fetch_add n s = (DMA_PADDR s, s\<lparr>DMA_PADDR := DMA_PADDR s + n\<rparr>)"

section \<open>Register regions\<close>

record safe_io_region =
  region_base :: usize
  region_len :: usize

definition SafeIoRegion_new :: "usize \<Rightarrow> usize \<Rightarrow> safe_io_region" where
  "SafeIoRegion_new b l = \<lparr>region_base = b, region_len = l\<rparr>"

definition SafeIoRegion_io :: "'h phys_bus \<Rightarrow> safe_io_region \<Rightarrow> 'h qemu_state device_io" where
  "SafeIoRegion_io B rg =
     \<lparr>read_volatile_u32_at = (\<lambda>off s.
        (case bus_read_u32 B (region_base rg + off) (hardware s) of (v, h) \<Rightarrow>
           (Inr v, s\<lparr>hardware := h\<rparr>))),
      read_volatile_u8_at = (\<lambda>off s.
        (case bus_read_u8 B (region_base rg + off) (hardware s) of (v, h) \<Rightarrow>
           (Inr v, s\<lparr>hardware := h\<rparr>))),
      write_volatile_u32_at = (\<lambda>off data s.
        (Inr (), s\<lparr>hardware := bus_write_u32 B (region_base rg + off) data (hardware s)\<rparr>)),
      write_volatile_u8_at = (\<lambda>off data s.
        (Inr (), s\<lparr>hardware := bus_write_u8 B (region_base rg + off) data (hardware s)\<rparr>)),
      io_paddr = region_base rg, io_vaddr = region_base rg\<rparr>"

section \<open>Pages\<close>

record qemu_page =
  pa :: usize
  page_size :: usize

definition Page_new :: "usize \<Rightarrow> usize \<Rightarrow> qemu_page" where
  "Page_new p n = \<lparr>pa = p, page_size = n\<rparr>"

definition Page_paddr :: "qemu_page \<Rightarrow> usize" where
  "Page_paddr p = pa p"

definition Page_vaddr :: "qemu_page \<Rightarrow> usize" where
  "Page_vaddr p = pa p"

text \<open>The typed view of a page: the three structures of a queue, read at their offsets.\<close>

definition word_at :: "memory \<Rightarrow> usize \<Rightarrow> nat \<Rightarrow> 'n::len word" where
  "word_at m a n = of_le_bytes (phys_bytes m a n)"

definition descriptor_at :: "memory \<Rightarrow> usize \<Rightarrow> descriptor" where
  "descriptor_at m a =
     \<lparr>d_addr = word_at m a 8, d_len = word_at m (a + 8) 4, d_flags = word_at m (a + 12) 2,
      d_next = word_at m (a + 14) 2\<rparr>"

definition avail_ring_at :: "nat \<Rightarrow> memory \<Rightarrow> usize \<Rightarrow> avail_ring" where
  "avail_ring_at N m a =
     \<lparr>a_flags = word_at m a 2, a_idx = word_at m (a + 2) 2,
      a_ring = map (\<lambda>i. word_at m (a + 4 + 2 * of_nat i) 2) [0..<N],
      used_event = word_at m (a + 4 + 2 * of_nat N) 2\<rparr>"

definition used_ring_at :: "nat \<Rightarrow> memory \<Rightarrow> usize \<Rightarrow> used_ring" where
  "used_ring_at N m a =
     \<lparr>u_flags = word_at m a 2, u_idx = word_at m (a + 2) 2,
      u_ring = map (\<lambda>i. \<lparr>ue_id = word_at m (a + 4 + 8 * of_nat i) 4,
                         ue_len = word_at m (a + 8 + 8 * of_nat i) 4\<rparr>) [0..<N],
      avail_event = word_at m (a + 4 + 8 * of_nat N) 2\<rparr>"

definition Page_queue_ref_mut :: "nat \<Rightarrow> memory \<Rightarrow> qemu_page \<Rightarrow> queue_layout \<Rightarrow> queue_mut_ref" where
  "Page_queue_ref_mut N m p layout =
     \<lparr>descriptor_table =
        map (\<lambda>i. descriptor_at m (pa p + descriptor_table_offset layout + 16 * of_nat i)) [0..<N],
      the_avail_ring = avail_ring_at N m (pa p + avail_ring_offset layout),
      the_used_ring = used_ring_at N m (pa p + used_ring_offset layout)\<rparr>"

section \<open>The platform\<close>

definition MyHalImpl_dma_alloc :: "nat \<Rightarrow> usize \<Rightarrow> 'h qemu_state \<Rightarrow> queue_page \<times> 'h qemu_state" where
  "MyHalImpl_dma_alloc N n s =
     (case DMA_PADDR_fetch_add (PAGE_SIZE * n) s of (paddr, s') \<Rightarrow>
        let page = Page_new paddr (PAGE_SIZE * n)
        in (\<lparr>pg_paddr = Page_paddr page, pg_vaddr = Page_vaddr page, pg_len = page_size page,
             queue_ref_mut = Page_queue_ref_mut N (fresh_memory s) page\<rparr>, s'))"

definition MyHalImpl_dma_alloc_buf :: "usize \<Rightarrow> 'h qemu_state \<Rightarrow> device_page \<times> 'h qemu_state" where
  "MyHalImpl_dma_alloc_buf n s =
     (case DMA_PADDR_fetch_add (PAGE_SIZE * n) s of (paddr, s') \<Rightarrow>
        let page = Page_new paddr (PAGE_SIZE * n)
        in (\<lparr>pg_paddr = Page_paddr page, pg_vaddr = Page_vaddr page, pg_len = page_size page\<rparr>, s'))"

definition MyHalImpl_to_paddr :: "usize \<Rightarrow> usize" where
  "MyHalImpl_to_paddr va = va"

definition MyHalImpl :: "nat \<Rightarrow> 'h qemu_state hal" where
  "MyHalImpl N =
     \<lparr>dma_alloc = MyHalImpl_dma_alloc N, dma_alloc_buf = MyHalImpl_dma_alloc_buf,
      to_paddr = MyHalImpl_to_paddr\<rparr>"

section \<open>Notions of the specification\<close>

text \<open>A sequence of requests for pages, and the areas that are given out, as first address and length.\<close>

datatype dma_request = QueuePages nat usize | BufferPages usize

fun dma_areas :: "dma_request list \<Rightarrow> 'h qemu_state \<Rightarrow> (usize \<times> usize) list" where
  "dma_areas [] s = []"
| "dma_areas (QueuePages N n # reqs) s =
     (case MyHalImpl_dma_alloc N n s of (p, s') \<Rightarrow> (pg_paddr p, pg_len p) # dma_areas reqs s')"
| "dma_areas (BufferPages n # reqs) s =
     (case MyHalImpl_dma_alloc_buf n s of (p, s') \<Rightarrow> (pg_paddr p, pg_len p) # dma_areas reqs s')"

fun request_pages :: "dma_request \<Rightarrow> nat" where
  "request_pages (QueuePages N n) = unat n"
| "request_pages (BufferPages n) = unat n"

definition area_before :: "usize \<times> usize \<Rightarrow> usize \<times> usize \<Rightarrow> bool" where
  "area_before x y \<longleftrightarrow> unat (fst x) + unat (snd x) \<le> unat (fst y)"

text \<open>The memory from which pages are taken is zero, and the next page is aligned and not null.\<close>

definition pool_fresh :: "'h qemu_state \<Rightarrow> bool" where
  "pool_fresh s \<longleftrightarrow> (\<forall>a. DMA_PADDR s \<le> a \<longrightarrow> fresh_memory s a = 0) \<and>
     0 < unat (DMA_PADDR s) \<and> unat (DMA_PADDR s) < 2 ^ 43 \<and> unat (DMA_PADDR s) mod 4096 = 0"

definition pool_of :: "'h qemu_state world \<Rightarrow> usize \<times> memory" where
  "pool_of w = (DMA_PADDR (dev w), fresh_memory (dev w))"

abbreviation qemu_platform ::
  "nat \<Rightarrow> 'h phys_bus \<Rightarrow> safe_io_region \<Rightarrow>
    (u16 \<Rightarrow> queue_mut_ref \<Rightarrow> memory \<Rightarrow> 'h qemu_state \<Rightarrow> used_ring \<times> memory \<times> 'h qemu_state) \<Rightarrow> bool \<Rightarrow>
    'h qemu_state platform" where
  "qemu_platform N B rg act dbg \<equiv>
     \<lparr>io = SafeIoRegion_io B rg, hal = MyHalImpl N, dma = act, debug = dbg\<rparr>"

section \<open>Areas\<close>

lemma dma_alloc_simps:
  "MyHalImpl_dma_alloc N n s =
     (\<lparr>pg_paddr = DMA_PADDR s, pg_vaddr = DMA_PADDR s, pg_len = 4096 * n,
       queue_ref_mut = Page_queue_ref_mut N (fresh_memory s) \<lparr>pa = DMA_PADDR s, page_size = 4096 * n\<rparr>\<rparr>,
      s\<lparr>DMA_PADDR := DMA_PADDR s + 4096 * n\<rparr>)"
  "MyHalImpl_dma_alloc_buf n s =
     (\<lparr>pg_paddr = DMA_PADDR s, pg_vaddr = DMA_PADDR s, pg_len = 4096 * n\<rparr>,
      s\<lparr>DMA_PADDR := DMA_PADDR s + 4096 * n\<rparr>)"
  by (simp_all add: MyHalImpl_dma_alloc_def MyHalImpl_dma_alloc_buf_def DMA_PADDR_fetch_add_def Page_new_def
      Page_paddr_def Page_vaddr_def PAGE_SIZE_def)

lemma dma_pointer_step:
  assumes "unat a + 4096 * unat n < 2 ^ 64"
  shows "unat (4096 * n :: usize) = 4096 * unat n" and "unat (a + 4096 * n :: usize) = unat a + 4096 * unat n"
proof -
  show len: "unat (4096 * n) = 4096 * unat n"
    using assms by (simp add: unat_word_ariths)
  show "unat (a + 4096 * n) = unat a + 4096 * unat n"
    using assms len by (simp add: unat_word_ariths)
qed

lemma dma_areas_Cons:
  "\<exists>n. dma_areas (req # reqs) s =
     (DMA_PADDR s, 4096 * n) # dma_areas reqs (s\<lparr>DMA_PADDR := DMA_PADDR s + 4096 * n\<rparr>) \<and>
     unat n = request_pages req"
  by (cases req) (auto simp: dma_alloc_simps)

lemma dma_areas_ordered:
  assumes "unat (DMA_PADDR s) + 4096 * sum_list (map request_pages reqs) < 2 ^ 64"
  shows "sorted_wrt area_before (dma_areas reqs s) \<and>
    map (\<lambda>x. unat (snd x)) (dma_areas reqs s) = map (\<lambda>q. 4096 * request_pages q) reqs \<and>
    (\<forall>x \<in> set (dma_areas reqs s). unat (DMA_PADDR s) \<le> unat (fst x)) \<and>
    (unat (DMA_PADDR s) mod 4096 = 0 \<longrightarrow> (\<forall>x \<in> set (dma_areas reqs s). unat (fst x) mod 4096 = 0))"
  using assms
proof (induction reqs arbitrary: s)
  case (Cons req reqs)
  obtain n where n: "dma_areas (req # reqs) s =
      (DMA_PADDR s, 4096 * n) # dma_areas reqs (s\<lparr>DMA_PADDR := DMA_PADDR s + 4096 * n\<rparr>)"
    "unat n = request_pages req"
    using dma_areas_Cons by blast
  let ?s = "s\<lparr>DMA_PADDR := DMA_PADDR s + 4096 * n\<rparr>"
  have "unat (DMA_PADDR s) + 4096 * unat n < 2 ^ 64"
    using Cons.prems n(2) by simp
  from dma_pointer_step [OF this]
  have len: "unat (4096 * n) = 4096 * unat n"
    and next_page: "unat (DMA_PADDR ?s) = unat (DMA_PADDR s) + 4096 * unat n"
    by simp_all
  have "unat (DMA_PADDR ?s) + 4096 * sum_list (map request_pages reqs) < 2 ^ 64"
    using Cons.prems n(2) next_page by (simp add: algebra_simps)
  note IH = Cons.IH [OF this]
  show ?case
    using IH len next_page n(2) unfolding n(1) by (auto simp: area_before_def)
qed simp

section \<open>Queues on this platform\<close>

lemma word_at_zero:
  assumes "\<forall>i < n. m (a + of_nat i) = 0"
  shows "word_at m a n = 0"
proof -
  have "phys_bytes m a n = replicate n 0"
    using assms by (auto simp: phys_bytes_def intro: map_upt_eqI)
  moreover have "of_le_bytes (replicate n 0) = 0"
    by (induction n) simp_all
  ultimately show ?thesis
    by (simp add: word_at_def)
qed

lemma pool_zero:
  assumes "pool_fresh s" and "unat off + n < 2 ^ 32"
  shows "word_at (fresh_memory s) (DMA_PADDR s + off) n = 0"
proof (rule word_at_zero, intro allI impI)
  fix i assume "i < n"
  then have sum: "unat (DMA_PADDR s) + unat off + i < 18446744073709551616" and "unat off + i < 18446744073709551616"
    using assms by (simp_all add: pool_fresh_def)
  then have "unat (DMA_PADDR s + off + of_nat i) = unat (DMA_PADDR s) + unat off + i"
    by (simp add: unat_word_ariths unat_of_nat)
  then have "DMA_PADDR s \<le> DMA_PADDR s + off + of_nat i"
    by (simp add: word_le_nat_alt)
  then show "fresh_memory s (DMA_PADDR s + off + of_nat i) = 0"
    using assms(1) by (simp add: pool_fresh_def)
qed

lemma qemu_page_ok:
  assumes fresh: "pool_fresh s" and N: "is_power_of_two N" "N \<le> 32768"
  shows "queue_page_ok N (fst (MyHalImpl_dma_alloc N n s))"
proof -
  have lay: "unat (avail_ring_offset (QueueLayout_new N)) = 16 * N"
    "unat (used_ring_offset (QueueLayout_new N)) \<le> 18 * N + 6 + 4096"
    using N unat_layout_sizes [OF N(2)] by (simp_all add: QueueLayout_new_def unat_align_up div_times_less_eq_dividend)
  have "word_at (fresh_memory s) (DMA_PADDR s + avail_ring_offset (QueueLayout_new N) + 2) 2 = (0 :: u16)"
    "word_at (fresh_memory s) (DMA_PADDR s + used_ring_offset (QueueLayout_new N) + 2) 2 = (0 :: u16)"
    using pool_zero [OF fresh, of "avail_ring_offset (QueueLayout_new N) + 2" 2]
      pool_zero [OF fresh, of "used_ring_offset (QueueLayout_new N) + 2" 2] lay N(2)
    by (simp_all add: unat_word_ariths add.assoc)
  moreover have "queue_place_ok (of_nat N) (DMA_PADDR s)"
    using fresh N by (simp add: queue_place_ok_def pool_fresh_def unat_of_nat)
  ultimately show ?thesis
    by (simp add: queue_page_ok_def dma_alloc_simps Page_queue_ref_mut_def avail_ring_at_def used_ring_at_def)
qed

lemma io_keeps_pool [keeps_rules]:
  "keeps pool_of (io_read_u32 (qemu_platform N B rg act dbg) off)"
  "keeps pool_of (io_read_u8 (qemu_platform N B rg act dbg) off)"
  "keeps pool_of (io_write_u32 (qemu_platform N B rg act dbg) off v)"
  "keeps pool_of (io_write_u8 (qemu_platform N B rg act dbg) off b)"
  by (simp_all add: keeps_def pool_of_def io_read_u32_def io_read_u8_def io_write_u32_def io_write_u8_def
      SafeIoRegion_io_def split: prod.splits)

lemma queue_ops_keep_pool:
  fixes P :: "'h qemu_state platform"
  assumes "P = qemu_platform N B rg act dbg"
  shows "keeps pool_of (t_queue_used (mmio_transport P ver) i)"
    and "keeps pool_of (t_max_queue_size (mmio_transport P ver) i)"
    and "keeps pool_of (t_queue_set (mmio_transport P ver) i sz d a u)"
  unfolding assms mmio_transport_def mmio_defs volatile_defs
  by (cases ver; simp add: Let_def; intro keeps_rules; simp)+

lemma pool_fresh_cong:
  assumes "DMA_PADDR s = DMA_PADDR t" and "fresh_memory s = fresh_memory t"
  shows "pool_fresh s = pool_fresh t"
  using assms by (simp add: pool_fresh_def)

lemma qemu_queue_new:
  fixes P :: "'h qemu_state platform"
  assumes P: "P = qemu_platform N B rg act dbg" and fresh: "pool_fresh (dev w)"
    and run: "VirtIoQueue_new P (mmio_transport P ver) N qidx w = (Ok q, w')"
  shows "quiet N q" and "pg_paddr (queue_page q) = DMA_PADDR (dev w)"
    and "DMA_PADDR (dev w') = DMA_PADDR (dev w) + 4096 * pages (total_size N)"
    and "fresh_memory (dev w') = fresh_memory (dev w)"
proof -
  note keep = queue_ops_keep_pool [OF P]
  obtain w1 m w2 page w3 where
    "t_queue_used (mmio_transport P ver) qidx w = (Ok False, w1)"
    and N: "is_power_of_two N" "N \<le> 65535"
    and "t_max_queue_size (mmio_transport P ver) qidx w1 = (Ok m, w2)"
    and al: "hal_dma_alloc P (pages (total_size N)) w2 = (Ok page, w3)"
    and st: "t_queue_set (mmio_transport P ver) qidx (of_nat N) (pg_paddr page) (pg_paddr page + AVAIL_RING_OFFSET N)
       (pg_paddr page + USED_RING_OFFSET N) w3 = (Ok (), w')"
    and q: "queue_page q = page"
    using run by (rule VirtIoQueue_new_parts) auto
  then have pool: "pool_of w2 = pool_of w"
    using keepsD [OF keep(1)] keepsD [OF keep(2)] by metis
  have page: "page = fst (MyHalImpl_dma_alloc N (pages (total_size N)) (dev w2))"
    "dev w3 = snd (MyHalImpl_dma_alloc N (pages (total_size N)) (dev w2))"
    using al by (auto simp: hal_dma_alloc_def P MyHalImpl_def split: prod.splits)
  have "pool_fresh (dev w2)"
    using fresh pool_fresh_cong [of "dev w2" "dev w"] pool by (simp add: pool_of_def)
  then have "queue_page_ok N (queue_page q)"
    unfolding q page(1) by (rule qemu_page_ok [OF _ N(1) power_of_two_small [OF N]])
  then show "quiet N q"
    by (rule VirtIoQueue_new_page [OF run])
  show "pg_paddr (queue_page q) = DMA_PADDR (dev w)"
    using q page(1) pool by (simp add: dma_alloc_simps pool_of_def)
  have "pool_of w' = pool_of w3"
    using keepsD [OF keep(3) st] .
  then show "DMA_PADDR (dev w') = DMA_PADDR (dev w) + 4096 * pages (total_size N)"
    and "fresh_memory (dev w') = fresh_memory (dev w)"
    using page(2) pool by (simp_all add: dma_alloc_simps pool_of_def)
qed

end
