(* ===== verification/QemuKernel.thy ===== *)
theory QemuKernel
  imports VirtioPrelude
begin

text \<open>
  The parts of the test kernel around the drivers: the interrupt state behind the kernel's locks
  (\<^verbatim>\<open>qemu/src/mutex.rs\<close>, with the accessors of \<^verbatim>\<open>qemu/src/arch.rs\<close>), the timer (\<^verbatim>\<open>qemu/src/timer.rs\<close>) and the
  dispatch of traps and external interrupts (\<^verbatim>\<open>qemu/src/trap/mod.rs\<close>,
  \<^verbatim>\<open>qemu/src/trap/ext_interrupt.rs\<close>). The interrupt controller, the clock and the handlers of the
  devices are parameters. The kernel runs on one hart, so that a lock is free whenever it is
  taken with interrupts off and not held already.
\<close>

section \<open>Interrupts and locks (arch.rs, mutex.rs)\<close>

type_synonym i32 = "32 word"

definition i32_add :: "bool \<Rightarrow> i32 \<Rightarrow> i32 \<Rightarrow> ('s, 'e, i32) prog" where
  "i32_add dbg a b =
     (if dbg \<and> \<not> (- (2 ^ 31) \<le> sint a + sint b \<and> sint a + sint b < 2 ^ 31) then panic else ret (a + b))"

record cpu =
  noff :: i32
  cpu_interrupt_enable :: bool

definition Cpu_new :: cpu where
  "Cpu_new = \<lparr>noff = 0, cpu_interrupt_enable = False\<rparr>"

text \<open>The interrupt enable bit of \<^verbatim>\<open>sstatus\<close>, the number of the hart, and the array \<^verbatim>\<open>CPUS\<close>.\<close>

record hart =
  sie :: bool
  hart_id :: usize
  CPUS :: "cpu list"

type_synonym 'e hprog = "(hart, 'e, unit) prog"

definition is_interrupt_enable :: "hart \<Rightarrow> bool" where
  "is_interrupt_enable h = sie h"

definition interrupt_disable :: "hart \<Rightarrow> hart" where
  "interrupt_disable h = h\<lparr>sie := False\<rparr>"

definition interrupt_enable :: "hart \<Rightarrow> hart" where
  "interrupt_enable h = h\<lparr>sie := True\<rparr>"

definition mycpu :: "(hart, 'e, cpu) prog" where
  "mycpu =
     bind (gets (\<lambda>h. unat (hart_id h) < length (CPUS h))) (\<lambda>ok.
     andthen (assert_that ok) (gets (\<lambda>h. CPUS h ! unat (hart_id h))))"

definition set_mycpu :: "cpu \<Rightarrow> 'e hprog" where
  "set_mycpu c = modify (\<lambda>h. h\<lparr>CPUS := (CPUS h)[unat (hart_id h) := c]\<rparr>)"

definition push_off :: "bool \<Rightarrow> 'e hprog" where
  "push_off dbg =
     bind (gets is_interrupt_enable) (\<lambda>old.
     andthen (modify interrupt_disable)
     (bind mycpu (\<lambda>cpu.
      let cpu1 = (if noff cpu = 0 then cpu\<lparr>cpu_interrupt_enable := old\<rparr> else cpu)
      in bind (i32_add dbg (noff cpu1) 1) (\<lambda>n. set_mycpu (cpu1\<lparr>noff := n\<rparr>)))))"

definition pop_off :: "bool \<Rightarrow> 'e hprog" where
  "pop_off dbg =
     bind mycpu (\<lambda>cpu.
     bind (gets is_interrupt_enable) (\<lambda>enabled.
     if enabled \<or> sint (noff cpu) < 1 then panic
     else
       bind (i32_add dbg (noff cpu) (- 1)) (\<lambda>n.
       let should_enable = (n = 0 \<and> cpu_interrupt_enable cpu)
       in andthen (set_mycpu (cpu\<lparr>noff := n\<rparr>))
          (if should_enable then modify interrupt_enable else ret ()))))"

definition before_lock :: "bool \<Rightarrow> 'e hprog" where
  "before_lock dbg = push_off dbg"

definition after_lock :: "bool \<Rightarrow> 'e hprog" where
  "after_lock dbg = pop_off dbg"

section \<open>Timer (timer.rs)\<close>

definition CLOCK_FREQ :: usize where "CLOCK_FREQ = 12500000"
definition TICKS_PER_SEC :: usize where "TICKS_PER_SEC = 10"

text \<open>The clock and the timer of the firmware.\<close>

record 'k clock =
  read_timer :: "'k \<Rightarrow> usize \<times> 'k"
  sbi_set_timer :: "usize \<Rightarrow> 'k \<Rightarrow> 'k"

definition clock_read :: "'k clock \<Rightarrow> ('k, 'e, usize) prog" where
  "clock_read C k = (case read_timer C k of (t, k') \<Rightarrow> (Ok t, k'))"

definition set_next_trigger :: "'k clock \<Rightarrow> bool \<Rightarrow> ('k, 'e, unit) prog" where
  "set_next_trigger C dbg =
     bind (clock_read C) (\<lambda>now.
     bind (add_ov dbg now (CLOCK_FREQ div TICKS_PER_SEC)) (\<lambda>next.
     bind (clock_read C) (\<lambda>now'.
     andthen (assert_that (next > now'))
     (modify (sbi_set_timer C next)))))"

section \<open>Interrupts of devices (ext_interrupt.rs)\<close>

datatype plic_mode = Machine | Supervisor

record 'p plic_dev =
  plic_set_threshold :: "u32 \<Rightarrow> plic_mode \<Rightarrow> u32 \<Rightarrow> 'p \<Rightarrow> 'p"
  plic_set_priority :: "u32 \<Rightarrow> u32 \<Rightarrow> 'p \<Rightarrow> 'p"
  plic_enable :: "u32 \<Rightarrow> plic_mode \<Rightarrow> u32 \<Rightarrow> 'p \<Rightarrow> 'p"
  plic_claim :: "u32 \<Rightarrow> plic_mode \<Rightarrow> 'p \<Rightarrow> u32 \<times> 'p"
  plic_complete :: "u32 \<Rightarrow> plic_mode \<Rightarrow> u32 \<Rightarrow> 'p \<Rightarrow> 'p"

text \<open>
  \<^verbatim>\<open>PLIC\<close> is set once; \<^verbatim>\<open>DEVICE_TABLE\<close> maps interrupt numbers to devices, and \<open>devices\<close> holds their
  states.
\<close>

record ('k, 'p, 'v) kernel =
  k_hart :: hart
  k_clock :: 'k
  PLIC :: "'p option"
  DEVICE_TABLE :: "usize \<rightharpoonup> nat"
  devices :: "nat \<Rightarrow> 'v"

type_synonym ('k, 'p, 'v, 'e, 'a) kprog = "(('k, 'p, 'v) kernel, 'e, 'a) prog"

definition on_hart :: "'e hprog \<Rightarrow> ('k, 'p, 'v, 'e, unit) kprog" where
  "on_hart = zoom k_hart (\<lambda>h k. k\<lparr>k_hart := h\<rparr>)"

definition on_plic :: "('p \<Rightarrow> 'a \<times> 'p) \<Rightarrow> ('k, 'p, 'v, 'e, 'a) kprog" where
  "on_plic f =
     bind (gets PLIC) (\<lambda>plic.
     (case plic of
        None \<Rightarrow> panic
      | Some p \<Rightarrow> (case f p of (x, p') \<Rightarrow> andthen (modify (\<lambda>k. k\<lparr>PLIC := Some p'\<rparr>)) (ret x))))"

definition init_plic :: "(usize \<Rightarrow> 'p) \<Rightarrow> usize \<Rightarrow> ('k, 'p, 'v, 'e, unit) kprog" where
  "init_plic plic_new plic_addr =
     modify (\<lambda>k. case PLIC k of None \<Rightarrow> k\<lparr>PLIC := Some (plic_new plic_addr)\<rparr> | Some p \<Rightarrow> k)"

definition register_device_to_plic ::
  "'p plic_dev \<Rightarrow> bool \<Rightarrow> usize \<Rightarrow> nat \<Rightarrow> ('k, 'p, 'v, 'e, unit) kprog" where
  "register_device_to_plic D dbg irq device =
     bind (gets (\<lambda>k. ucast (hart_id (k_hart k)))) (\<lambda>hard_id.
     andthen (on_hart (before_lock dbg))
     (andthen (modify (\<lambda>k. k\<lparr>DEVICE_TABLE := (DEVICE_TABLE k)(irq \<mapsto> device)\<rparr>))
     (andthen (on_plic (\<lambda>p. ((), plic_set_threshold D hard_id Machine 1 p)))
     (andthen (on_plic (\<lambda>p. ((), plic_set_threshold D hard_id Supervisor 0 p)))
     (andthen (on_plic (\<lambda>p. ((), plic_complete D hard_id Supervisor (ucast irq) p)))
     (andthen (on_plic (\<lambda>p. ((), plic_set_priority D (ucast irq) 1 p)))
     (andthen (on_plic (\<lambda>p. ((), plic_enable D hard_id Supervisor (ucast irq) p)))
     (on_hart (after_lock dbg)))))))))"

definition external_interrupt_handler ::
  "'p plic_dev \<Rightarrow> ('v, 'e, unit) prog \<Rightarrow> bool \<Rightarrow> ('k, 'p, 'v, 'e, unit) kprog" where
  "external_interrupt_handler D handle_irq dbg =
     bind (gets (\<lambda>k. ucast (hart_id (k_hart k)))) (\<lambda>hart.
     bind (on_plic (plic_claim D hart Supervisor)) (\<lambda>irq.
     andthen (on_hart (before_lock dbg))
     (bind (gets (\<lambda>k. DEVICE_TABLE k (ucast irq))) (\<lambda>entry.
      (case entry of
         None \<Rightarrow> panic
       | Some device \<Rightarrow>
           andthen (on_hart (before_lock dbg))
           (andthen (zoom (\<lambda>k. devices k device) (\<lambda>v k. k\<lparr>devices := (devices k)(device := v)\<rparr>) handle_irq)
           (andthen (on_hart (after_lock dbg))
           (andthen (on_plic (\<lambda>p. ((), plic_complete D hart Supervisor irq p)))
           (on_hart (after_lock dbg))))))))))"

section \<open>Traps (trap/mod.rs)\<close>

datatype trap_cause = SupervisorTimer | SupervisorExternal | Breakpoint | OtherTrap nat

definition do_kernel_handle ::
  "'k clock \<Rightarrow> 'p plic_dev \<Rightarrow> ('v, 'e, unit) prog \<Rightarrow> bool \<Rightarrow> trap_cause \<Rightarrow> ('k, 'p, 'v, 'e, unit) kprog" where
  "do_kernel_handle C D handle_irq dbg cause =
     (case cause of
        SupervisorTimer \<Rightarrow> zoom k_clock (\<lambda>c k. k\<lparr>k_clock := c\<rparr>) (set_next_trigger C dbg)
      | Breakpoint \<Rightarrow> panic
      | SupervisorExternal \<Rightarrow> external_interrupt_handler D handle_irq dbg
      | OtherTrap n \<Rightarrow> panic)"

definition kernel_trap_vector ::
  "'k clock \<Rightarrow> 'p plic_dev \<Rightarrow> ('v, 'e, unit) prog \<Rightarrow> bool \<Rightarrow> bool \<Rightarrow> trap_cause \<Rightarrow>
   ('k, 'p, 'v, 'e, unit) kprog" where
  "kernel_trap_vector C D handle_irq dbg from_user cause =
     (if from_user then panic
      else
        bind (gets (\<lambda>k. is_interrupt_enable (k_hart k))) (\<lambda>enable.
        andthen (assert_that (\<not> enable)) (do_kernel_handle C D handle_irq dbg cause)))"

section \<open>Notions of the specification\<close>

datatype lock_op = Lock | Unlock

fun run_locks :: "bool \<Rightarrow> lock_op list \<Rightarrow> 'e hprog" where
  "run_locks dbg [] = ret ()"
| "run_locks dbg (Lock # ops) = andthen (before_lock dbg) (run_locks dbg ops)"
| "run_locks dbg (Unlock # ops) = andthen (after_lock dbg) (run_locks dbg ops)"

text \<open>The number of locks held after a sequence of operations, when none is released that is not held.\<close>

fun locks_held :: "lock_op list \<Rightarrow> nat \<Rightarrow> nat option" where
  "locks_held [] n = Some n"
| "locks_held (Lock # ops) n = locks_held ops (Suc n)"
| "locks_held (Unlock # ops) 0 = None"
| "locks_held (Unlock # ops) (Suc n) = locks_held ops n"

text \<open>\<open>n\<close> locks are held, and interrupts were enabled before the first of them if \<open>e\<close>.\<close>

definition holds :: "nat \<Rightarrow> bool \<Rightarrow> hart \<Rightarrow> bool" where
  "holds n e h \<longleftrightarrow> unat (hart_id h) < length (CPUS h) \<and> noff (CPUS h ! unat (hart_id h)) = of_nat n \<and>
     sie h = (e \<and> n = 0) \<and> (0 < n \<longrightarrow> cpu_interrupt_enable (CPUS h ! unat (hart_id h)) = e)"

section \<open>Locks\<close>

lemma sint_of_nat_small: "n < 2 ^ 31 \<Longrightarrow> sint (of_nat n :: i32) = int n"
  by (simp add: sint_uint signed_take_bit_int_eq_self uint_nat unat_of_nat)

lemma before_lock_holds:
  assumes "holds n e h" and "Suc n < 2 ^ 31"
  shows "\<exists>h'. before_lock dbg h = (Ok (), h') \<and> holds (Suc n) e h' \<and> hart_id h' = hart_id h"
proof -
  have "sint (of_nat n :: i32) = int n"
    using assms(2) by (intro sint_of_nat_small) simp
  moreover have "(of_nat n :: i32) = 0 \<longleftrightarrow> n = 0"
    using assms(2) by (simp add: word_unat_eq_iff unat_of_nat)
  ultimately show ?thesis
    using assms
    by (auto simp: holds_def before_lock_def push_off_def mycpu_def set_mycpu_def i32_add_def Let_def
        is_interrupt_enable_def interrupt_disable_def bind_def andthen_def add.commute)
qed

lemma after_lock_holds:
  assumes "holds n e h" and "n < 2 ^ 31"
  shows "\<exists>h'. after_lock dbg h = (if n = 0 then Panic else Ok (), h') \<and>
    (0 < n \<longrightarrow> holds (n - 1) e h' \<and> hart_id h' = hart_id h)"
proof -
  have s: "sint (of_nat n :: i32) = int n"
    using assms(2) by (rule sint_of_nat_small)
  have m: "(of_nat n :: i32) - 1 = of_nat (n - 1)" if "0 < n"
    using that by (simp add: of_nat_diff)
  have z: "(of_nat n :: i32) = 1 \<longleftrightarrow> n = 1"
    using assms(2) by (simp add: word_unat_eq_iff unat_of_nat)
  show ?thesis
    using assms s m z
    by (auto simp: holds_def after_lock_def pop_off_def mycpu_def set_mycpu_def i32_add_def Let_def
        is_interrupt_enable_def interrupt_enable_def bind_def andthen_def)
qed

text \<open>
  The lock operations implement a counter of the locks held: interrupts are on exactly when no
  lock is held and they were on before the first one, and releasing a lock that is not held panics.
\<close>

lemma run_locks_holds:
  assumes "holds n e h" and "n + length ops < 2 ^ 31"
  shows "\<exists>h'. run_locks dbg ops h = (if locks_held ops n = None then Panic else Ok () :: ('e, unit) outcome, h') \<and>
    (\<forall>m. locks_held ops n = Some m \<longrightarrow> holds m e h')"
  using assms
proof (induction ops n arbitrary: h rule: locks_held.induct)
  case (2 ops n)
  obtain h1 where "before_lock dbg h = (Ok () :: ('e, unit) outcome, h1)" "holds (Suc n) e h1"
    using before_lock_holds [OF 2(2), of dbg] 2(3) by auto
  then show ?case
    using 2(1) [of h1] 2(3) by (simp add: andthen_def bind_def)
next
  case (3 ops)
  obtain h1 where "after_lock dbg h = (Panic :: ('e, unit) outcome, h1)"
    using after_lock_holds [OF 3(1), of dbg] by auto
  then show ?case
    by (simp add: andthen_def bind_def)
next
  case (4 ops n)
  obtain h1 where "after_lock dbg h = (Ok () :: ('e, unit) outcome, h1)" "holds n e h1"
    using after_lock_holds [OF 4(2), of dbg] 4(3) by auto
  then show ?case
    using 4(1) [of h1] 4(3) by (simp add: andthen_def bind_def)
qed simp

section \<open>Interrupts\<close>

lemma handler_outcome:
  assumes "holds n False (k_hart k)" and "n + 2 < 2 ^ 31" and "PLIC k = Some p"
    and "plic_claim D (ucast (hart_id (k_hart k))) Supervisor p = (irq, p1)"
    and "\<forall>d. DEVICE_TABLE k (ucast irq) = Some d \<longrightarrow> handle_irq (devices k d) = (Ok (), v)"
  shows "\<exists>h. external_interrupt_handler D handle_irq dbg k =
    (case DEVICE_TABLE k (ucast irq) of
       None \<Rightarrow> (Panic :: ('e, unit) outcome, k\<lparr>k_hart := h, PLIC := Some p1\<rparr>)
     | Some d \<Rightarrow> (Ok (), k\<lparr>k_hart := h,
         PLIC := Some (plic_complete D (ucast (hart_id (k_hart k))) Supervisor irq p1),
         devices := (devices k)(d := v)\<rparr>)) \<and>
    (DEVICE_TABLE k (ucast irq) \<noteq> None \<longrightarrow> holds n False h)"
proof -
  obtain h1 where 1: "before_lock dbg (k_hart k) = (Ok () :: ('e, unit) outcome, h1)" "holds (Suc n) False h1"
    using before_lock_holds [OF assms(1), of dbg] assms(2) by auto
  obtain h2 where 2: "before_lock dbg h1 = (Ok () :: ('e, unit) outcome, h2)" "holds (Suc (Suc n)) False h2"
    using before_lock_holds [OF 1(2), of dbg] assms(2) by auto
  obtain h3 where 3: "after_lock dbg h2 = (Ok () :: ('e, unit) outcome, h3)" "holds (Suc n) False h3"
    using after_lock_holds [OF 2(2), of dbg] assms(2) by auto
  obtain h4 where 4: "after_lock dbg h3 = (Ok () :: ('e, unit) outcome, h4)" "holds n False h4"
    using after_lock_holds [OF 3(2), of dbg] assms(2) by auto
  show ?thesis
    using assms(3,4,5) 1 2 3 4
    by (intro exI [of _ "if DEVICE_TABLE k (ucast irq) = None then h1 else h4"])
      (cases k; auto simp: external_interrupt_handler_def on_plic_def on_hart_def zoom_def bind_def
        andthen_def split: option.splits)
qed

text \<open>Registering a device enters it in the table, opens its interrupt and leaves the locks as they were.\<close>

lemma register_device_outcome:
  assumes "holds n e (k_hart k)" and "n + 1 < 2 ^ 31" and "PLIC k = Some p"
  shows "\<exists>h. register_device_to_plic D dbg irq d k = (Ok () :: ('e, unit) outcome, k\<lparr>k_hart := h,
      DEVICE_TABLE := (DEVICE_TABLE k)(irq \<mapsto> d),
      PLIC := (let c = ucast (hart_id (k_hart k)); i = ucast irq
        in Some (plic_enable D c Supervisor i (plic_set_priority D i 1 (plic_complete D c Supervisor i
             (plic_set_threshold D c Supervisor 0 (plic_set_threshold D c Machine 1 p))))))\<rparr>) \<and> holds n e h"
proof -
  obtain h1 where 1: "before_lock dbg (k_hart k) = (Ok () :: ('e, unit) outcome, h1)" "holds (Suc n) e h1"
    using before_lock_holds [OF assms(1), of dbg] assms(2) by auto
  obtain h2 where 2: "after_lock dbg h1 = (Ok () :: ('e, unit) outcome, h2)" "holds n e h2"
    using after_lock_holds [OF 1(2), of dbg] assms(2) by auto
  show ?thesis
    using assms(3) 1 2
    by (intro exI [of _ h2])
      (cases k; simp add: register_device_to_plic_def on_plic_def on_hart_def zoom_def bind_def andthen_def Let_def)
qed

section \<open>Timer\<close>

text \<open>A timer interrupt is set a tenth of a second ahead, when that is not past at the second look at the clock.\<close>

lemma set_next_trigger_outcome:
  assumes "read_timer C k = (t, k1)" and "read_timer C k1 = (t', k2)" and "unat t + 1250000 < 2 ^ 64"
  shows "set_next_trigger C dbg k =
    (if t' < t + 1250000 then (Ok (), sbi_set_timer C (t + 1250000) k2) else (Panic, k2))"
  using assms
  by (simp add: set_next_trigger_def clock_read_def add_ov_def CLOCK_FREQ_def TICKS_PER_SEC_def bind_def
      andthen_def)

end
