(* ===== verification/QemuTcp.thy ===== *)
theory QemuTcp
  imports Net
begin

text \<open>
  The echo server of the test kernel, \<^verbatim>\<open>qemu/src/tcp.rs\<close>: the network device as the TCP/IP stack
  sees it, with its receive and transmit tokens, and the reply to what a client sent. The stack
  itself is a library; a token's \<open>consume\<close> takes its closure as an argument. The addresses of
  the vectors are arguments, as for the other objects of the drivers.
\<close>

section \<open>The device of the stack\<close>

definition NET_BUFFER_LEN :: usize where "NET_BUFFER_LEN = 2048"

datatype virtio_rx_token = VirtioRxToken "u8 list"
datatype virtio_tx_token = VirtioTxToken

definition Vec_resize :: "nat \<Rightarrow> u8 list \<Rightarrow> u8 list" where
  "Vec_resize n v = take n v @ replicate (n - length v) 0"

definition vec_zeroed :: "'d platform \<Rightarrow> usize \<Rightarrow> nat \<Rightarrow> 'd world \<Rightarrow> 'd world" where
  "vec_zeroed P v_ptr n w = w\<lparr>mem := store_bytes P v_ptr (replicate n 0) (mem w)\<rparr>"

definition DeviceWrapper_mac_address :: "(virtio_net \<times> 'd world, 'e, u8 list) prog" where
  "DeviceWrapper_mac_address = unwrap VirtIONet_mac_address"

definition DeviceWrapper_receive ::
  "'d platform \<Rightarrow> 'd transport \<Rightarrow> nat \<Rightarrow> usize \<Rightarrow>
    (virtio_net \<times> 'd world, 'e, (virtio_rx_token \<times> virtio_tx_token) option) prog" where
  "DeviceWrapper_receive P T N v_ptr s =
     (case s of (v, w) \<Rightarrow>
      (case VirtIONet_receive P T N v_ptr NET_BUFFER_LEN (v, vec_zeroed P v_ptr (unat NET_BUFFER_LEN) w) of
         (Ok len, (v', w')) \<Rightarrow>
           (Ok (Some (VirtioRxToken
              (Vec_resize (unat len) (load_bytes P v_ptr (unat NET_BUFFER_LEN) (mem w'))), VirtioTxToken)),
            (v', w'))
       | (Err NotReady, s') \<Rightarrow> (Ok None, s')
       | (Err err, s') \<Rightarrow> (Panic, s')
       | (Panic, s') \<Rightarrow> (Panic, s')
       | (Hang, s') \<Rightarrow> (Hang, s')))"

definition DeviceWrapper_transmit :: "('s, 'e, virtio_tx_token option) prog" where
  "DeviceWrapper_transmit = ret (Some VirtioTxToken)"

definition VirtioRxToken_consume :: "virtio_rx_token \<Rightarrow> (u8 list \<Rightarrow> 'r \<times> u8 list) \<Rightarrow> 'r" where
  "VirtioRxToken_consume t f = (case t of VirtioRxToken rx_buf \<Rightarrow> fst (f rx_buf))"

definition VirtioTxToken_consume ::
  "'d platform \<Rightarrow> 'd transport \<Rightarrow> nat \<Rightarrow> usize \<Rightarrow> usize \<Rightarrow> usize \<Rightarrow> (u8 list \<Rightarrow> 'r \<times> u8 list) \<Rightarrow>
    (virtio_net \<times> 'd world, 'e, 'r) prog" where
  "VirtioTxToken_consume P T N hdr_ptr tx_ptr len f =
     andthen (modify (\<lambda>(v, w). (v, vec_zeroed P tx_ptr (unat len) w)))
     (bind (gets (\<lambda>(v, w). f (load_bytes P tx_ptr (unat len) (mem w)))) (\<lambda>(result, tx_buf).
      andthen (modify (\<lambda>(v, w). (v, w\<lparr>mem := store_bytes P tx_ptr tx_buf (mem w)\<rparr>)))
      (andthen (unwrap (VirtIONet_send P T N hdr_ptr tx_ptr len))
      (ret result))))"

section \<open>The reply of the server\<close>

text \<open>\<^verbatim>\<open>split\<close> and \<^verbatim>\<open>join\<close> of slices: there is always one more piece than there are separators.\<close>

fun slice_split :: "'a \<Rightarrow> 'a list \<Rightarrow> 'a list list" where
  "slice_split c [] = [[]]"
| "slice_split c (x # xs) =
     (if x = c then [] # slice_split c xs
      else (case slice_split c xs of [] \<Rightarrow> [[x]] | l # ls \<Rightarrow> (x # l) # ls))"

fun slice_join :: "'a \<Rightarrow> 'a list list \<Rightarrow> 'a list" where
  "slice_join c [] = []"
| "slice_join c [l] = l"
| "slice_join c (l # ls) = l @ c # slice_join c ls"

definition echo_reply :: "u8 list \<Rightarrow> nat \<times> u8 list" where
  "echo_reply buffer =
     (let recvd_len = length buffer
      in if buffer \<noteq> [] then
           let lines = map rev (slice_split 10 buffer); data = slice_join 10 lines
           in (recvd_len, data)
         else (0, []))"

section \<open>Splitting and joining\<close>

lemma slice_split_ne [simp]: "slice_split c xs \<noteq> []"
  by (cases xs) (auto split: list.splits)

lemma slice_join_split [simp]: "slice_join c (slice_split c xs) = xs"
proof (induction xs)
  case (Cons x xs)
  then show ?case
    by (cases "slice_split c xs"; cases "tl (slice_split c xs)") auto
qed simp

lemma slice_split_clean: "l \<in> set (slice_split c xs) \<Longrightarrow> c \<notin> set l"
proof (induction xs arbitrary: l)
  case (Cons x xs)
  then show ?case
    by (cases "slice_split c xs") (auto split: if_splits)
qed simp

lemma slice_split_app:
  "c \<notin> set l \<Longrightarrow> slice_split c (l @ c # xs) = l # slice_split c xs"
  by (induction l) auto

lemma slice_split_single: "c \<notin> set l \<Longrightarrow> slice_split c l = [l]"
  by (induction l) auto

lemma slice_split_join:
  "ls \<noteq> [] \<Longrightarrow> \<forall>l \<in> set ls. c \<notin> set l \<Longrightarrow> slice_split c (slice_join c ls) = ls"
  by (induction c ls rule: slice_join.induct) (auto simp: slice_split_app slice_split_single)

lemma slice_join_length:
  "length (slice_join c ls) = sum_list (map length ls) + (length ls - 1)"
  by (induction c ls rule: slice_join.induct) auto

lemma slice_join_map_rev_Nil: "slice_join c (map rev (slice_split c xs)) = [] \<longleftrightarrow> xs = []"
proof -
  have "length (slice_join c (map rev (slice_split c xs))) = length (slice_join c (slice_split c xs))"
    by (simp only: slice_join_length) (simp add: comp_def)
  then show ?thesis
    by (metis length_0_conv slice_join_split)
qed

lemma echo_reply_lines:
  "snd (echo_reply xs) = slice_join 10 (map rev (slice_split 10 xs))"
  by (simp add: echo_reply_def Let_def)

lemma echo_split:
  "slice_split 10 (snd (echo_reply xs)) = map rev (slice_split 10 xs)"
  unfolding echo_reply_lines
  by (rule slice_split_join) (auto dest: slice_split_clean)

section \<open>The device\<close>

lemma load_bytes_take: "n \<le> k \<Longrightarrow> take n (load_bytes P a k m) = load_bytes P a n m"
  by (simp add: load_bytes_def take_map)

lemma mapped_less: "mapped P a k \<Longrightarrow> n \<le> k \<Longrightarrow> mapped P a n"
  unfolding mapped_def by (erule inj_on_subset) auto

lemma vec_zeroed_load:
  assumes "phys P v_ptr k \<inter> phys P a n = {}"
  shows "load_bytes P a n (mem (vec_zeroed P v_ptr k w)) = load_bytes P a n (mem w)"
  using assms by (intro load_bytes_cong) (auto simp: vec_zeroed_def intro!: store_bytes_other)

lemma wrapper_receive_packet:
  assumes inv: "rx_inv P N [] v"
    and next_c: "completions N (recv_queue (inner v)) = (tok, len) # rest"
    and fit: "10 \<le> len" "ucast len - 10 \<le> NET_BUFFER_LEN" "ucast len \<le> snd (rx_buffers v ! unat tok)"
    and vec: "mapped P v_ptr 2048"
      "phys P v_ptr 2048 \<inter> phys P (fst (rx_buffers v ! unat tok) + 10) (unat len - 10) = {}"
    and run: "DeviceWrapper_receive P (mmio_transport P ver) N v_ptr (v, w) = (r, (v', w'))"
  shows "r = Ok (Some (VirtioRxToken
        (load_bytes P (fst (rx_buffers v ! unat tok) + 10) (unat len - 10) (mem w)), VirtioTxToken)) \<or>
      r = Panic \<or> r = Ok None"
    and "rx_inv P N [] v'" and "completions N (recv_queue (inner v')) = rest"
proof -
  let ?w = "vec_zeroed P v_ptr (unat NET_BUFFER_LEN) w" and ?a = "fst (rx_buffers v ! unat tok) + 10"
  obtain r1 where rcv: "VirtIONet_receive P (mmio_transport P ver) N v_ptr NET_BUFFER_LEN (v, ?w) =
      (r1, (v', w'))"
    and r: "r = (case r1 of
      Ok n \<Rightarrow> Ok (Some (VirtioRxToken (Vec_resize (unat n) (load_bytes P v_ptr 2048 (mem w'))), VirtioTxToken))
    | Err e \<Rightarrow> (if e = NotReady then Ok None else Panic) | Panic \<Rightarrow> Panic | Hang \<Rightarrow> Hang)"
    using run by (auto simp: DeviceWrapper_receive_def NET_BUFFER_LEN_def
        split: prod.splits outcome.splits virtio_error.splits)
  note out = receive_outcome [OF inv rcv next_c fit]
  have n: "unat (ucast len - 10 :: usize) = unat len - 10" "unat len - 10 \<le> 2048"
    using rx_len_arith [OF fit(1)] fit(2) by (simp_all add: NET_BUFFER_LEN_def word_le_nat_alt)
  have z: "load_bytes P ?a (unat len - 10) (mem ?w) = load_bytes P ?a (unat len - 10) (mem w)"
    using vec(2) by (simp add: vec_zeroed_load NET_BUFFER_LEN_def)
  have "load_bytes P v_ptr (unat len - 10) (mem w') = load_bytes P ?a (unat len - 10) (mem w)"
    using load_store_bytes [of P v_ptr "load_bytes P ?a (unat len - 10) (mem w)" "mem ?w"]
      mapped_less [OF vec(1) n(2)] out(2) z by simp
  then have "Vec_resize (unat len - 10) (load_bytes P v_ptr 2048 (mem w')) =
      load_bytes P ?a (unat len - 10) (mem w)"
    using n(2) by (simp add: Vec_resize_def load_bytes_take)
  then show "r = Ok (Some (VirtioRxToken (load_bytes P ?a (unat len - 10) (mem w)), VirtioTxToken)) \<or>
      r = Panic \<or> r = Ok None"
    using r out(1) n(1) by auto
  show "rx_inv P N [] v'" "completions N (recv_queue (inner v')) = rest"
    using out(3,4) by simp_all
qed

text \<open>A completion shorter than the packet header stops the kernel.\<close>

lemma wrapper_receive_short:
  assumes "rx_inv P N back v"
    and "completions N (recv_queue (inner v)) = (tok, len) # rest" and "len < 10"
  shows "fst (DeviceWrapper_receive P T N v_ptr (v, w)) = Panic"
  using receive_short [OF assms] by (auto simp: DeviceWrapper_receive_def)

lemma wrapper_receive_none:
  assumes "rx_inv P N back v" and "VirtIoQueue_peek_used N (recv_queue (inner v)) = None"
  shows "DeviceWrapper_receive P T N v_ptr (v, w) =
    (Ok None, (v, vec_zeroed P v_ptr (unat NET_BUFFER_LEN) w))"
  using receive_None [OF assms] by (simp add: DeviceWrapper_receive_def)

text \<open>
  The frame a transmit token sends is what its closure made of a zeroed vector, behind a header
  of zeros, and the token returns the closure's result.
\<close>

lemma tx_token_sends:
  assumes quiet: "quiet N (send_queue (inner v))" and N: "2 \<le> N"
    and ok: "tx_objects_ok P hdr_ptr tx_ptr len"
    and f: "f (replicate (unat len) 0) = (result, tx_buf)" "length tx_buf = unat len"
    and w1: "w1 = w\<lparr>mem := store_bytes P tx_ptr tx_buf (mem (vec_zeroed P tx_ptr (unat len) w))\<rparr>"
    and sub: "submitted (mmio_transport P ver) N (send_descriptors P hdr_ptr tx_ptr len)
      (send_queue (inner v), with_header P hdr_ptr w1) tok t"
    and srv: "device_serves P N t tok k n"
  shows "\<exists>v' w'. VirtioTxToken_consume P (mmio_transport P ver) N hdr_ptr tx_ptr len f (v, w) =
      (Ok result, (v', w')) \<and> quiet N (send_queue (inner v'))"
    and "tx_frame (map payload (chain_of N (table (fst t)) tok)) (mem (snd t)) =
      Some (replicate 10 0 @ tx_buf)"
proof -
  have m: "mapped P tx_ptr (unat len)"
    using ok by (simp add: tx_objects_ok_def contiguous_mapped)
  have l: "load_bytes P tx_ptr (unat len) (mem (vec_zeroed P tx_ptr (unat len) w)) = replicate (unat len) 0"
    using load_store_bytes [of P tx_ptr "replicate (unat len) 0" "mem w"] m by (simp add: vec_zeroed_def)
  have "load_bytes P tx_ptr (unat len) (mem w1) = tx_buf"
    using load_store_bytes [of P tx_ptr tx_buf] m f(2) by (simp add: w1)
  then show "tx_frame (map payload (chain_of N (table (fst t)) tok)) (mem (snd t)) =
      Some (replicate 10 0 @ tx_buf)"
    using mmio.send_submitted_frame [OF quiet N ok sub] by simp
  have w1': "(vec_zeroed P tx_ptr (unat len) w)
      \<lparr>mem := store_bytes P tx_ptr tx_buf (mem (vec_zeroed P tx_ptr (unat len) w))\<rparr> = w1"
    by (simp add: w1 vec_zeroed_def)
  obtain q' w' where "VirtIONetRaw_send P (mmio_transport P ver) N hdr_ptr tx_ptr len (inner v, w1) =
      (Ok (), ((inner v)\<lparr>send_queue := q'\<rparr>, w'))" "quiet N q'"
    using send_run [OF quiet N sub srv] by auto
  then show "\<exists>v' w'. VirtioTxToken_consume P (mmio_transport P ver) N hdr_ptr tx_ptr len f (v, w) =
      (Ok result, (v', w')) \<and> quiet N (send_queue (inner v'))"
    using l f(1) w1'
    by (simp add: VirtioTxToken_consume_def VirtIONet_send_def andthen_def bind_def unwrap_def on_net_eq)
qed

end
