(* ===== verification/QemuTest.thy ===== *)
theory QemuTest
  imports Blk GpuDevice Console Input Net
begin

text \<open>
  The self tests of the kernel, \<^verbatim>\<open>qemu/src/new_test.rs\<close>: the block, display, input and console
  tests, the interrupt handlers of the drivers, and the loop that sends packets back. The drivers
  are handed to the tests as locked objects; the nested locks are those of \<^verbatim>\<open>mutex.rs\<close> and have no
  part in what the tests do. Vectors and boxes are at addresses that are arguments, as for the
  other objects of the drivers.
\<close>

section \<open>The block test\<close>

definition blk_test_step ::
  "'d platform \<Rightarrow> 'd transport \<Rightarrow> blk_frame \<Rightarrow> usize \<Rightarrow> usize \<Rightarrow> usize \<Rightarrow> ('d, unit) bprog" where
  "blk_test_step P T fr input output i =
     andthen (modify (\<lambda>(b, w). (b, w\<lparr>mem := store_bytes P input (replicate 512 (ucast i)) (mem w)\<rparr>)))
     (andthen (expect (VirtIOBlk_write_blocks P T fr i input 512))
     (andthen (expect (VirtIOBlk_read_blocks P T fr i output 512))
     (bind (gets (\<lambda>(b, w). load_bytes P input 512 (mem w) = load_bytes P output 512 (mem w)))
       assert_that)))"

fun blk_test_loop ::
  "'d platform \<Rightarrow> 'd transport \<Rightarrow> blk_frame \<Rightarrow> usize \<Rightarrow> usize \<Rightarrow> usize list \<Rightarrow> ('d, unit) bprog" where
  "blk_test_loop P T fr input output [] = ret ()"
| "blk_test_loop P T fr input output (i # is) =
     andthen (blk_test_step P T fr input output i) (blk_test_loop P T fr input output is)"

definition test_virtio_blk ::
  "'d platform \<Rightarrow> 'd transport \<Rightarrow> blk_frame \<Rightarrow> usize \<Rightarrow> usize \<Rightarrow> ('d, unit) bprog" where
  "test_virtio_blk P T fr input output =
     andthen (modify (\<lambda>(b, w). (b, w\<lparr>mem := store_bytes P output (replicate 512 0)
       (store_bytes P input (replicate 512 0xff) (mem w))\<rparr>)))
     (let iter = 10 * 1024 * 1024 div 512
      in andthen (blk_test_loop P T fr input output (map of_nat [0..<iter]))
         (expect (VirtIOBlk_flush P T fr)))"

section \<open>The display test\<close>

text \<open>An indexed store into the frame buffer, with the bounds check of slices.\<close>

definition fb_store :: "'d platform \<Rightarrow> usize \<times> usize \<Rightarrow> usize \<Rightarrow> u8 \<Rightarrow> ('d, unit) gprog" where
  "fb_store P fb idx v =
     andthen (assert_that (idx < snd fb))
     (modify (\<lambda>(g, w). (g, w\<lparr>mem := store_bytes P (fst fb + idx) [v] (mem w)\<rparr>)))"

definition draw_pixel :: "'d platform \<Rightarrow> usize \<times> usize \<Rightarrow> usize \<Rightarrow> usize \<Rightarrow> usize \<Rightarrow> ('d, unit) gprog" where
  "draw_pixel P fb width y x =
     bind (mul_ov (debug P) y width) (\<lambda>row.
     bind (add_ov (debug P) row x) (\<lambda>pos.
     bind (mul_ov (debug P) pos 4) (\<lambda>idx.
     andthen (fb_store P fb idx (ucast x))
     (bind (add_ov (debug P) idx 1) (\<lambda>idx1.
      andthen (fb_store P fb idx1 (ucast y))
      (bind (add_ov (debug P) idx 2) (\<lambda>idx2.
       bind (add_ov (debug P) x y) (\<lambda>sum.
       fb_store P fb idx2 (ucast sum)))))))))"

fun for_each :: "('x \<Rightarrow> ('s, 'e, unit) prog) \<Rightarrow> 'x list \<Rightarrow> ('s, 'e, unit) prog" where
  "for_each f [] = ret ()"
| "for_each f (x # xs) = andthen (f x) (for_each f xs)"

definition test_virtio_gpu :: "'d platform \<Rightarrow> 'd transport \<Rightarrow> (u32 \<Rightarrow> gpu_frame) \<Rightarrow> ('d, unit) gprog" where
  "test_virtio_gpu P T fr =
     bind (expect (VirtIOGpu_resolution P T fr)) (\<lambda>(w, h).
     let width = (ucast w :: usize); height = (ucast h :: usize)
     in bind (expect (setup_framebuffer P T fr)) (\<lambda>fb.
        andthen (for_each (\<lambda>y. for_each (\<lambda>x. draw_pixel P fb width (of_nat y) (of_nat x)) [0..<unat width])
          [0..<unat height])
        (expect (VirtIOGpu_flush P T fr))))"

section \<open>The input and console tests\<close>

text \<open>The event that ends the input test: the release of the escape key or of the right button.\<close>

definition ends_input_test :: "InputEvent \<Rightarrow> bool" where
  "ends_input_test e \<longleftrightarrow> event_type e = 1 \<and> (code e = 1 \<or> code e = 273) \<and> val e = 0"

definition input_test_poll :: "'d platform \<Rightarrow> 'd transport \<Rightarrow> ('d, bool) iprog" where
  "input_test_poll P T =
     bind (expect (VirtIOInput_ack_interrupt T)) (\<lambda>_.
     bind (expect (VirtIOInput_pop_pending_event P T)) (\<lambda>event.
     ret (case event of None \<Rightarrow> False | Some e \<Rightarrow> ends_input_test e)))"

text \<open>One pass over the input devices; between two passes the devices act (\<open>step\<close>).\<close>

type_synonym ('d, 'a) isprog = "(virtio_input list \<times> 'd world, virtio_error, 'a) prog"

fun input_test_round :: "(nat \<Rightarrow> 'd platform \<times> 'd transport) \<Rightarrow> nat list \<Rightarrow> ('d, bool) isprog" where
  "input_test_round env [] = ret False"
| "input_test_round env (i # is) =
     bind (zoom (\<lambda>(l, w). (l ! i, w)) (\<lambda>(d, w) (l, _). (l[i := d], w))
       (input_test_poll (fst (env i)) (snd (env i)))) (\<lambda>stop.
     if stop then ret True else input_test_round env is)"

definition test_virtio_input ::
  "(nat \<Rightarrow> 'd platform \<times> 'd transport) \<Rightarrow>
    (virtio_input list \<times> 'd world \<Rightarrow> virtio_input list \<times> 'd world) \<Rightarrow> ('d, unit) isprog" where
  "test_virtio_input env step =
     bind (gets (\<lambda>(inputs, w). length inputs)) (\<lambda>n.
     while_prog (bind (input_test_round env [0..<n]) (\<lambda>stop. ret (\<not> stop))) step)"

definition test_virtio_console :: "'d platform \<Rightarrow> 'd transport \<Rightarrow> usize \<Rightarrow> ('d, u8 option) cprog" where
  "test_virtio_console P T buf =
     bind (expect (on_console_io (VirtIOConsole_info P))) (\<lambda>info.
     andthen (for_each (\<lambda>c. expect (VirtIOConsole_send P T buf c)) (map of_char ''Hello console!\<newline>''))
     (expect (VirtIOConsole_recv P T True)))"

section \<open>Interrupt handlers\<close>

definition handle_irq_blk :: "'d transport \<Rightarrow> ('d, unit) bprog" where
  "handle_irq_blk T = bind (expect (VirtIOBlk_ack_interrupt T)) (\<lambda>_. ret ())"

definition handle_irq_console :: "'d transport \<Rightarrow> ('d, unit) cprog" where
  "handle_irq_console T = bind (expect (VirtIOConsole_ack_interrupt T)) (\<lambda>_. ret ())"

definition handle_irq_gpu :: "'d transport \<Rightarrow> ('d, unit) gprog" where
  "handle_irq_gpu T = bind (expect (VirtIOGpu_ack_interrupt T)) (\<lambda>_. ret ())"

definition handle_irq_input :: "'d transport \<Rightarrow> ('d, unit) iprog" where
  "handle_irq_input T = bind (expect (VirtIOInput_ack_interrupt T)) (\<lambda>_. ret ())"

section \<open>The network test\<close>

text \<open>
  The statics of the test: \<^verbatim>\<open>NET_BUF\<close> has the buffers that are lent to the device, by token in
  ascending order, and \<^verbatim>\<open>NET_RES\<close> the lengths of those that came back.
\<close>

record net_test =
  PACKAGE_IN :: bool
  NET_BUF :: "(u16 \<times> usize) list"
  NET_RES :: "u16 \<rightharpoonup> usize \<times> usize"

type_synonym ('d, 'a) tprog = "(net_test \<times> (net_raw \<times> 'd world), virtio_error, 'a) prog"

definition on_net_raw :: "('d, 'a) nprog \<Rightarrow> ('d, 'a) tprog" where
  "on_net_raw = zoom snd (\<lambda>x (t, _). (t, x))"

definition on_statics :: "(net_test \<Rightarrow> net_test) \<Rightarrow> ('d, unit) tprog" where
  "on_statics f = modify (\<lambda>(t, x). (f t, x))"

fun btree_insert :: "'k::linorder \<Rightarrow> 'v \<Rightarrow> ('k \<times> 'v) list \<Rightarrow> ('k \<times> 'v) list" where
  "btree_insert k v [] = [(k, v)]"
| "btree_insert k v ((k', v') # kvs) =
     (if k < k' then (k, v) # (k', v') # kvs
      else if k = k' then (k, v) # kvs else (k', v') # btree_insert k v kvs)"

definition handle_irq_net :: "'d transport \<Rightarrow> (bool \<times> (virtio_net \<times> 'd world), virtio_error, unit) prog" where
  "handle_irq_net T =
     andthen (modify (\<lambda>(package_in, x). (True, x)))
     (zoom snd (\<lambda>x (p, _). (p, x)) (ignore (VirtIONet_ack_interrupt T)))"

fun irq_poll_tokens :: "'d transport \<Rightarrow> nat \<Rightarrow> u16 list \<Rightarrow> ('d, unit) tprog" where
  "irq_poll_tokens T N [] = ret ()"
| "irq_poll_tokens T N (token # tokens) =
     bind (expect (on_net_raw (poll_receive N token))) (\<lambda>in_token.
     if in_token then
       bind (expect (on_net_raw (receive_complete N token))) (\<lambda>res.
       andthen (on_statics (\<lambda>t. t\<lparr>PACKAGE_IN := True, NET_RES := (NET_RES t)(token \<mapsto> res)\<rparr>))
       (ignore (on_net_raw (VirtIONetRaw_ack_interrupt T))))
     else irq_poll_tokens T N tokens)"

definition handle_irq_net_raw :: "'d transport \<Rightarrow> nat \<Rightarrow> ('d, unit) tprog" where
  "handle_irq_net_raw T N =
     bind (gets (\<lambda>(t, x). map fst (NET_BUF t))) (\<lambda>tokens.
     andthen (irq_poll_tokens T N tokens)
     (ignore (on_net_raw (VirtIONetRaw_ack_interrupt T))))"

definition net_test_lend :: "'d platform \<Rightarrow> 'd transport \<Rightarrow> nat \<Rightarrow> usize \<Rightarrow> ('d, u16) tprog" where
  "net_test_lend P T N buf =
     bind (expect (on_net_raw (receive_begin P T N buf 2048))) (\<lambda>token.
     andthen (on_statics (\<lambda>t. t\<lparr>NET_BUF := btree_insert token buf (NET_BUF t)\<rparr>))
     (ret token))"

text \<open>One turn of the loop, from the token of the buffer lent to that of the next.\<close>

definition net_test_turn ::
  "'d platform \<Rightarrow> 'd transport \<Rightarrow> nat \<Rightarrow> usize \<Rightarrow> u16 \<Rightarrow> ('d, u16) tprog" where
  "net_test_turn P T N hdr_ptr t_token =
     bind (gets (\<lambda>(t, x). PACKAGE_IN t)) (\<lambda>package_in.
     if package_in then
       andthen (on_statics (\<lambda>t. t\<lparr>PACKAGE_IN := False\<rparr>))
       (bind (gets (\<lambda>(t, x). map_of (NET_BUF t) t_token)) (\<lambda>lent.
        (case lent of
           None \<Rightarrow> panic
         | Some buf \<Rightarrow>
             andthen (on_statics (\<lambda>t. t\<lparr>NET_BUF := filter (\<lambda>kv. fst kv \<noteq> t_token) (NET_BUF t)\<rparr>))
             (bind (gets (\<lambda>(t, x). NET_RES t t_token)) (\<lambda>res.
              (case res of
                 None \<Rightarrow> panic
               | Some (hdr_len, pkt_len) \<Rightarrow>
                   andthen (on_statics (\<lambda>t. t\<lparr>NET_RES := (NET_RES t)(t_token := None)\<rparr>))
                   (bind (add_ov (debug P) hdr_len pkt_len) (\<lambda>len.
                    andthen (assert_that (hdr_len \<le> len \<and> len \<le> 2048))
                    (andthen (expect (on_net_raw (VirtIONetRaw_send P T N hdr_ptr buf len)))
                    (net_test_lend P T N buf))))))))))
     else ret t_token)"

section \<open>Notions of the specification\<close>

text \<open>
  A disk: every request on an idle queue can be submitted and is served at some poll, and what it
  does to the contents \<open>disk_of\<close> is what \<^const>\<open>blk_serve\<close> says.
\<close>

definition disk_device ::
  "'d platform \<Rightarrow> 'd transport \<Rightarrow> blk_frame \<Rightarrow> ('d world \<Rightarrow> nat \<Rightarrow> u8) \<Rightarrow> bool" where
  "disk_device P T fr disk_of \<longleftrightarrow>
     (\<forall>q ds rq w. quiet 16 q \<longrightarrow> chain_flags ds \<longrightarrow> length ds \<le> 16 \<longrightarrow>
       (\<exists>tok t k. submitted T 16 ds (q, with_request P fr rq w) tok t \<and>
          serves_blk P t tok k (disk_of w) (disk_of (snd ((device_step P ^^ k) t))))) \<and>
     (\<forall>w m. disk_of (w\<lparr>mem := m\<rparr>) = disk_of w)"

section \<open>The block test passes\<close>

lemma for_each_Ok:
  assumes "\<And>x s. x \<in> set xs \<Longrightarrow> I s \<Longrightarrow> \<exists>s'. f x s = (Ok () :: ('e, unit) outcome, s') \<and> I s'" and "I s"
  shows "\<exists>s'. for_each f xs s = (Ok () :: ('e, unit) outcome, s') \<and> I s'"
  using assms
proof (induction xs arbitrary: s)
  case (Cons x xs)
  obtain s1 where "f x s = (Ok () :: ('e, unit) outcome, s1)" "I s1"
    using Cons.prems by force
  then show ?case
    using Cons.IH [of s1] Cons.prems(1) by (simp add: andthen_def bind_def)
qed simp

context transport_contract
begin

lemma disk_write:
  assumes dev: "disk_device P T fr disk_of" and q: "quiet 16 (blk_queue b)"
    and ok: "blk_objects_ok P fr buf 512"
  shows "\<exists>q' w'. VirtIOBlk_write_blocks P T fr sector buf 512 (b, w) = (Ok (), (b\<lparr>blk_queue := q'\<rparr>, w')) \<and>
    quiet 16 q' \<and> map (\<lambda>i. disk_of w' (unat sector * 512 + i)) [0..<512] = load_bytes P buf 512 (mem w) \<and>
    load_bytes P buf 512 (mem w') = load_bytes P buf 512 (mem w)"
proof -
  let ?ds = "blk_descs P fr (Some (buf, 512, NEXT))"
  have fl: "chain_flags ?ds" "length ?ds \<le> 16"
    by (auto intro: blk_descs_ok)
  obtain tok t k where sub: "submitted T 16 ?ds (blk_queue b, with_request P fr (BlkReq_new Out sector) w) tok t"
    and srv: "serves_blk P t tok k (disk_of w) (disk_of (snd ((device_step P ^^ k) t)))"
    using dev q fl unfolding disk_device_def by blast
  have n: "unat (512 :: usize) < 2 ^ 32" and ok': "blk_objects_ok P fr buf (unat (512 :: usize))"
    using ok by simp_all
  have c: "contiguous P buf 512" "to_paddr (hal P) (fr_resp fr) \<notin> phys P buf 512"
    using ok by (simp_all add: blk_objects_ok_def)
  have "load_bytes P buf 512 (mem (snd ((device_step P ^^ k) t))) = load_bytes P buf 512 (mem w)"
    unfolding blk_write_effect(2) [OF q ok' n sub srv] contiguous_load [OF c(1), of "_(_ := _)"]
      phys_bytes_status [OF c]
    using with_request_buffer [OF ok] submitted_mem [OF sub] by simp
  then show ?thesis
    using blk_write_transfer [OF q ok' n sub srv] by (auto simp: VirtIOBlk_write_blocks_def SECTOR_SIZE_def)
qed

lemma disk_read:
  assumes dev: "disk_device P T fr disk_of" and q: "quiet 16 (blk_queue b)"
    and ok: "blk_objects_ok P fr buf 512" and other: "blk_objects_ok P fr buf2 512"
    and apart: "phys P buf 512 \<inter> phys P buf2 512 = {}"
  shows "\<exists>q' w'. VirtIOBlk_read_blocks P T fr sector buf 512 (b, w) = (Ok (), (b\<lparr>blk_queue := q'\<rparr>, w')) \<and>
    quiet 16 q' \<and> load_bytes P buf 512 (mem w') = map (\<lambda>i. disk_of w (unat sector * 512 + i)) [0..<512] \<and>
    load_bytes P buf2 512 (mem w') = load_bytes P buf2 512 (mem w)"
proof -
  let ?ds = "blk_descs P fr (Some (buf, 512, or NEXT WRITE))"
  have fl: "chain_flags ?ds" "length ?ds \<le> 16"
    by (auto intro: blk_descs_ok)
  obtain tok t k where sub: "submitted T 16 ?ds (blk_queue b, with_request P fr (BlkReq_new In sector) w) tok t"
    and srv: "serves_blk P t tok k (disk_of w) (disk_of (snd ((device_step P ^^ k) t)))"
    using dev q fl unfolding disk_device_def by blast
  have n: "unat (512 :: usize) < 2 ^ 32" and ok': "blk_objects_ok P fr buf (unat (512 :: usize))"
    using ok by simp_all
  have c: "contiguous P buf2 512" "to_paddr (hal P) (fr_resp fr) \<notin> phys P buf2 512" "contiguous P buf 512"
    using ok other by (simp_all add: blk_objects_ok_def)
  let ?data = "map (\<lambda>i. disk_of w (unat sector * 512 + i)) [0..<512]"
  have "write_phys m (to_paddr (hal P) buf) ?data (to_paddr (hal P) buf2 + of_nat i) =
      m (to_paddr (hal P) buf2 + of_nat i)" if "i < 512" for m i
    using that apart phys_contiguous [OF c(1)] phys_contiguous [OF c(3)]
    by (intro write_phys_other) auto
  then have "phys_bytes (write_phys (mem (snd t)) (to_paddr (hal P) buf) ?data) (to_paddr (hal P) buf2) 512 =
      phys_bytes (mem (snd t)) (to_paddr (hal P) buf2) 512"
    by (intro phys_bytes_cong) simp
  then have "load_bytes P buf2 512 (mem (snd ((device_step P ^^ k) t))) = load_bytes P buf2 512 (mem w)"
    unfolding blk_read_effect(2) [OF q ok' n sub srv] contiguous_load [OF c(1), of "_(_ := _)"]
      phys_bytes_status [OF c(1,2)]
    using with_request_buffer [OF other] submitted_mem [OF sub] by simp
  then show ?thesis
    using blk_read_transfer [OF q ok' n sub srv] by (auto simp: VirtIOBlk_read_blocks_def SECTOR_SIZE_def)
qed

lemma blk_test_step_passes:
  assumes dev: "disk_device P T fr disk_of" and q: "quiet 16 (blk_queue b)"
    and ok: "blk_objects_ok P fr input 512" "blk_objects_ok P fr output 512"
    and apart: "phys P output 512 \<inter> phys P input 512 = {}"
  shows "\<exists>q' w'. blk_test_step P T fr input output i (b, w) = (Ok (), (b\<lparr>blk_queue := q'\<rparr>, w')) \<and> quiet 16 q'"
proof -
  let ?w = "w\<lparr>mem := store_bytes P input (replicate 512 (ucast i)) (mem w)\<rparr>"
  obtain q1 w1 where 1: "VirtIOBlk_write_blocks P T fr i input 512 (b, ?w) = (Ok (), (b\<lparr>blk_queue := q1\<rparr>, w1))"
    "quiet 16 q1" "map (\<lambda>j. disk_of w1 (unat i * 512 + j)) [0..<512] = load_bytes P input 512 (mem ?w)"
    "load_bytes P input 512 (mem w1) = load_bytes P input 512 (mem ?w)"
    using disk_write [OF dev q ok(1)] by blast
  have q1: "quiet 16 (blk_queue (b\<lparr>blk_queue := q1\<rparr>))"
    using 1(2) by simp
  obtain q2 w2 where 2: "VirtIOBlk_read_blocks P T fr i output 512 (b\<lparr>blk_queue := q1\<rparr>, w1) =
      (Ok (), (b\<lparr>blk_queue := q1\<rparr>\<lparr>blk_queue := q2\<rparr>, w2))" "quiet 16 q2"
    "load_bytes P output 512 (mem w2) = map (\<lambda>j. disk_of w1 (unat i * 512 + j)) [0..<512]"
    "load_bytes P input 512 (mem w2) = load_bytes P input 512 (mem w1)"
    using disk_read [OF dev q1 ok(2,1) apart] by blast
  show ?thesis
    using 1 2 by (intro exI [of _ q2]) (simp add: blk_test_step_def andthen_def bind_def expect_def)
qed

lemma disk_flush:
  assumes dev: "disk_device P T fr disk_of" and q: "quiet 16 (blk_queue b)"
    and ok: "blk_objects_ok P fr buf n"
  shows "\<exists>b' w'. VirtIOBlk_flush P T fr (b, w) = (Ok (), (b', w')) \<and> quiet 16 (blk_queue b')"
proof -
  let ?ds = "blk_descs P fr None"
  have fl: "chain_flags ?ds" "length ?ds \<le> 16"
    by (auto intro: blk_descs_ok)
  obtain tok t k where sub: "submitted T 16 ?ds (blk_queue b, with_request P fr (BlkReq_new Flush 0) w) tok t"
    and srv: "serves_blk P t tok k (disk_of w) (disk_of (snd ((device_step P ^^ k) t)))"
    using dev q fl unfolding disk_device_def by blast
  then obtain len where "device_serves P 16 t tok k len"
    by (auto simp: serves_blk_def)
  from blk_request_run [OF q fl sub this]
  obtain q' where "request_body P T fr (BlkReq_new Flush 0) ?ds (b, w) =
      (Ok (), (b\<lparr>blk_queue := q'\<rparr>, snd ((device_step P ^^ k) t)))" "quiet 16 q'"
    using blk_flush_effect [OF q ok sub srv] by (auto simp: blk_outcome_def)
  then show ?thesis
    using q by (simp add: VirtIOBlk_flush_def bind_def request_bodies)
qed

lemma test_virtio_blk_passes:
  assumes dev: "disk_device P T fr disk_of" and q: "quiet 16 (blk_queue b)"
    and ok: "blk_objects_ok P fr input 512" "blk_objects_ok P fr output 512"
    and apart: "phys P output 512 \<inter> phys P input 512 = {}"
  shows "\<exists>b' w'. test_virtio_blk P T fr input output (b, w) = (Ok (), (b', w')) \<and> quiet 16 (blk_queue b')"
proof -
  have loop: "\<exists>b' w'. blk_test_loop P T fr input output is (b, w) = (Ok (), (b', w')) \<and> quiet 16 (blk_queue b')"
    if "quiet 16 (blk_queue b)" for b "is" w
    using that
  proof (induction "is" arbitrary: b w)
    case (Cons i "is")
    obtain q1 w1 where "blk_test_step P T fr input output i (b, w) = (Ok (), (b\<lparr>blk_queue := q1\<rparr>, w1))"
      "quiet 16 q1"
      using blk_test_step_passes [OF dev Cons.prems ok apart] by blast
    then show ?case
      using Cons.IH [of "b\<lparr>blk_queue := q1\<rparr>" w1] by (simp add: andthen_def bind_def)
  qed simp
  let ?w = "w\<lparr>mem := store_bytes P output (replicate 512 0) (store_bytes P input (replicate 512 0xff) (mem w))\<rparr>"
  obtain b1 w1 where "blk_test_loop P T fr input output (map of_nat [0..<10 * 1024 * 1024 div 512]) (b, ?w) =
      (Ok (), (b1, w1))" "quiet 16 (blk_queue b1)"
    using loop [OF q] by blast
  then show ?thesis
    using disk_flush [OF dev _ ok(1), of b1 w1]
    by (auto simp: test_virtio_blk_def andthen_def bind_def Let_def expect_def)
qed

end

section \<open>The display test stays inside the frame buffer\<close>

lemma draw_pixel_inside:
  fixes P :: "'d platform"
  assumes x: "x < unat width" and y: "y < height"
    and area: "unat width * height * 4 \<le> unat (snd fb)" "height \<le> 2 ^ 32" "unat width \<le> 2 ^ 32"
  shows "\<exists>w'. draw_pixel P fb width (of_nat y) (of_nat x) (g, w) = (Ok (), (g, w')) \<and> dev w' = dev w"
proof -
  have "y * unat width + x < unat width * height"
  proof -
    have "y * unat width + x < Suc y * unat width"
      using x by simp
    also have "\<dots> \<le> height * unat width"
      using y by (intro mult_le_mono1) simp
    finally show ?thesis
      by (simp add: mult.commute)
  qed
  then have "Suc (y * unat width + x) * 4 \<le> unat width * height * 4"
    by (intro mult_le_mono1) simp
  then have lim: "(y * unat width + x) * 4 + 4 \<le> unat (snd fb)"
    using area(1) by (simp del: mult_Suc_right)
  moreover have "unat (snd fb) < 2 ^ 64"
    using unsigned_less [of "snd fb"] by simp
  ultimately have lim64: "(y * unat width + x) * 4 + 4 < 2 ^ 64"
    by linarith
  have ux: "unat (of_nat x :: usize) = x" and uy: "unat (of_nat y :: usize) = y"
    using x y area by (simp_all add: unat_of_nat)
  define p where "p = of_nat y * width + of_nat x"
  define i where "i = p * 4"
  have row: "unat (of_nat y * width) = y * unat width"
    using lim64 uy by (simp add: unat_word_ariths)
  have pos: "unat p = y * unat width + x"
    using lim64 ux row by (simp add: p_def unat_word_ariths)
  have idx: "unat i = (y * unat width + x) * 4"
    using lim64 unfolding pos [symmetric] by (simp add: i_def unat_word_ariths)
  have "unat (i + 1) = unat i + 1" "unat (i + 2) = unat i + 2"
    using lim64 idx by (simp_all add: unat_word_ariths)
  then have st: "i < snd fb" "i + 1 < snd fb" "i + 2 < snd fb"
    using lim idx by (simp_all add: word_less_nat_alt)
  have "mul_ov (debug P) (of_nat y) width = (ret (of_nat y * width) :: ('d, usize) gprog)"
    "add_ov (debug P) (of_nat y * width) (of_nat x) = (ret p :: ('d, usize) gprog)" "mul_ov (debug P) p 4 = (ret i :: ('d, usize) gprog)"
    "add_ov (debug P) i 1 = (ret (i + 1) :: ('d, usize) gprog)" "add_ov (debug P) i 2 = (ret (i + 2) :: ('d, usize) gprog)"
    "add_ov (debug P) (of_nat x) (of_nat y) = (ret (of_nat x + of_nat y) :: ('d, usize) gprog)"
    using lim64 x y area ux uy row pos idx by (auto simp: mul_ov_def add_ov_def p_def i_def)
  then show ?thesis
    using st by (simp add: draw_pixel_def fb_store_def andthen_def bind_def)
qed

lemma page_area_covers:
  fixes x y :: u32
  assumes "unat x * unat y * 4 < 2 ^ 32"
  shows "unat x * unat y * 4 \<le> unat (4096 * pages (ucast (x * y * 4)))"
proof -
  let ?a = "unat x * unat y * 4"
  have "unat (ucast (x * y * 4) :: usize) = ?a"
    using unat_area [OF assms] by (simp add: unat_ucast_up)
  then have "unat (pages (ucast (x * y * 4))) = (?a + 4095) div 4096"
    using assms by (subst unat_pages) simp_all
  moreover have "4096 * ((?a + 4095) div 4096) \<le> ?a + 4095"
    by (rule times_div_less_eq_dividend)
  ultimately have "unat (4096 * pages (ucast (x * y * 4))) = 4096 * ((?a + 4095) div 4096)"
    using assms by (simp add: unat_word_ariths)
  moreover have "?a + 4095 < 4096 * ((?a + 4095) div 4096) + 4096"
    using mod_less_divisor [of 4096 "?a + 4095"] mult_div_mod_eq [of 4096 "?a + 4095"] by linarith
  ultimately show ?thesis
    by linarith
qed

lemma draw_all_inside:
  fixes P :: "'d platform"
  assumes area: "unat width * height * 4 \<le> unat (snd fb)" "height \<le> 2 ^ 32" "unat width \<le> 2 ^ 32"
  shows "\<exists>w'. for_each (\<lambda>y. for_each (\<lambda>x. draw_pixel P fb width (of_nat y) (of_nat x)) [0..<unat width])
      [0..<height] (g, w) = (Ok (), (g, w')) \<and> dev w' = dev w"
proof -
  let ?I = "\<lambda>s :: virtio_gpu \<times> 'd world. fst s = g \<and> dev (snd s) = dev w"
  have row: "\<exists>s'. for_each (\<lambda>x. draw_pixel P fb width (of_nat y) (of_nat x)) [0..<unat width] s =
      (Ok (), s') \<and> ?I s'" if "y \<in> set [0..<height]" "?I s" for y s
  proof (rule for_each_Ok [where I = ?I])
    show "\<exists>s'. draw_pixel P fb width (of_nat y) (of_nat x) s = (Ok (), s') \<and> ?I s'"
      if "x \<in> set [0..<unat width]" "?I s" for x s
      using draw_pixel_inside [OF _ _ area, of x y P g "snd s"] that \<open>y \<in> set [0..<height]\<close>
      by (cases s) auto
  qed (use that in simp)
  have "\<exists>s'. for_each (\<lambda>y. for_each (\<lambda>x. draw_pixel P fb width (of_nat y) (of_nat x)) [0..<unat width])
      [0..<height] (g, w) = (Ok (), s') \<and> ?I s'"
    by (rule for_each_Ok [where I = ?I]) (use row in auto)
  then show ?thesis
    by auto
qed

context transport_contract
begin

lemma test_virtio_gpu_passes:
  assumes srv: "gpu_serves P T gd" and q: "quiet 2 (control_queue g)" and fr: "\<forall>c. gpu_frame_ok P (fr c)"
    and r: "r = gd_display (gd (dev w))" and fit: "unat (rect_width r) * unat (rect_height r) * 4 < 2 ^ 32"
    and alloc: "\<And>n d. pg_len (fst (dma_alloc_buf (hal P) n d)) = 4096 * n"
  shows "\<exists>g' w'. test_virtio_gpu P T fr (g, w) = (Ok (), (g', w')) \<and> quiet 2 (control_queue g') \<and>
    gd_flushed (gd (dev w')) = gd_flushed (gd (dev w)) @ [(r, RESOURCE_ID_FB)]"
proof -
  obtain q1 w1 info where 1: "get_display_info P T fr (g, w) = (Ok info, (g\<lparr>control_queue := q1\<rparr>, w1))"
    "di_rect info = r" "quiet 2 q1" "gd (dev w1) = gd (dev w)"
    using get_display_info_served [OF srv q fr] r by blast
  let ?g = "g\<lparr>control_queue := q1\<rparr>" and ?sz = "rect_width r * rect_height r * 4"
  have "quiet 2 (control_queue ?g)" "r = gd_display (gd (dev w1))"
    using 1 r by simp_all
  from setup_framebuffer_run [OF srv this(1) fr this(2) refl fit]
  obtain q2 w2 page d where 2: "setup_framebuffer P T fr (?g, w1) = (Ok (pg_vaddr page, pg_len page),
      (?g\<lparr>gpu_rect := Some r, control_queue := q2, frame_buffer_dma := Some page\<rparr>, w2))"
    "quiet 2 q2" "page = fst (dma_alloc_buf (hal P) (pages (ucast ?sz)) d)"
    "gd (dev w2) = with_framebuffer (pg_paddr page) ?sz (gd (dev w1))"
    by blast
  let ?g2 = "?g\<lparr>gpu_rect := Some r, control_queue := q2, frame_buffer_dma := Some page\<rparr>"
  have area: "unat (ucast (rect_width r) :: usize) * unat (ucast (rect_height r) :: usize) * 4 \<le> unat (pg_len page)"
    using page_area_covers [OF fit] by (simp add: 2(3) alloc unat_ucast_up)
  have small: "unat (ucast (rect_width r) :: usize) \<le> 2 ^ 32" "unat (ucast (rect_height r) :: usize) \<le> 2 ^ 32"
    using order_less_imp_le [OF unsigned_less [of "rect_width r", where 'a = nat]]
      order_less_imp_le [OF unsigned_less [of "rect_height r", where 'a = nat]]
    by (simp_all add: unat_ucast_up)
  obtain w3 where 3: "for_each (\<lambda>y. for_each (\<lambda>x. draw_pixel P (pg_vaddr page, pg_len page) (ucast (rect_width r))
        (of_nat y) (of_nat x)) [0..<unat (ucast (rect_width r) :: usize)])
      [0..<unat (ucast (rect_height r) :: usize)] (?g2, w2) = (Ok (), (?g2, w3))" "dev w3 = dev w2"
    using draw_all_inside [of "ucast (rect_width r)" "unat (ucast (rect_height r) :: usize)"
        "(pg_vaddr page, pg_len page)" P ?g2 w2] area small by auto
  have dev: "gd_backing (gd (dev w3)) RESOURCE_ID_FB \<noteq> None" "gd_resources (gd (dev w3)) RESOURCE_ID_FB \<noteq> None"
    by (simp_all add: 3(2) 2(4) with_framebuffer_def RESOURCE_ID_FB_def)
  have "quiet 2 (control_queue ?g2)" "gpu_rect ?g2 = Some r"
    using 2(2) by simp_all
  from flush_run [OF srv this(1) fr this(2) dev]
  obtain q4 w4 where 4: "VirtIOGpu_flush P T fr (?g2, w3) = (Ok (), (?g2\<lparr>control_queue := q4\<rparr>, w4))" "quiet 2 q4"
    "gd (dev w4) = (gd (dev w3))\<lparr>gd_transferred := gd_transferred (gd (dev w3)) @ [(r, RESOURCE_ID_FB)],
      gd_flushed := gd_flushed (gd (dev w3)) @ [(r, RESOURCE_ID_FB)]\<rparr>"
    by blast
  have fl: "gd_flushed (gd (dev w4)) = gd_flushed (gd (dev w)) @ [(r, RESOURCE_ID_FB)]"
    by (simp add: 4(3) 3(2) 2(4) 1(4) with_framebuffer_def)
  have "VirtIOGpu_resolution P T fr (g, w) = (Ok (rect_width r, rect_height r), (?g, w1))"
    using 1(1,2) by (simp add: VirtIOGpu_resolution_def bind_def)
  then have "test_virtio_gpu P T fr (g, w) = (Ok (), (?g2\<lparr>control_queue := q4\<rparr>, w4))"
    using 2(1) 3(1) 4(1) by (simp add: test_virtio_gpu_def bind_def andthen_def expect_def Let_def)
  then show ?thesis
    using 4(2) fl by (intro exI [of _ "?g2\<lparr>control_queue := q4\<rparr>"] exI [of _ w4]) simp
qed

end
section \<open>Input and network tests\<close>

text \<open>Without an input device the input test never ends.\<close>

lemma test_virtio_input_no_device:
  assumes "\<And>w. fst (step ([], w)) = []"
  shows "test_virtio_input env step ([], w) = (Hang, ([], w))"
proof -
  have "while_prog (bind (input_test_round env []) (\<lambda>stop. ret (\<not> stop))) step ([], w) = (Hang, ([], w))"
    by (rule while_prog_Hang [where I = "\<lambda>s. fst s = []"]) (auto simp: bind_def assms split: prod.splits)
  then show ?thesis
    by (simp add: test_virtio_input_def bind_def)
qed

lemma btree_insert_keys: "set (map fst (btree_insert k v kvs)) = insert k (set (map fst kvs))"
  by (induction k v kvs rule: btree_insert.induct) auto

lemma btree_insert_sorted:
  "sorted_wrt (<) (map fst kvs) \<Longrightarrow> sorted_wrt (<) (map fst (btree_insert k v kvs))"
proof (induction k v kvs rule: btree_insert.induct)
  case (2 k v k' v' kvs)
  then show ?case
    using btree_insert_keys [of k v kvs] by (auto simp: order_less_trans)
qed simp

lemma btree_insert_lookup:
  "sorted_wrt (<) (map fst kvs) \<Longrightarrow> map_of (btree_insert k v kvs) = (map_of kvs)(k \<mapsto> v)"
  by (induction k v kvs rule: btree_insert.induct) (auto simp: fun_eq_iff)

text \<open>The interrupt handler takes the packet of the buffer that was lent and leaves word of it.\<close>

lemma irq_takes_packet:
  assumes "NET_BUF t = [(tok, buf)]" and "poll_receive N tok (s, w) = (Ok True, (s1, w1))"
    and "receive_complete N tok (s1, w1) = (Ok res, (s2, w2))"
  shows "fst (snd (handle_irq_net_raw T N (t, (s, w)))) =
    t\<lparr>PACKAGE_IN := True, NET_RES := (NET_RES t)(tok \<mapsto> res)\<rparr>"
  using assms
  by (simp add: handle_irq_net_raw_def bind_def andthen_def on_net_raw_def zoom_def expect_def on_statics_def
      ignore_def split: prod.splits outcome.splits)

text \<open>
  The frame the test sends back has the header of the received packet in front of the packet:
  the driver's \<^verbatim>\<open>send\<close> adds a header of its own, and the slice begins with the received one.
\<close>

lemma load_bytes_split: "load_bytes P a (m + n) mm = load_bytes P a m mm @ load_bytes P (a + of_nat m) n mm"
  by (rule nth_equalityI) (auto simp: load_bytes_def nth_append)

context transport_contract
begin

lemma echoed_frame:
  assumes "quiet N (send_queue s)" and "2 \<le> N" and "tx_objects_ok P hdr_ptr buf len"
    and "submitted T N (send_descriptors P hdr_ptr buf len) (send_queue s, with_header P hdr_ptr w) tok t"
    and "unat len = 10 + n"
  shows "tx_frame (map payload (chain_of N (table (fst t)) tok)) (mem (snd t)) =
    Some (replicate 10 0 @ load_bytes P buf 10 (mem w) @ load_bytes P (buf + 10) n (mem w))"
  using send_submitted_frame [OF assms(1-4)] assms(5) load_bytes_split [of P buf 10 n "mem w"] by simp

end

end
