(* ===== verification/QemuProps.thy ===== *)
theory QemuProps
  imports QemuHal QemuKernel QemuTcp QemuTest BlkProps GpuProps
begin

text \<open>
  The properties of the test kernel of \<^verbatim>\<open>qemu/src\<close>: its self tests on devices that behave as the
  specification says, the memory its platform gives to the drivers, its locks and interrupts, and
  the reply of its echo server.
\<close>

section \<open>Concrete machines\<close>


definition sample_machine :: "unit qemu_state" where
  "sample_machine = \<lparr>DMA_PADDR = 0x80400000, fresh_memory = (\<lambda>_. 0), hardware = ()\<rparr>"


definition idle_hart :: hart where
  "idle_hart = \<lparr>sie = True, hart_id = 0, CPUS = [Cpu_new]\<rparr>"










section \<open>Self tests\<close>





section \<open>Memory of the drivers\<close>

text \<open>
  C36: The areas the platform gives out for any sequence of queues and buffers have the requested
  lengths in pages, start at page boundaries when the pointer did, and no two of them overlap, as
  long as the pointer does not wrap around.
\<close>

theorem dma_areas_disjoint:
  assumes "unat (DMA_PADDR s) + 4096 * sum_list (map request_pages reqs) < 2 ^ 64"
  shows "map (\<lambda>x. unat (snd x)) (dma_areas reqs s) = map (\<lambda>q. 4096 * request_pages q) reqs \<and>
    (unat (DMA_PADDR s) mod 4096 = 0 \<longrightarrow> (\<forall>x \<in> set (dma_areas reqs s). unat (fst x) mod 4096 = 0)) \<and>
    (\<forall>i j. i < j \<longrightarrow> j < length reqs \<longrightarrow> area_before (dma_areas reqs s ! i) (dma_areas reqs s ! j))"
proof -
  note o = dma_areas_ordered [OF assms]
  moreover have "length (dma_areas reqs s) = length reqs"
    using o by (metis length_map)
  ultimately show ?thesis
    by (simp add: sorted_wrt_iff_nth_less)
qed

theorem dma_areas_disjoint_witness:
  "let as = dma_areas [QueuePages 16 2, BufferPages 1] sample_machine
   in map (\<lambda>x. unat (snd x)) as = [8192, 4096] \<and> area_before (as ! 0) (as ! 1)"
proof -
  have "unat (DMA_PADDR sample_machine) + 4096 * sum_list (map request_pages [QueuePages 16 2, BufferPages 1]) < 2 ^ 64"
    by (simp add: sample_machine_def)
  from dma_areas_disjoint [OF this] show ?thesis
    by (simp add: Let_def del: dma_areas.simps)
qed



section \<open>Locks and interrupts\<close>

text \<open>
  C38: From a hart that holds no lock, any sequence of lock and unlock operations behaves as a
  counter of the locks held: it panics exactly when a lock is released that is not held, and
  otherwise the depth kept by the hart is the number of locks held and interrupts are enabled
  exactly when it is zero and they were enabled at the start. The sequence is shorter than 2^31,
  where the depth would overflow.
\<close>

theorem locks_refine_counter:
  assumes "unat (hart_id h) < length (CPUS h)" and "noff (CPUS h ! unat (hart_id h)) = 0"
    and "length ops < 2 ^ 31"
  shows "\<exists>h'. run_locks dbg ops h = (if locks_held ops 0 = None then Panic else Ok (), h') \<and>
    (\<forall>n. locks_held ops 0 = Some n \<longrightarrow>
       noff (CPUS h' ! unat (hart_id h')) = of_nat n \<and> is_interrupt_enable h' = (is_interrupt_enable h \<and> n = 0))"
  using run_locks_holds [of 0 "sie h" h ops dbg] assms by (auto simp: holds_def is_interrupt_enable_def)

theorem locks_refine_counter_witness:
  "\<exists>h'. run_locks True [Lock, Lock, Unlock] idle_hart = (Ok (), h') \<and> \<not> is_interrupt_enable h'"
  using locks_refine_counter [of idle_hart "[Lock, Lock, Unlock]" True]
  by (auto simp: idle_hart_def Cpu_new_def)



section \<open>The echo server\<close>

text \<open>
  C40: The reply to a client has the lines it sent, each reversed, in the same order: it is as
  long as what was received, all of which is consumed, and its reply would be the original text.
\<close>

theorem echo_reverses_lines:
  "slice_split 10 (snd (echo_reply buffer)) = map rev (slice_split 10 buffer) \<and>
   fst (echo_reply buffer) = length buffer \<and> length (snd (echo_reply buffer)) = length buffer \<and>
   snd (echo_reply (snd (echo_reply buffer))) = buffer"
proof -
  have "length (snd (echo_reply buffer)) = length (slice_join 10 (slice_split 10 buffer))"
    unfolding echo_reply_lines by (simp only: slice_join_length) (simp add: comp_def)
  moreover have "snd (echo_reply (snd (echo_reply buffer))) = buffer"
    by (simp add: echo_reply_lines [of "snd (echo_reply buffer)"] echo_split comp_def)
  moreover have "fst (echo_reply buffer) = length buffer"
    by (simp add: echo_reply_def Let_def)
  ultimately show ?thesis
    by (simp add: echo_split)
qed

end
