(* ===== verification/Spec2Isabelle.thy ===== *)
theory Spec2Isabelle
  imports QueueProps TransportProps BlkProps InputProps NetProps ConsoleProps GpuProps PciProps QemuProps
begin

text \<open>
  A verification of \<^verbatim>\<open>safe-virtio-drivers\<close>: VirtIO drivers written without unsafe code
  (\<^verbatim>\<open>virtio-drivers/src\<close>) and the RISC-V kernel that tests them under QEMU (\<^verbatim>\<open>qemu/src\<close>).

  \<^bold>\<open>The program.\<close> A driver owns a transport, through which it configures its device, and one or two
  virtqueues, through which it exchanges buffers with it. The transport (trait \<^verbatim>\<open>Transport\<close>, with
  an MMIO and a PCI implementation) negotiates features and tells the device where the queues are.
  A queue is a table of descriptors and two rings in memory both sides see: the driver publishes
  chains of descriptors in the available ring, and the device returns them in the used ring. The
  application gives the crate its platform: register accesses (\<^verbatim>\<open>VirtIoDeviceIo\<close>), pages, and the
  translation of addresses (\<^verbatim>\<open>Hal\<close>). Requests are made with buffers whose addresses are handed to
  the device, which reads and writes them.

  \<^bold>\<open>How code is modelled.\<close> An operation is a program, a function from a state to an outcome and a
  state (\<^verbatim>\<open>VirtioPrelude\<close>). The outcome is a result, an error value (\<^verbatim>\<open>Err\<close>, the source's \<^verbatim>\<open>Result\<close>), a
  panic (failed assertion, \<^verbatim>\<open>unwrap\<close>, index out of range, overflow in a build with overflow
  checks) or \<open>Hang\<close>, for a loop that never stops. Loops over a finite range are structural recursion.
  Polling loops are \<open>while_prog\<close>, defined with \<open>while_option\<close>, so that there is no fuel, and a theorem that an
  operation returns says so; between two polls the device acts once. Words have the width they
  have in the source. The world (\<^verbatim>\<open>Hal\<close>) is the state of the device, of any type, the memory both sides
  see, and a trace of register accesses. The platform is a record of functions and thereby a
  parameter of every definition, as is the device's activity on a queue; \<open>debug\<close> tells builds with
  debug assertions and overflow checks from others. Local arrays and boxed buffers whose address the
  device learns are at addresses that are arguments.

  \<^bold>\<open>The theories and the source.\<close>
  \<^item> \<^verbatim>\<open>VirtioPrelude\<close>: programs, their laws, frame rules (\<open>keeps\<close>, \<open>emits\<close>), loops, lists and words.
  \<^item> \<^verbatim>\<open>Hal\<close>, \<^verbatim>\<open>Volatile\<close>, \<^verbatim>\<open>Bytes\<close>: \<^verbatim>\<open>lib.rs\<close>, \<^verbatim>\<open>error.rs\<close>, \<^verbatim>\<open>hal.rs\<close>, \<^verbatim>\<open>volatile.rs\<close>; the bytes of objects in memory.
  \<^item> \<^verbatim>\<open>Transport\<close>, \<^verbatim>\<open>Mmio\<close>: \<^verbatim>\<open>transport/mod.rs\<close> and \<^verbatim>\<open>transport/mmio.rs\<close>. The locale \<open>transport_contract\<close>
    says what drivers rely on of a transport, in terms of a view of the device's configuration; it is
    interpreted on the MMIO transport, both versions (\<open>mmio\<close>).
  \<^item> \<^verbatim>\<open>Queue\<close>, \<^verbatim>\<open>QueueInv\<close>, \<^verbatim>\<open>VirtQueue\<close>: \<^verbatim>\<open>queue.rs\<close>; the ownership invariant \<open>vq_inv\<close> (every descriptor is free
    or in exactly one chain), its preservation, what a request and its completion do, and how
    requests run against a device. \<^verbatim>\<open>LentQueue\<close>: queues on which every buffer is always lent.
  \<^item> \<^verbatim>\<open>Blk\<close>, \<^verbatim>\<open>Input\<close>, \<^verbatim>\<open>Net\<close>, \<^verbatim>\<open>Console\<close>, \<^verbatim>\<open>Gpu\<close>: the drivers under \<^verbatim>\<open>device/\<close>, with what each device makes of
    the chains it is given (\<^verbatim>\<open>GpuDevice\<close> for the display).
  \<^item> \<^verbatim>\<open>PciBus\<close>, \<^verbatim>\<open>PciTransport\<close>: \<^verbatim>\<open>transport/pci/bus.rs\<close> and \<^verbatim>\<open>transport/pci/mod.rs\<close>. The PCI transport
    is verified on its own; the properties of the drivers are stated over the MMIO transport.
  \<^item> \<^verbatim>\<open>QemuHal\<close>, \<^verbatim>\<open>QemuKernel\<close>, \<^verbatim>\<open>QemuTcp\<close>, \<^verbatim>\<open>QemuTest\<close>: the kernel's platform (\<^verbatim>\<open>my_impl.rs\<close>), locks, timer and traps
    (\<^verbatim>\<open>mutex.rs\<close>, \<^verbatim>\<open>timer.rs\<close>, \<^verbatim>\<open>trap\<close>), the device of its echo server (\<^verbatim>\<open>tcp.rs\<close>), its self tests (\<^verbatim>\<open>new_test.rs\<close>).
  \<^item> \<^verbatim>\<open>Sample\<close>: a concrete platform and device for the witnesses. The theories ending in \<^verbatim>\<open>Props\<close> hold the
    properties, each with a witness where it has hypotheses.

  \<^bold>\<open>What is shown.\<close>
  \<^item> Queue: adding and taking chains refines an abstract queue of requests; a chain is published as
    given, descriptors are conserved, a completion that is announced can be taken, a blocking
    request returns when the device serves it and hangs when it never does; the areas of a queue
    do not overlap and are registered with the device as they are.
  \<^item> Transport: negotiation leaves exactly the common features, registering and unregistering a queue
    cancel out, a failed construction resets the device.
  \<^item> Drivers: what a request transfers, against a device that follows the specification: blocks read
    and written, frames sent and received, events, characters, the frame buffer; what constructors
    establish; the outcome for every status of the device.
  \<^item> PCI: enumeration yields exactly the functions present, configuration addresses are unique, the
    size of a base address register is found and the register restored, regions accepted lie inside their
    memory, and when the scan of the capabilities ends.
  \<^item> Kernel: the block and display tests run to their end, areas of pages do not overlap, locks nest,
    interrupts are served, and the reply of the echo server.
  Where the code does something other than what it is for, the theorem states what it does.

  \<^bold>\<open>Bounds.\<close> Queue sizes are powers of two up to 32768; the memory of a queue is below 16 TiB, as the
  legacy registers require; buffers handed to the device are shorter than 4 GiB, the width of the length
  field. The hypotheses on devices (\<open>device_serves\<close> and those built on it) say that a request is
  completed at some poll, as the VirtIO specification demands.

  \<^bold>\<open>Not modelled.\<close> Boot code, firmware calls, the trap entry (assembly), console output and logging;
  texts of errors; single writes to control registers; the walk over the device tree, which a library parses,
  and the statics that hold the constructed drivers; the TCP/IP stack and the polling loop that
  drives it; \<^verbatim>\<open>old_test.rs\<close>, \<^verbatim>\<open>old_impl.rs\<close> and \<^verbatim>\<open>virtio_impl.rs\<close>, which use the third-party crate \<^verbatim>\<open>virtio-drivers\<close>. The
  memory model is sequentially consistent: fences and the orderings of atomics have no effect on
  it, and driver and device take turns at the granularity of polls. Bit flags, structures and
  command numbers no operation uses are left out.
\<close>

end
